(* ===== verification/Go_Prelude.thy ===== *)
theory Go_Prelude
  imports Main "HOL-Library.Word" "HOL-Library.AList" "HOL-Library.List_Lexorder"
    "HOL-Library.Char_ord"
begin

section \<open>Go values, control flow and containers\<close>

text \<open>
  What every component of the development shares: the Go types the program uses and the
  part of the language and of its standard library that is not specific to one package.

  \<^item> A Go \<^verbatim>\<open>string\<close> is a byte sequence and is modelled by \<^typ>\<open>string\<close> (a \<^typ>\<open>char\<close> is
    one byte); a \<^verbatim>\<open>[]byte\<close> is a list of 8-bit words.
  \<^item> An \<^verbatim>\<open>int64\<close> that counts bytes or seconds is an \<^typ>\<open>int\<close>; where the width is part of the
    format (the length prefix of a metadata header) it is a \<^typ>\<open>64 word\<close>.
  \<^item> A returned \<^verbatim>\<open>error\<close> is a value of type \<open>goerr\<close>, and a Go pair \<^verbatim>\<open>(x, err)\<close> is
    \<open>goerr + 'a\<close>.
  \<^item> What does not return to its caller is a value of type \<open>'a go\<close>: a run-time panic,
    \<^verbatim>\<open>log.Fatal\<close>, and a loop that is still running when the observation ends.
  \<^item> A Go map is an association list. Its order stands for the iteration order of
    \<^verbatim>\<open>range\<close>, which Go leaves open: the theorems hold for every order.
  \<^item> Log output is not modelled.
\<close>

type_synonym byte = "8 word"
type_synonym bytes = "byte list"

named_theorems go_run \<open>evaluation of monadic programs\<close>
named_theorems go_preserves \<open>invariant preservation, one rule per construct and operation\<close>

subsection \<open>Error values\<close>

datatype goerr =
    ErrNoRows                    \<comment> \<open>\<^verbatim>\<open>sql.ErrNoRows\<close>\<close>
  | ErrNoWork                    \<comment> \<open>\<^verbatim>\<open>database.ErrNoWork\<close>\<close>
  | ErrJournalHasUnfinishedTasks \<comment> \<open>\<^verbatim>\<open>database.ErrJournalHasUnfinishedTasks\<close>\<close>
  | ErrTraversalCanceled         \<comment> \<open>\<^verbatim>\<open>fstraverse.ErrTraversalCanceled\<close>\<close>
  | ErrSocket | ErrDevice | ErrIrregular | ErrFifo  \<comment> \<open>of \<^verbatim>\<open>pkg/backup\<close>\<close>
  | ErrUploadCorrupted           \<comment> \<open>\<^verbatim>\<open>objstore.ErrUploadCorrupted\<close>\<close>
  | ErrCantConnect | ErrNoMetadataButNotEmpty       \<comment> \<open>of \<^verbatim>\<open>pkg/objstore\<close>\<close>
  | ErrorBadSalt                 \<comment> \<open>\<^verbatim>\<open>cryptography.ErrorBadSalt\<close>\<close>
  | ErrNotExist | ErrExist       \<comment> \<open>\<^verbatim>\<open>fs.ErrNotExist\<close>, \<^verbatim>\<open>fs.ErrExist\<close>\<close>
  | GoErr string                 \<comment> \<open>any other error, by its text\<close>

text \<open>\<^verbatim>\<open>err.Error()\<close>: the text of an error, where the program inspects it.\<close>

fun error_text :: "goerr \<Rightarrow> string" where
  "error_text ErrNoRows = ''sql: no rows in result set''"
| "error_text ErrNoWork = ''queue: no work available''"
| "error_text ErrJournalHasUnfinishedTasks =
     ''journal: cannot wipe out journal because it has unfinished items''"
| "error_text ErrTraversalCanceled = ''backup canceled''"
| "error_text ErrSocket = ''the file is a socket''"
| "error_text ErrDevice = ''the file is a device''"
| "error_text ErrIrregular = ''the file is an irregular filesystem entry''"
| "error_text ErrFifo = ''the file is a named pipe (FIFO)''"
| "error_text ErrUploadCorrupted = ''error: upload corrupted in transit, bad etag returned''"
| "error_text ErrCantConnect = ''cannot connect to cloud provider''"
| "error_text ErrNoMetadataButNotEmpty =
     ''the bucket does not contain a metadata file but is also not empty''"
| "error_text ErrorBadSalt = ''salt was empty or too short''"
| "error_text ErrNotExist = ''file does not exist''"
| "error_text ErrExist = ''file already exists''"
| "error_text (GoErr m) = m"

subsection \<open>Programs: state passing with outcomes\<close>

datatype 'a go =
    Ret 'a   \<comment> \<open>the function returned\<close>
  | Fatal    \<comment> \<open>\<^verbatim>\<open>log.Fatal\<close>: the process exits\<close>
  | Panic    \<comment> \<open>a run-time panic (index out of range, nil dereference, ...)\<close>
  | Spin     \<comment> \<open>the bounded observation ended inside a loop\<close>

type_synonym ('s, 'a) prog = "'s \<Rightarrow> 'a go \<times> 's"

definition retM :: "'a \<Rightarrow> ('s, 'a) prog" where
  "retM a = (\<lambda>s. (Ret a, s))"

definition bindM :: "('s, 'a) prog \<Rightarrow> ('a \<Rightarrow> ('s, 'b) prog) \<Rightarrow> ('s, 'b) prog" where
  "bindM m f = (\<lambda>s. case m s of
       (Ret a, t) \<Rightarrow> f a t
     | (Fatal, t) \<Rightarrow> (Fatal, t)
     | (Panic, t) \<Rightarrow> (Panic, t)
     | (Spin, t) \<Rightarrow> (Spin, t))"

text \<open>\<^verbatim>\<open>x, err := m(); if err != nil { h } else { k }\<close>\<close>

definition tryM :: "('s, goerr + 'a) prog \<Rightarrow> (goerr \<Rightarrow> ('s, 'b) prog) \<Rightarrow> ('a \<Rightarrow> ('s, 'b) prog)
    \<Rightarrow> ('s, 'b) prog" where
  "tryM m h k = bindM m (\<lambda>r. case r of Inl e \<Rightarrow> h e | Inr a \<Rightarrow> k a)"

text \<open>The same for a pure computation that may panic or exit.\<close>

definition liftGo :: "'a go \<Rightarrow> ('s, 'a) prog" where
  "liftGo g = (\<lambda>s. (g, s))"

fun bindGo :: "'a go \<Rightarrow> ('a \<Rightarrow> 'b go) \<Rightarrow> 'b go" where
  "bindGo (Ret a) f = f a"
| "bindGo Fatal f = Fatal"
| "bindGo Panic f = Panic"
| "bindGo Spin f = Spin"

text \<open>Running a program of one component on the part of a bigger state it owns.\<close>

definition zoomM :: "('s \<Rightarrow> 't) \<Rightarrow> ('t \<Rightarrow> 's \<Rightarrow> 's) \<Rightarrow> ('t, 'a) prog \<Rightarrow> ('s, 'a) prog" where
  "zoomM get put m = (\<lambda>s. case m (get s) of (r, t) \<Rightarrow> (r, put t s))"

lemma retM_run [go_run, simp]: "retM a s = (Ret a, s)"
  by (simp add: retM_def)

lemma bindM_ret [go_run, simp]: "bindM (retM a) f = f a"
  by (simp add: bindM_def retM_def)

lemma liftGo_run [go_run, simp]: "liftGo g s = (g, s)"
  by (simp add: liftGo_def)

lemma bindM_Ret [go_run]: "m s = (Ret a, t) \<Longrightarrow> bindM m f s = f a t"
  by (simp add: bindM_def)

lemma bindM_stop [go_run]:
  "m s = (Fatal, t) \<Longrightarrow> bindM m f s = (Fatal, t)"
  "m s = (Panic, t) \<Longrightarrow> bindM m f s = (Panic, t)"
  "m s = (Spin, t) \<Longrightarrow> bindM m f s = (Spin, t)"
  by (simp_all add: bindM_def)

lemma bindM_assoc: "bindM (bindM m f) g = bindM m (\<lambda>a. bindM (f a) g)"
  by (simp add: bindM_def fun_eq_iff split: prod.splits go.splits)

lemma bindM_RetE:
  assumes "bindM m f s = (Ret b, u)"
  obtains a t where "m s = (Ret a, t)" "f a t = (Ret b, u)"
  using assms by (auto simp: bindM_def split: prod.splits go.splits)

lemma tryM_RetE:
  assumes "tryM m h k s = (Ret b, u)"
  obtains (err) e t where "m s = (Ret (Inl e), t)" "h e t = (Ret b, u)"
    | (ok) a t where "m s = (Ret (Inr a), t)" "k a t = (Ret b, u)"
  using assms by (auto simp: tryM_def elim!: bindM_RetE split: sum.splits)

lemma tryM_run [go_run]:
  "m s = (Ret (Inr a), t) \<Longrightarrow> tryM m h k s = k a t"
  "m s = (Ret (Inl e), t) \<Longrightarrow> tryM m h k s = h e t"
  by (simp_all add: tryM_def bindM_def)

lemma zoomM_run [go_run]: "zoomM g p m s = (fst (m (g s)), p (snd (m (g s))) s)"
  by (simp add: zoomM_def split: prod.splits)

subsubsection \<open>Invariants\<close>

text \<open>A program keeps a property of its state whatever its outcome.\<close>

definition preserves :: "('s \<Rightarrow> bool) \<Rightarrow> ('s, 'a) prog \<Rightarrow> bool" where
  "preserves P m \<longleftrightarrow> (\<forall>s. P s \<longrightarrow> P (snd (m s)))"

lemma preservesI: "(\<And>s. P s \<Longrightarrow> P (snd (m s))) \<Longrightarrow> preserves P m"
  by (simp add: preserves_def)

lemma preservesD: "preserves P m \<Longrightarrow> P s \<Longrightarrow> P (snd (m s))"
  by (simp add: preserves_def)

lemma preservesD': "preserves P m \<Longrightarrow> m s = (r, t) \<Longrightarrow> P s \<Longrightarrow> P t"
  by (metis preservesD snd_conv)

lemma preserves_retM [go_preserves, intro!]: "preserves P (retM a)"
  by (simp add: preserves_def)

lemma preserves_liftGo [go_preserves, intro!]: "preserves P (liftGo g)"
  by (simp add: preserves_def)

lemma preserves_bindM [go_preserves, intro]:
  "preserves P m \<Longrightarrow> (\<And>a. preserves P (f a)) \<Longrightarrow> preserves P (bindM m f)"
  by (fastforce simp: preserves_def bindM_def split: prod.splits go.splits)

lemma preserves_tryM [go_preserves, intro]:
  "preserves P m \<Longrightarrow> (\<And>e. preserves P (h e)) \<Longrightarrow> (\<And>a. preserves P (k a)) \<Longrightarrow>
     preserves P (tryM m h k)"
  unfolding tryM_def by (intro preserves_bindM) (auto split: sum.splits)

lemma preserves_if [go_preserves, intro]:
  "(b \<Longrightarrow> preserves P m) \<Longrightarrow> (\<not> b \<Longrightarrow> preserves P n) \<Longrightarrow> preserves P (if b then m else n)"
  by simp

subsection \<open>Strings\<close>

definition bytes_of_string :: "string \<Rightarrow> bytes" where
  "bytes_of_string = map (\<lambda>c. of_nat (of_char c))"

definition string_of_bytes :: "bytes \<Rightarrow> string" where
  "string_of_bytes = map (\<lambda>b. char_of (unat b))"

definition HasPrefix :: "string \<Rightarrow> string \<Rightarrow> bool" where
  "HasPrefix s p \<longleftrightarrow> take (length p) s = p"

definition HasSuffix :: "string \<Rightarrow> string \<Rightarrow> bool" where
  "HasSuffix s p \<longleftrightarrow> length p \<le> length s \<and> drop (length s - length p) s = p"

definition TrimPrefix :: "string \<Rightarrow> string \<Rightarrow> string" where
  "TrimPrefix s p = (if HasPrefix s p then drop (length p) s else s)"

definition TrimSuffix :: "string \<Rightarrow> string \<Rightarrow> string" where
  "TrimSuffix s p = (if HasSuffix s p then take (length s - length p) s else s)"

fun Contains :: "string \<Rightarrow> string \<Rightarrow> bool" where
  "Contains [] p \<longleftrightarrow> p = []"
| "Contains (c # s) p \<longleftrightarrow> HasPrefix (c # s) p \<or> Contains s p"

text \<open>\<^verbatim>\<open>strings.Split(s, sep)\<close> for a separator of one character; never the empty list.\<close>

fun SplitChar :: "char \<Rightarrow> string \<Rightarrow> string list" where
  "SplitChar c [] = [[]]"
| "SplitChar c (x # xs) =
     (if x = c then [] # SplitChar c xs
      else (case SplitChar c xs of [] \<Rightarrow> [[x]] | y # ys \<Rightarrow> (x # y) # ys))"

fun JoinStr :: "string \<Rightarrow> string list \<Rightarrow> string" where
  "JoinStr sep [] = []"
| "JoinStr sep [x] = x"
| "JoinStr sep (x # y # ys) = x @ sep @ JoinStr sep (y # ys)"


lemma string_of_bytes_of_string [simp]: "string_of_bytes (bytes_of_string s) = s"
proof -
  have "char_of (unat (of_nat (of_char c) :: byte)) = c" for c :: char
  proof -
    have "of_char c < (256 :: nat)" by simp
    then show ?thesis by (simp add: unat_of_nat)
  qed
  then show ?thesis by (induction s) (simp_all add: string_of_bytes_def bytes_of_string_def)
qed

lemma bytes_of_string_of_bytes [simp]: "bytes_of_string (string_of_bytes b) = b"
proof -
  have "(of_nat (of_char (char_of (unat x) :: char)) :: byte) = x" for x :: byte
  proof -
    have "unat x < 256" using unsigned_less [of x] by simp
    then show ?thesis by simp
  qed
  then show ?thesis by (induction b) (simp_all add: string_of_bytes_def bytes_of_string_def)
qed

lemma length_bytes_of_string [simp]: "length (bytes_of_string s) = length s"
  by (simp add: bytes_of_string_def)

lemma bytes_of_string_append [simp]:
  "bytes_of_string (s @ t) = bytes_of_string s @ bytes_of_string t"
  by (simp add: bytes_of_string_def)

lemma HasPrefix_append [simp]: "HasPrefix (p @ s) p"
  by (simp add: HasPrefix_def)

lemma HasPrefix_iff: "HasPrefix s p \<longleftrightarrow> (\<exists>r. s = p @ r)"
  unfolding HasPrefix_def by (metis append_eq_conv_conj append_take_drop_id)

lemma TrimPrefix_append [simp]: "TrimPrefix (p @ s) p = s"
  by (simp add: TrimPrefix_def)

lemma HasPrefix_Nil [simp]: "HasPrefix s []"
  by (simp add: HasPrefix_def)

lemma HasSuffix_iff: "HasSuffix s p \<longleftrightarrow> (\<exists>r. s = r @ p)"
proof
  assume "HasSuffix s p"
  then show "\<exists>r. s = r @ p"
    unfolding HasSuffix_def by (metis append_take_drop_id)
qed (auto simp: HasSuffix_def)

lemma TrimSuffix_append [simp]: "TrimSuffix (s @ p) p = s"
  by (simp add: TrimSuffix_def HasSuffix_def)

lemma Contains_iff: "Contains s p \<longleftrightarrow> (\<exists>a b. s = a @ p @ b)"
proof (induction s)
  case Nil
  then show ?case by auto
next
  case (Cons c s)
  show ?case
  proof
    assume "Contains (c # s) p"
    then consider "HasPrefix (c # s) p" | "Contains s p" by auto
    then show "\<exists>a b. c # s = a @ p @ b"
    proof cases
      case 1
      then show ?thesis by (metis HasPrefix_iff append_Nil)
    next
      case 2
      then show ?thesis using Cons.IH by (metis append_Cons)
    qed
  next
    assume "\<exists>a b. c # s = a @ p @ b"
    then obtain a b where ab: "c # s = a @ p @ b" by blast
    show "Contains (c # s) p"
    proof (cases a)
      case Nil
      with ab have "HasPrefix (c # s) p" by (metis HasPrefix_iff append_Nil)
      then show ?thesis by simp
    next
      case (Cons x a')
      with ab have "s = a' @ p @ b" by simp
      with Cons.IH show ?thesis by auto
    qed
  qed
qed

lemma SplitChar_neq_Nil [simp]: "SplitChar c s \<noteq> []"
  by (induction s) (auto split: list.splits)

lemma SplitChar_no_sep: "c \<notin> set s \<Longrightarrow> SplitChar c s = [s]"
  by (induction s) auto

lemma SplitChar_append: "c \<notin> set s \<Longrightarrow> SplitChar c (s @ c # t) = s # SplitChar c t"
  by (induction s) auto

lemma SplitChar_parts: "x \<in> set (SplitChar c s) \<Longrightarrow> c \<notin> set x"
proof (induction s arbitrary: x)
  case (Cons a s)
  then show ?case by (cases "SplitChar c s") (auto split: if_splits)
qed simp

lemma JoinStr_SplitChar: "JoinStr [c] (SplitChar c s) = s"
proof (induction s)
  case (Cons a s)
  then show ?case
    by (cases "SplitChar c s") (auto split: if_splits list.splits, metis JoinStr.simps append_Cons list.exhaust)+
qed simp

lemma SplitChar_JoinStr:
  "xs \<noteq> [] \<Longrightarrow> (\<And>x. x \<in> set xs \<Longrightarrow> c \<notin> set x) \<Longrightarrow> SplitChar c (JoinStr [c] xs) = xs"
  by (induction "[c]" xs rule: JoinStr.induct) (simp_all add: SplitChar_no_sep SplitChar_append)

lemma length_SplitChar: "length (SplitChar c s) = Suc (count_list s c)"
  by (induction s) (auto split: list.splits)

subsection \<open>Maps and slices\<close>

text \<open>
  A slice expression \<^verbatim>\<open>b[lo:hi]\<close> panics when the bounds are not in order or past the
  capacity; every slice taken in this program has capacity equal to its length.
\<close>

definition slice :: "'a list \<Rightarrow> int \<Rightarrow> int \<Rightarrow> 'a list go" where
  "slice b lo hi = (if 0 \<le> lo \<and> lo \<le> hi \<and> hi \<le> int (length b)
     then Ret (take (nat (hi - lo)) (drop (nat lo) b)) else Panic)"

lemma slice_append: "slice (a @ b @ c) (int (length a)) (int (length a + length b)) = Ret b"
  by (simp add: slice_def)

lemma slice_all: "slice b 0 (int (length b)) = Ret b"
  by (simp add: slice_def)

abbreviation map_put :: "'k \<Rightarrow> 'v \<Rightarrow> ('k \<times> 'v) list \<Rightarrow> ('k \<times> 'v) list" where
  "map_put \<equiv> AList.update"

abbreviation map_del :: "'k \<Rightarrow> ('k \<times> 'v) list \<Rightarrow> ('k \<times> 'v) list" where
  "map_del \<equiv> AList.delete"

abbreviation map_keys :: "('k \<times> 'v) list \<Rightarrow> 'k list" where
  "map_keys \<equiv> map fst"

lemmas map_put_lookup [simp] = update_conv'
lemmas map_del_lookup [simp] = delete_conv'

lemma map_of_keys_iff: "map_of m k \<noteq> None \<longleftrightarrow> k \<in> set (map_keys m)"
  by (simp add: map_of_eq_None_iff)

subsection \<open>Sequences of slices\<close>

text \<open>Offsets that run through a concatenation: used by every packed format.\<close>

lemma take_drop_concat_nth:
  assumes "i < length xs"
  shows "take (length (xs ! i)) (drop (length (concat (take i xs))) (concat xs)) = xs ! i"
proof -
  have "concat xs = concat (take i xs) @ xs ! i @ concat (drop (Suc i) xs)"
    using assms by (metis append.assoc append_take_drop_id concat.simps(2) concat_append
        id_take_nth_drop Cons_nth_drop_Suc)
  then show ?thesis by simp
qed

subsection \<open>Lists\<close>

lemma find_SomeD: "List.find p xs = Some x \<Longrightarrow> p x \<and> x \<in> set xs"
  by (auto simp: find_Some_iff)

lemma length_filter_less:
  assumes "x \<in> set xs" "p x" "\<not> p (f x)" "\<And>y. y \<in> set xs \<Longrightarrow> p (f y) \<Longrightarrow> p y"
  shows "length (filter p (map f xs)) < length (filter p xs)"
  using assms
proof (induction xs)
  case (Cons y ys)
  have le: "length (filter p (map f ys)) \<le> length (filter p ys)" if "\<And>z. z \<in> set ys \<Longrightarrow> p (f z) \<Longrightarrow> p z"
    using that by (induction ys) (auto simp: le_SucI)
  show ?case
  proof (cases "x \<in> set ys")
    case True
    with Cons show ?thesis by (auto simp: less_SucI)
  next
    case False
    with Cons.prems have "x = y" by auto
    with Cons.prems le show ?thesis by (auto simp: less_Suc_eq_le)
  qed
qed simp

subsection \<open>Codecs\<close>

text \<open>
  The program has many formats: names of snapshots and objects, numbers in headers, encrypted
  buffers. Their contract is one: what was written reads back. The clients' consequences are
  that two values never share an encoding and that a decoder recognises every encoding.
\<close>

locale codec =
  fixes valid :: "'a \<Rightarrow> bool" and enc :: "'a \<Rightarrow> 'b" and dec :: "'b \<Rightarrow> 'a option"
  assumes roundtrip: "valid x \<Longrightarrow> dec (enc x) = Some x"
begin

lemma enc_eq_iff: "valid x \<Longrightarrow> valid y \<Longrightarrow> enc x = enc y \<longleftrightarrow> x = y"
  by (metis option.inject roundtrip)

lemma enc_inj_on: "inj_on enc (Collect valid)"
  by (auto simp: inj_on_def enc_eq_iff)

lemma dec_map: "(\<And>x. x \<in> set xs \<Longrightarrow> valid x) \<Longrightarrow> map dec (map enc xs) = map Some xs"
  by (induction xs) (simp_all add: roundtrip)

lemma distinct_enc: "(\<And>x. x \<in> set xs \<Longrightarrow> valid x) \<Longrightarrow> distinct (map enc xs) = distinct xs"
  by (induction xs) (auto simp: enc_eq_iff)

end

end
