(* ===== verification/Filepath.thy ===== *)
theory Filepath
  imports Go_Prelude
begin

section \<open>Path manipulation of the Go standard library\<close>

text \<open>
  The functions of \<^verbatim>\<open>path/filepath\<close> the program calls (on Unix), as \<^verbatim>\<open>Clean\<close> documents them:
  components are separated by \<^verbatim>\<open>/\<close>, empty and \<^verbatim>\<open>.\<close> components vanish, \<^verbatim>\<open>..\<close> removes the
  component before it, and a rooted path has nothing above its root. The lemmas are the
  facts about \<^verbatim>\<open>Base\<close>, \<^verbatim>\<open>Split\<close> and \<^verbatim>\<open>Join\<close> the components rely on.
\<close>

definition clean_step :: "bool \<Rightarrow> string \<Rightarrow> string list \<Rightarrow> string list" where
  "clean_step rooted c stack =
     (if c = [] \<or> c = ''.'' then stack
      else if c = ''..'' then
        (case stack of
           [] \<Rightarrow> if rooted then [] else [''..'']
         | t # ts \<Rightarrow> if t = ''..'' then ''..'' # stack else ts)
      else c # stack)"

definition clean_parts :: "bool \<Rightarrow> string list \<Rightarrow> string list" where
  "clean_parts rooted cs = rev (fold (clean_step rooted) cs [])"

definition Clean :: "string \<Rightarrow> string" where
  "Clean p =
     (let rooted = HasPrefix p ''/'';
          cs = clean_parts rooted (SplitChar (CHR ''/'') p)
      in if rooted then ''/'' @ JoinStr ''/'' cs
         else if cs = [] then ''.'' else JoinStr ''/'' cs)"

definition Join :: "string list \<Rightarrow> string" where
  "Join es = (case dropWhile (\<lambda>e. e = []) es of [] \<Rightarrow> [] | fs \<Rightarrow> Clean (JoinStr ''/'' fs))"

definition join2 :: "string \<Rightarrow> string \<Rightarrow> string" where
  "join2 a b = Join [a, b]"

definition Base :: "string \<Rightarrow> string" where
  "Base p =
     (if p = [] then ''.''
      else let q = rev (dropWhile (\<lambda>c. c = CHR ''/'') (rev p))
           in if q = [] then ''/'' else last (SplitChar (CHR ''/'') q))"

text \<open>\<^verbatim>\<open>Split\<close>: everything up to and including the last slash, and the rest.\<close>

definition PathSplit :: "string \<Rightarrow> string \<times> string" where
  "PathSplit p =
     (let file = rev (takeWhile (\<lambda>c. c \<noteq> CHR ''/'') (rev p))
      in (take (length p - length file) p, file))"

definition Dir :: "string \<Rightarrow> string" where
  "Dir p = Clean (fst (PathSplit p))"

lemma PathSplit_append: "PathSplit p = (d, f) \<Longrightarrow> d @ f = p"
proof -
  assume "PathSplit p = (d, f)"
  then have f: "f = rev (takeWhile (\<lambda>c. c \<noteq> CHR ''/'') (rev p))"
    and d: "d = take (length p - length f) p"
    by (auto simp: PathSplit_def Let_def)
  have "rev p = rev f @ dropWhile (\<lambda>c. c \<noteq> CHR ''/'') (rev p)"
    using f by simp
  then have "p = rev (dropWhile (\<lambda>c. c \<noteq> CHR ''/'') (rev p)) @ f"
    by (metis rev_append rev_rev_ident)
  then show ?thesis using d by (metis append_eq_append_conv append_take_drop_id length_append
        length_take add_diff_cancel_right' append_eq_conv_conj)
qed

lemma PathSplit_file: "PathSplit p = (d, f) \<Longrightarrow> CHR ''/'' \<notin> set f"
  by (auto simp: PathSplit_def Let_def dest: set_takeWhileD)

lemma Base_no_slash:
  assumes "p \<noteq> []" "CHR ''/'' \<notin> set p"
  shows "Base p = p"
proof -
  have "dropWhile (\<lambda>c. c = CHR ''/'') (rev p) = rev p"
    using assms by (cases p rule: rev_cases) auto
  then show ?thesis using assms by (simp add: Base_def SplitChar_no_sep)
qed

lemma Base_nonempty: "Base p \<noteq> [] \<or> (\<exists>q. p = q @ ''/'')"
proof (cases "p = []")
  case False
  then obtain q c where p: "p = q @ [c]" by (metis rev_exhaust)
  show ?thesis
  proof (cases "c = CHR ''/''")
    case False
    then have "dropWhile (\<lambda>c. c = CHR ''/'') (rev p) = rev p" by (simp add: p)
    moreover have "last (SplitChar (CHR ''/'') (q @ [c])) \<noteq> []"
    proof (induction q)
      case Nil
      then show ?case using False by simp
    next
      case (Cons a q)
      then show ?case by (cases "SplitChar (CHR ''/'') (q @ [c])") (auto split: list.splits)
    qed
    ultimately show ?thesis using p by (simp add: Base_def)
  qed (auto simp: p)
qed (simp add: Base_def)

lemma Base_sep_free:
  assumes "Base p \<noteq> ''/''"
  shows "CHR ''/'' \<notin> set (Base p)"
proof (cases "p = []")
  case True
  then show ?thesis by (simp add: Base_def)
next
  case False
  define q where "q = rev (dropWhile (\<lambda>c. c = CHR ''/'') (rev p))"
  have "Base p = (if q = [] then ''/'' else last (SplitChar (CHR ''/'') q))"
    using False unfolding Base_def q_def Let_def by (rule if_not_P)
  with assms have b: "Base p = last (SplitChar (CHR ''/'') q)" by argo
  have "last (SplitChar (CHR ''/'') q) \<in> set (SplitChar (CHR ''/'') q)"
    by (rule last_in_set) (rule SplitChar_neq_Nil)
  then show ?thesis unfolding b by (rule SplitChar_parts)
qed

subsection \<open>Going up ends\<close>

text \<open>
  The length of a path is the sum of its components and separators; cleaning drops components and
  never adds one, so the parent of a path is shorter than the path.
\<close>

definition weight :: "string list \<Rightarrow> nat" where
  "weight cs = sum_list (map (\<lambda>c. Suc (length c)) cs)"

lemma weight_simps [simp]:
  "weight [] = 0" "weight (c # cs) = Suc (length c) + weight cs" "weight (cs @ ds) = weight cs + weight ds"
  "weight (rev cs) = weight cs"
  by (simp_all add: weight_def rev_map [symmetric])

lemma weight_SplitChar: "weight (SplitChar c s) = Suc (length s)"
proof (induction s)
  case (Cons x s)
  then show ?case by (cases "SplitChar c s") auto
qed simp

lemma length_JoinStr: "cs \<noteq> [] \<Longrightarrow> Suc (length (JoinStr [c] cs)) = weight cs"
  by (induction "[c]" cs rule: JoinStr.induct) auto

lemma weight_clean_step: "weight (clean_step rooted c stack) \<le> weight (filter (\<lambda>c. c \<noteq> []) [c]) + weight stack"
  by (auto simp: clean_step_def split: list.splits)

lemma weight_clean_parts: "weight (clean_parts rooted cs) \<le> weight (filter (\<lambda>c. c \<noteq> []) cs)"
proof -
  have "weight (fold (clean_step rooted) cs st) \<le> weight (filter (\<lambda>c. c \<noteq> []) cs) + weight st" for st
  proof (induction cs arbitrary: st)
    case (Cons c cs)
    from Cons [of "clean_step rooted c st"] weight_clean_step [of rooted c st] show ?case
      by (cases "c = []") auto
  qed simp
  from this [of "[]"] show ?thesis by (simp add: clean_parts_def)
qed

lemma SplitChar_snoc: "SplitChar c (s @ [c]) = SplitChar c s @ [[]]"
  by (induction s) (auto split: list.splits)

lemma Clean_shorter:
  assumes "Clean (q @ ''/'') \<noteq> ''/''"
  shows "length (Clean (q @ ''/'')) \<le> length q"
proof -
  let ?f = "filter (\<lambda>c. c \<noteq> [])"
  let ?cs = "\<lambda>b. clean_parts b (SplitChar (CHR ''/'') (q @ ''/''))"
  have w: "weight (?cs b) \<le> weight (?f (SplitChar (CHR ''/'') q))" for b
    using weight_clean_parts [of b "SplitChar (CHR ''/'') (q @ ''/'')"] by (simp add: SplitChar_snoc)
  have f: "weight (?f xs) \<le> weight xs" for xs by (induction xs) auto
  show ?thesis
  proof (cases q)
    case Nil
    then show ?thesis using assms by (simp add: Clean_def clean_parts_def clean_step_def HasPrefix_def)
  next
    case (Cons c r)
    have len: "Suc (length (JoinStr ''/'' (?cs b))) = weight (?cs b) \<or> ?cs b = []" for b
      using length_JoinStr by blast
    show ?thesis
    proof (cases "c = CHR ''/''")
      case True
      then have q: "SplitChar (CHR ''/'') q = [] # SplitChar (CHR ''/'') r" using Cons by simp
      have "weight (?cs True) \<le> length q"
        using w [of True] f [of "SplitChar (CHR ''/'') r"] q Cons by (simp add: weight_SplitChar)
      moreover have "Clean (q @ ''/'') = ''/'' @ JoinStr ''/'' (?cs True)"
        using True Cons by (simp add: Clean_def HasPrefix_def)
      ultimately show ?thesis using len [of True] assms by auto
    next
      case False
      have "weight (?cs False) \<le> Suc (length q)"
        using w [of False] f [of "SplitChar (CHR ''/'') q"] by (simp add: weight_SplitChar)
      moreover have "Clean (q @ ''/'') = (if ?cs False = [] then ''.'' else JoinStr ''/'' (?cs False))"
        using False Cons by (simp add: Clean_def HasPrefix_def)
      ultimately show ?thesis using len [of False] Cons by auto
    qed
  qed
qed

lemma PathSplit_dir: "fst (PathSplit p) = [] \<or> (\<exists>q. fst (PathSplit p) = q @ ''/'')"
proof (cases "fst (PathSplit p)" rule: rev_cases)
  case (snoc q c)
  obtain d f where pf: "PathSplit p = (d, f)" by fastforce
  have p: "p = q @ [c] @ f" using PathSplit_append [OF pf] snoc pf by simp
  have "c = CHR ''/''"
  proof (rule ccontr)
    assume "c \<noteq> CHR ''/''"
    moreover have "CHR ''/'' \<notin> set f" by (rule PathSplit_file [OF pf])
    ultimately have "takeWhile (\<lambda>c. c \<noteq> CHR ''/'') (rev p) =
        rev f @ c # takeWhile (\<lambda>c. c \<noteq> CHR ''/'') (rev q)"
      unfolding p by (subst rev_append, simp, subst takeWhile_append2) auto
    moreover have "length f = length (takeWhile (\<lambda>c. c \<noteq> CHR ''/'') (rev p))"
      using pf by (auto simp: PathSplit_def Let_def)
    ultimately show False by simp
  qed
  with snoc show ?thesis by simp
qed simp

lemma Dir_shorter:
  assumes "Dir p \<noteq> ''.''" "Dir p \<noteq> ''/''"
  shows "length (Dir p) < length p"
proof -
  obtain d f where pf: "PathSplit p = (d, f)" by fastforce
  have "d \<noteq> []" using assms(1) pf by (auto simp: Dir_def Clean_def clean_parts_def clean_step_def HasPrefix_def)
  then obtain q where d: "d = q @ ''/''" using PathSplit_dir [of p] pf by auto
  have "length (Dir p) \<le> length q"
    using Clean_shorter [of q] assms(2) pf d by (simp add: Dir_def)
  also have "length q < length p" using PathSplit_append [OF pf] d by auto
  finally show ?thesis .
qed

text \<open>The parent of an entry of a directory is the directory.\<close>

lemma Clean_append_slash:
  assumes "p \<noteq> []"
  shows "Clean (p @ ''/'') = Clean p"
proof -
  have "clean_parts b (SplitChar (CHR ''/'') (p @ ''/'')) = clean_parts b (SplitChar (CHR ''/'') p)" for b
    unfolding SplitChar_snoc by (simp add: clean_parts_def clean_step_def)
  moreover have "HasPrefix (p @ ''/'') ''/'' = HasPrefix p ''/''"
    using assms by (cases p) (simp_all add: HasPrefix_def)
  ultimately show ?thesis unfolding Clean_def by presburger
qed

lemma PathSplit_child: "CHR ''/'' \<notin> set c \<Longrightarrow> PathSplit (p @ CHR ''/'' # c) = (p @ ''/'', c)"
proof -
  assume "CHR ''/'' \<notin> set c"
  then have "takeWhile (\<lambda>x. x \<noteq> CHR ''/'') (rev (p @ CHR ''/'' # c)) = rev c"
    by (subst rev_append, simp, subst takeWhile_append2) auto
  then show ?thesis by (simp add: PathSplit_def Let_def)
qed

lemma Dir_child: "p \<noteq> [] \<Longrightarrow> Clean p = p \<Longrightarrow> CHR ''/'' \<notin> set c \<Longrightarrow> Dir (p @ CHR ''/'' # c) = p"
  by (simp add: Dir_def PathSplit_child Clean_append_slash)

end
