(* ===== verification/Environment.thy ===== *)
theory Environment
  imports Go_Prelude
begin

section \<open>The environment of the program\<close>

text \<open>
  Everything the program talks to and does not define: the minio client and the object
  store behind it, the operating system (files, clock, random bytes), and the extended
  attribute package. They are parameters: the fields of the record \<open>'w sys\<close>, functions
  over an abstract world \<open>'w\<close>. An operation answers with an error or a value and a new
  world, so that every failure the code handles is a possible answer. What the code relies
  on is stated where it is used, as locales over these parameters.
\<close>

type_synonym ('w, 'a) op = "'w \<Rightarrow> (goerr + 'a) \<times> 'w"

text \<open>
  \<^verbatim>\<open>fs.FileInfo\<close>: mode bits as Go lays them out, modification time in seconds and size in bytes.
\<close>

record finfo =
  fi_mode :: "32 word"
  fi_mtime :: int
  fi_size :: int

definition ModeDir :: "32 word" where "ModeDir = push_bit 31 1"
definition ModeSymlink :: "32 word" where "ModeSymlink = push_bit 27 1"
definition ModeDevice :: "32 word" where "ModeDevice = push_bit 26 1"
definition ModeNamedPipe :: "32 word" where "ModeNamedPipe = push_bit 25 1"
definition ModeSocket :: "32 word" where "ModeSocket = push_bit 24 1"
definition ModeIrregular :: "32 word" where "ModeIrregular = push_bit 19 1"

definition has_mode :: "32 word \<Rightarrow> 32 word \<Rightarrow> bool" where
  "has_mode m b \<longleftrightarrow> and m b \<noteq> 0"

definition fi_isdir :: "finfo \<Rightarrow> bool" where
  "fi_isdir fi \<longleftrightarrow> has_mode (fi_mode fi) ModeDir"

text \<open>
  An open file: what \<^verbatim>\<open>Stat\<close> answers for its size, and, for a buffer of \<open>n\<close> bytes, what the
  successive calls of \<^verbatim>\<open>Read\<close> return before end of file.
\<close>

datatype readres = ReadData bytes | ReadErr goerr

record gofile =
  gf_size :: "goerr + int"
  gf_reads :: "nat \<Rightarrow> readres list"

text \<open>
  What \<^verbatim>\<open>filepath.WalkDir\<close> finds below a path: for each entry its name, whether it is a directory,
  the answer of \<^verbatim>\<open>Info()\<close>, the error of reading the directory, and the entries that were read.
\<close>

datatype dtree = DNode (dt_name: string) (dt_isdir: bool) (dt_info: "goerr + finfo")
  (dt_readerr: "goerr option") (dt_children: "dtree list")

record 'w sys =
  \<comment> \<open>minio-go: bucket, object name, ...\<close>
  PutObject :: "string \<Rightarrow> string \<Rightarrow> bytes \<Rightarrow> ('w, string) op"
  GetObject :: "string \<Rightarrow> string \<Rightarrow> ('w, bytes) op"
  ListObjects :: "string \<Rightarrow> string \<Rightarrow> bool \<Rightarrow> ('w, (string \<times> int) list) op"
  RemoveObject :: "string \<Rightarrow> string \<Rightarrow> ('w, unit) op"
  CopyObject :: "string \<Rightarrow> string \<Rightarrow> string \<Rightarrow> ('w, unit) op"
  ListBucketNames :: "('w, string list) op"
  CreateBucket :: "string \<Rightarrow> string \<Rightarrow> ('w, unit) op"
  \<comment> \<open>\<^verbatim>\<open>time.Now().Unix()\<close> and \<^verbatim>\<open>io.ReadFull(rand.Reader, buf)\<close>\<close>
  TimeNow :: "'w \<Rightarrow> int \<times> 'w"
  Sleep :: "nat \<Rightarrow> 'w \<Rightarrow> 'w"                 \<comment> \<open>in seconds\<close>
  LocalDate :: "int \<Rightarrow> string"               \<comment> \<open>the local calendar day of a Unix time\<close>
  MonthsBack :: "int \<Rightarrow> int \<Rightarrow> string"       \<comment> \<open>first day of the month n months before\<close>
  Attempts :: nat                            \<comment> \<open>rounds of an unbounded loop that are observed\<close>
  RandRead :: "nat \<Rightarrow> ('w, bytes) op"
  RandInt :: "nat \<Rightarrow> ('w, nat) op"
  DicewareGenerate :: "nat \<Rightarrow> ('w, string list) op"
  \<comment> \<open>\<^verbatim>\<open>os/user\<close>: the user name and home directory; the textual uid and gid\<close>
  UserCurrent :: "('w, string \<times> string) op"
  UserLookup :: "string \<Rightarrow> ('w, string \<times> string) op"
  \<comment> \<open>package os and pkg/xattr\<close>
  Lstat :: "string \<Rightarrow> ('w, finfo) op"
  Stat :: "string \<Rightarrow> ('w, finfo) op"
  Readlink :: "string \<Rightarrow> ('w, string) op"
  WalkTree :: "string \<Rightarrow> ('w, dtree) op"     \<comment> \<open>fails like \<^verbatim>\<open>Lstat\<close> of the root\<close>
  OpenFile :: "string \<Rightarrow> ('w, gofile) op"
  XattrList :: "string \<Rightarrow> ('w, string list) op"
  XattrGet :: "string \<Rightarrow> string \<Rightarrow> ('w, bytes) op"
  XattrSet :: "string \<Rightarrow> string \<Rightarrow> bytes \<Rightarrow> ('w, unit) op"
  Mkdir :: "string \<Rightarrow> 32 word \<Rightarrow> ('w, unit) op"
  MkdirAll :: "string \<Rightarrow> 32 word \<Rightarrow> ('w, unit) op"
  Chmod :: "string \<Rightarrow> 32 word \<Rightarrow> ('w, unit) op"
  Chown :: "string \<Rightarrow> int \<Rightarrow> int \<Rightarrow> ('w, unit) op"
  Symlink :: "string \<Rightarrow> string \<Rightarrow> ('w, unit) op"
  CreateFile :: "string \<Rightarrow> ('w, unit) op"
  WriteFile :: "string \<Rightarrow> bytes \<Rightarrow> ('w, unit) op"
  RemoveFile :: "string \<Rightarrow> ('w, unit) op"

text \<open>
  The state of a running program: the world and the package-level variables, here the
  bandwidth counters of \<^verbatim>\<open>pkg/objstore\<close>. Components that need more extend the record.
\<close>

record 'w gst =
  world :: 'w
  uploadBytes :: int
  downloadBytes :: int

definition sysM :: "('w, 'a) op \<Rightarrow> (('w, 'z) gst_scheme, goerr + 'a) prog" where
  "sysM f = (\<lambda>s. case f (world s) of (r, w) \<Rightarrow> (Ret r, s\<lparr>world := w\<rparr>))"

definition nowM :: "'w sys \<Rightarrow> (('w, 'z) gst_scheme, int) prog" where
  "nowM S = (\<lambda>s. case TimeNow S (world s) of (t, w) \<Rightarrow> (Ret t, s\<lparr>world := w\<rparr>))"

definition sleepM :: "'w sys \<Rightarrow> nat \<Rightarrow> (('w, 'z) gst_scheme, unit) prog" where
  "sleepM S n = (\<lambda>s. (Ret (), s\<lparr>world := Sleep S n (world s)\<rparr>))"

definition modifyM :: "('s \<Rightarrow> 's) \<Rightarrow> ('s, unit) prog" where
  "modifyM f = (\<lambda>s. (Ret (), f s))"

definition getM :: "('s \<Rightarrow> 'a) \<Rightarrow> ('s, 'a) prog" where
  "getM f = (\<lambda>s. (Ret (f s), s))"

lemma sysM_run [go_run]:
  "f (world s) = (r, w) \<Longrightarrow> sysM f s = (Ret r, s\<lparr>world := w\<rparr>)"
  by (simp add: sysM_def)

lemma sleepM_run [go_run, simp]: "sleepM S n s = (Ret (), s\<lparr>world := Sleep S n (world s)\<rparr>)"
  by (simp add: sleepM_def)

lemma modifyM_run [go_run, simp]: "modifyM f s = (Ret (), f s)"
  by (simp add: modifyM_def)

lemma getM_run [go_run, simp]: "getM f s = (Ret (f s), s)"
  by (simp add: getM_def)

lemma bindM_modifyM [simp]: "bindM (modifyM f) g s = g () (f s)"
  by (simp add: bindM_def)

lemma bindM_getM [simp]: "bindM (getM f) g s = g (f s) s"
  by (simp add: bindM_def)

lemma preserves_getM [go_preserves, intro!]: "preserves P (getM f)"
  by (simp add: preserves_def)

text \<open>When the invariant fixes what is read, the rest may use it; likewise for a pure result.\<close>

lemma preserves_bind_getM:
  "(\<And>s. P s \<Longrightarrow> f s = d) \<Longrightarrow> preserves P (k d) \<Longrightarrow> preserves P (bindM (getM f) k)"
  by (auto simp: preserves_def)

lemma preserves_bind_getM_dep:
  "(\<And>s. P s \<Longrightarrow> preserves P (k (f s))) \<Longrightarrow> preserves P (bindM (getM f) k)"
  by (auto simp: preserves_def)

lemma preserves_try_liftGo:
  "(\<And>e. preserves P (h e)) \<Longrightarrow> (\<And>a. g = Ret (Inr a) \<Longrightarrow> preserves P (k a)) \<Longrightarrow>
     preserves P (tryM (liftGo g) h k)"
  by (auto simp: preserves_def tryM_def bindM_def split: go.splits sum.splits)

lemma preserves_modifyM [go_preserves]: "(\<And>s. P s \<Longrightarrow> P (f s)) \<Longrightarrow> preserves P (modifyM f)"
  by (simp add: preserves_def)

lemma preserves_sysM [go_preserves]:
  "(\<And>s r w. P s \<Longrightarrow> f (world s) = (r, w) \<Longrightarrow> P (s\<lparr>world := w\<rparr>)) \<Longrightarrow> preserves P (sysM f)"
  by (simp add: preserves_def sysM_def split: prod.splits)

lemma preserves_nowM [go_preserves]:
  "(\<And>s r w. P s \<Longrightarrow> TimeNow S (world s) = (r, w) \<Longrightarrow> P (s\<lparr>world := w\<rparr>)) \<Longrightarrow> preserves P (nowM S)"
  by (simp add: preserves_def nowM_def split: prod.splits)

lemma preserves_sleepM [go_preserves]:
  "(\<And>s. P s \<Longrightarrow> P (s\<lparr>world := Sleep S n (world s)\<rparr>)) \<Longrightarrow> preserves P (sleepM S n)"
  by (simp add: preserves_def)

text \<open>A view of the world that an operation leaves alone.\<close>

lemma frame_sysM [go_preserves]:
  "(\<And>w. h (snd (f w)) = h w) \<Longrightarrow> preserves (\<lambda>s. h (world s) = z) (sysM f)"
  by (auto simp: preserves_def sysM_def split: prod.splits) (metis snd_conv)

lemma frame_nowM [go_preserves]:
  "(\<And>w. h (snd (TimeNow S w)) = h w) \<Longrightarrow> preserves (\<lambda>s. h (world s) = z) (nowM S)"
  by (auto simp: preserves_def nowM_def split: prod.splits) (metis snd_conv)

subsection \<open>Walking a directory tree\<close>

text \<open>
  \<^verbatim>\<open>filepath.WalkDir\<close>: the callback sees an entry before its children; on a directory that could
  not be read it is called a second time; \<^verbatim>\<open>fs.SkipDir\<close> skips a directory, or the rest of the
  directory an entry is in. If the root cannot be examined the callback gets no entry.
\<close>

datatype walkres = WNil | WSkipDir | WErr goerr

type_synonym 's walkfn = "string \<Rightarrow> dtree option \<Rightarrow> goerr option \<Rightarrow> ('s, walkres) prog"

fun walkDir :: "(string \<Rightarrow> string \<Rightarrow> string) \<Rightarrow> 's walkfn \<Rightarrow> string \<Rightarrow> dtree \<Rightarrow> ('s, walkres) prog"
  and walk_list :: "(string \<Rightarrow> string \<Rightarrow> string) \<Rightarrow> 's walkfn \<Rightarrow> string \<Rightarrow> dtree list \<Rightarrow> ('s, walkres) prog" where
  "walkDir join fn path (DNode nm isdir info readerr children) =
     (let d = DNode nm isdir info readerr children in
      bindM (fn path (Some d) None) (\<lambda>r.
        if r \<noteq> WNil \<or> \<not> isdir then retM (if r = WSkipDir \<and> isdir then WNil else r)
        else bindM (case readerr of None \<Rightarrow> retM WNil | Some e \<Rightarrow> fn path (Some d) (Some e)) (\<lambda>r.
          if r \<noteq> WNil then retM (if r = WSkipDir then WNil else r)
          else walk_list join fn path children)))"
| "walk_list join fn path [] = retM WNil"
| "walk_list join fn path (d1 # ds) =
     bindM (walkDir join fn (join path (dt_name d1)) d1) (\<lambda>r.
       if r = WSkipDir then retM WNil
       else if r \<noteq> WNil then retM r
       else walk_list join fn path ds)"

definition WalkDir :: "'w sys \<Rightarrow> (string \<Rightarrow> string \<Rightarrow> string) \<Rightarrow> string \<Rightarrow> ('w, 'z) gst_scheme walkfn
    \<Rightarrow> (('w, 'z) gst_scheme, walkres) prog" where
  "WalkDir S join root fn =
     bindM (sysM (WalkTree S root)) (\<lambda>r.
     bindM (case r of Inl e \<Rightarrow> fn root None (Some e) | Inr t \<Rightarrow> walkDir join fn root t) (\<lambda>r.
     retM (if r = WSkipDir then WNil else r)))"

subsection \<open>The object store contract\<close>

text \<open>
  What the program relies on of the object store, in terms of the objects it holds
  (\<open>objs w bucket name\<close>): a successful write is visible, a failed one touches at most its own
  object, reading and listing change nothing, a listing is complete and contains only keys
  with the prefix. A non-recursive listing groups at the next \<^verbatim>\<open>/\<close>: it shows the objects
  that have no further \<^verbatim>\<open>/\<close> after the prefix, and for each other object the key up to
  that \<^verbatim>\<open>/\<close>. Operations of the operating system do not touch the objects.
\<close>

fun upto_slash :: "string \<Rightarrow> string" where
  "upto_slash [] = []"
| "upto_slash (c # s) = (if c = CHR ''/'' then [c] else c # upto_slash s)"

definition list_key :: "string \<Rightarrow> bool \<Rightarrow> string \<Rightarrow> string" where
  "list_key p recursive name =
     (if recursive then name else p @ upto_slash (drop (length p) name))"

locale object_store =
  fixes S :: "'w sys" and objs :: "'w \<Rightarrow> string \<Rightarrow> string \<Rightarrow> bytes option"
  assumes put_ok: "PutObject S b n x w = (Inr t, w') \<Longrightarrow>
      objs w' = (objs w)(b := (objs w b)(n \<mapsto> x))"
    and put_err: "PutObject S b n x w = (Inl e, w') \<Longrightarrow> (b', n') \<noteq> (b, n) \<Longrightarrow>
      objs w' b' n' = objs w b' n'"
    and get_frame: "objs (snd (GetObject S b n w)) = objs w"
    and get_ok: "GetObject S b n w = (Inr x, w') \<Longrightarrow> objs w b n = Some x"
    and list_frame: "objs (snd (ListObjects S b p r w)) = objs w"
    and list_ok: "ListObjects S b p r w = (Inr l, w') \<Longrightarrow>
      fst ` set l = list_key p r ` {n. objs w b n \<noteq> None \<and> HasPrefix n p}"
    and remove_ok: "RemoveObject S b n w = (Inr u, w') \<Longrightarrow>
      objs w' = (objs w)(b := (objs w b)(n := None))"
    and remove_err: "RemoveObject S b n w = (Inl e, w') \<Longrightarrow> (b', n') \<noteq> (b, n) \<Longrightarrow>
      objs w' b' n' = objs w b' n'"
    and time_frame: "objs (snd (TimeNow S w)) = objs w"
    and rand_frame: "objs (snd (RandRead S k w)) = objs w"
    and rand_int_frame: "objs (snd (RandInt S k w)) = objs w"
    and sleep_frame: "objs (Sleep S k w) = objs w"
begin

lemma put_frame:
  "PutObject S b n x w = (r, w') \<Longrightarrow> (b', n') \<noteq> (b, n) \<Longrightarrow> objs w' b' n' = objs w b' n'"
  by (cases r) (auto dest: put_ok put_err)

lemma remove_frame:
  "RemoveObject S b n w = (r, w') \<Longrightarrow> (b', n') \<noteq> (b, n) \<Longrightarrow> objs w' b' n' = objs w b' n'"
  by (cases r) (auto dest: remove_ok remove_err)

end

text \<open>
  And of the random source and of opening a file: a successful \<^verbatim>\<open>io.ReadFull(rand.Reader, buf)\<close> fills the buffer, and
  \<^verbatim>\<open>rand.Int(rand.Reader, max)\<close> is below \<^verbatim>\<open>max\<close>; \<^verbatim>\<open>os.Open\<close> touches no object.
\<close>

locale backup_env = object_store +
  assumes rand_len: "RandRead S k w = (Inr x, w') \<Longrightarrow> length x = k"
    and rand_int_lt: "RandInt S k w = (Inr n, w') \<Longrightarrow> n < k"
    and open_frame: "objs (snd (OpenFile S p w)) = objs w"

text \<open>
  What a restore relies on of the file system, in terms of the contents of the files
  (\<open>fcontent w path\<close>): a successful write appends to the file that was created, and an operation on
  one path, whether it succeeds or fails, changes neither the other files nor the object store.
\<close>

locale restore_env = backup_env S objs
  for S :: "'w sys" and objs :: "'w \<Rightarrow> string \<Rightarrow> string \<Rightarrow> bytes option" +
  fixes fcontent :: "'w \<Rightarrow> string \<Rightarrow> bytes option"
  assumes create_ok: "CreateFile S p w = (Inr u, w') \<Longrightarrow> fcontent w' p = Some []"
    and write_ok: "WriteFile S p d w = (Inr u, w') \<Longrightarrow> fcontent w p = Some c \<Longrightarrow> fcontent w' p = Some (c @ d)"
    and file_objs: "objs (snd (CreateFile S p w)) = objs w" "objs (snd (WriteFile S p d w)) = objs w"
      "objs (snd (Chown S p ui gi w)) = objs w" "objs (snd (Chmod S p m w)) = objs w"
      "objs (snd (RemoveFile S p w)) = objs w" "objs (snd (MkdirAll S p m w)) = objs w"
      "objs (snd (Stat S p w)) = objs w" "objs (snd (XattrSet S p k d w)) = objs w"
    and file_other: "q \<noteq> p \<Longrightarrow> fcontent (snd (CreateFile S p w)) q = fcontent w q"
      "q \<noteq> p \<Longrightarrow> fcontent (snd (WriteFile S p d w)) q = fcontent w q"
      "q \<noteq> p \<Longrightarrow> fcontent (snd (RemoveFile S p w)) q = fcontent w q"
    and file_same: "fcontent (snd (Chown S p ui gi w)) q = fcontent w q"
      "fcontent (snd (Chmod S p m w)) q = fcontent w q"
      "fcontent (snd (GetObject S b n w)) q = fcontent w q" "fcontent (snd (TimeNow S w)) q = fcontent w q"
      "fcontent (snd (XattrSet S p k d w)) q = fcontent w q"

end
