(* ===== verification/Util.thy ===== *)
theory Util
  imports Filepath Environment
begin

section \<open>Common helpers (pkg/util)\<close>

text \<open>
  The pure helpers of \<^verbatim>\<open>pkg/util/util.go\<close>: slash stripping, snapshot names, number and size
  formatting, the configuration template, and directory creation with ownership.
\<close>

subsection \<open>Decimal and hexadecimal digits\<close>

fun show_nat :: "nat \<Rightarrow> string" where
  "show_nat n = (if n < 10 then [char_of (48 + n)] else show_nat (n div 10) @ [char_of (48 + n mod 10)])"

declare show_nat.simps [simp del]

definition show_int :: "int \<Rightarrow> string" where
  "show_int i = (if i < 0 then ''-'' @ show_nat (nat (- i)) else show_nat (nat i))"

definition hex_digit :: "nat \<Rightarrow> char" where
  "hex_digit n = (if n < 10 then char_of (48 + n) else char_of (87 + n))"

text \<open>\<^verbatim>\<open>fmt.Sprintf("%x", b)\<close>\<close>

definition hex_bytes :: "bytes \<Rightarrow> string" where
  "hex_bytes b = concat (map (\<lambda>x. [hex_digit (unat x div 16), hex_digit (unat x mod 16)]) b)"

subsection \<open>Strings and slices\<close>

function strip_trailing :: "string \<Rightarrow> string" where
  "strip_trailing s = (let stripped = TrimSuffix s ''/'' in
     if stripped = s then stripped else strip_trailing stripped)"
  by pat_completeness auto
termination
  by (relation "measure length") (auto simp: TrimSuffix_def HasSuffix_def split: if_splits)

declare strip_trailing.simps [simp del]

definition StripTrailingSlashes :: "string \<Rightarrow> string" where
  "StripTrailingSlashes s = (if s = ''/'' then s else strip_trailing s)"

function StripLeadingSlashes :: "string \<Rightarrow> string" where
  "StripLeadingSlashes s =
     (if HasPrefix s ''/'' then StripLeadingSlashes (TrimPrefix s ''/'') else s)"
  by pat_completeness auto
termination
  by (relation "measure length") (auto simp: HasPrefix_iff TrimPrefix_def)

declare StripLeadingSlashes.simps [simp del]

definition SplitSnapshotName :: "string \<Rightarrow> goerr + (string \<times> string)" where
  "SplitSnapshotName snapshotName =
     (let parts = SplitChar (CHR ''/'') snapshotName in
      if length parts = 2 then Inr (parts ! 0, parts ! 1)
      else if HasPrefix snapshotName ''//'' then Inr (''/'', TrimPrefix snapshotName ''//'')
      else Inl (GoErr (''malformed snapshot name '' @ [CHR 0x27] @ snapshotName @ [CHR 0x27])))"

fun IntSliceContains :: "int list \<Rightarrow> int \<Rightarrow> bool" where
  "IntSliceContains [] i = False"
| "IntSliceContains (v # sl) i = (if i = v then True else IntSliceContains sl i)"

fun str_present :: "string list \<Rightarrow> string \<Rightarrow> bool" where
  "str_present [] x = False"
| "str_present (s # sl) x = (if x = s then True else str_present sl x)"

definition AppendIfNotPresent :: "string list \<Rightarrow> string \<Rightarrow> string list" where
  "AppendIfNotPresent sl x = (if str_present sl x then sl else sl @ [x])"

text \<open>The elements of a TOML array: quoted and separated by a comma.\<close>

fun sliceToCommaSeparatedString :: "string list \<Rightarrow> string" where
  "sliceToCommaSeparatedString [] = []"
| "sliceToCommaSeparatedString [x] = [CHR 0x22] @ x @ [CHR 0x22]"
| "sliceToCommaSeparatedString (x # y # xs) =
     [CHR 0x22] @ x @ [CHR 0x22] @ '', '' @ sliceToCommaSeparatedString (y # xs)"

subsection \<open>The configuration file template\<close>

record CfgSettings =
  Endpoint :: string
  AccessKeyId :: string
  SecretAccessKey :: string
  Bucket :: string
  TrustSelfSignedCerts :: bool
  MasterPassword :: string
  Salt :: string
  Dirs :: "string list"
  ExcludePaths :: "string list"
  VerboseDaemon :: bool
  CachesPath :: string
  MaxChunkCacheMb :: int
  ResourceUtilization :: string

abbreviation nl :: string where
  "nl \<equiv> [CHR 0x0A]"

text \<open>The literal parts of the template, in the order of the source.\<close>

definition tpl_objectstore :: string where
  \<open>tpl_objectstore =
     ''[objectstore]'' @ nl @
     ''# Customize this section with the real host:port of your S3-compatible object '' @ nl @
     ''# store, your credentials for the object store, and a bucket you have ALREADY '' @ nl @
     ''# created for storing backups.'' @ nl @ ''#'' @ nl @
     ''# You can leave access_secret blank; you then will need to supply it on each'' @ nl @
     ''# run of the program.'' @ nl @ ''endpoint = "''\<close>

definition tpl_access_key :: string where
  \<open>tpl_access_key =
     ''"'' @ nl @ ''access_key_id = "''\<close>

definition tpl_access_secret :: string where
  \<open>tpl_access_secret =
     ''"'' @ nl @ ''access_secret = "''\<close>

definition tpl_bucket :: string where
  \<open>tpl_bucket =
     ''"'' @ nl @ ''bucket = "''\<close>

definition tpl_certs :: string where
  \<open>tpl_certs =
     ''"'' @ nl @ ''trust_self_signed_certs = ''\<close>

definition tpl_backups :: string where
  \<open>tpl_backups =
     nl @ nl @ ''[backups]'' @ nl @
     ''# You can specify as many directories to back up as you want. All paths '' @ nl @
     ''# should be absolute paths. '' @ nl @ ''# Example (Linux): /home/<yourname>/Documents'' @
     nl @ ''# Example (macOS): /Users/<yourname>/Documents'' @ nl @ ''dirs = [ ''\<close>

definition tpl_excludes :: string where
  \<open>tpl_excludes =
     '' ]'' @ nl @ nl @
     ''# Specify as many exclusion paths as you want. Excludes can be entire '' @ nl @
     ''# directories or single files. All paths should be absolute paths. '' @ nl @
     ''# Example (Linux): /home/<yourname>/Documents/MyJournal'' @ nl @
     ''# Example (macOS): /Users/<yourname>/Documents/MyJournal'' @ nl @ ''excludes = [ ''\<close>

definition tpl_password :: string where
  \<open>tpl_password =
     '' ]'' @ nl @ nl @
     ''# The 10-word Diceware passphrase below has been randomly generated for you. '' @ nl @
     ''# It has ~128 bits of entropy and thus is very resistant to brute force '' @ nl @
     ''# cracking through at least the middle of this century.'' @ nl @ ''#'' @ nl @
     ''# Note that your passphrase resides in this file but never leaves this machine.'' @ nl @
     ''#'' @ nl @
     ''# You can leave this field blank; you will need to supply your passphrase on'' @ nl @
     ''# each run of the program.'' @ nl @ ''master_password = "''\<close>

definition tpl_daemon :: string where
  \<open>tpl_daemon =
     ''"'' @ nl @ nl @ ''[daemon]'' @ nl @ ''# This section affects only the daemon.'' @ nl @
     ''verbose = ''\<close>

definition tpl_system :: string where
  \<open>tpl_system =
     nl @ nl @ ''[system]'' @ nl @
     ''# These parameters control use of system resources and performance tradeoffs.'' @ nl @
     ''caches_path = "''\<close>

definition tpl_cache_mb :: string where
  \<open>tpl_cache_mb =
     ''"'' @ nl @ ''max_chunk_cache_mb = ''\<close>

definition tpl_utilization :: string where
  \<open>tpl_utilization =
     nl @ ''system_resource_utilization = "''\<close>

definition tpl_end :: string where
  \<open>tpl_end =
     ''"'' @ nl\<close>

fun ToLower :: "string \<Rightarrow> string" where
  "ToLower [] = []"
| "ToLower (c # s) =
     (if CHR ''A'' \<le> c \<and> c \<le> CHR ''Z'' then char_of (of_char c + 32 :: nat) else c) # ToLower s"

definition show_bool :: "bool \<Rightarrow> string" where
  "show_bool b = (if b then ''true'' else ''false'')"

definition or_default :: "CfgSettings option \<Rightarrow> (CfgSettings \<Rightarrow> string) \<Rightarrow> string \<Rightarrow> string" where
  "or_default cfg f d = (case cfg of None \<Rightarrow> d | Some c \<Rightarrow> if f c \<noteq> [] then f c else d)"

definition GenerateRandomPassphrase :: "'w sys \<Rightarrow> nat \<Rightarrow> (('w, 'z) gst_scheme, string) prog" where
  "GenerateRandomPassphrase S numDicewareWords =
     tryM (sysM (DicewareGenerate S numDicewareWords))
       (\<lambda>e. liftGo Fatal) (\<lambda>l. retM (JoinStr ''-'' l))"

definition template_text :: "CfgSettings option \<Rightarrow> string \<Rightarrow> string" where
  \<open>template_text cfg password =
     tpl_objectstore @ or_default cfg Endpoint ''127.0.0.1:9000''
     @ tpl_access_key @ or_default cfg AccessKeyId ''<your object store user id>''
     @ tpl_access_secret @ or_default cfg SecretAccessKey ''<your object store password>''
     @ tpl_bucket
     @ or_default cfg Bucket ''<name of an empty bucket you have created on object store>''
     @ tpl_certs
     @ (case cfg of None \<Rightarrow> ''true'' | Some c \<Rightarrow> show_bool (TrustSelfSignedCerts c))
     @ tpl_backups
     @ (case cfg of
          None \<Rightarrow> ''"<absolute path to directory>", "<optional additional directory>"''
        | Some c \<Rightarrow> sliceToCommaSeparatedString (Dirs c))
     @ tpl_excludes
     @ (case cfg of
          None \<Rightarrow> ''"<absolute path to exclude>", "<optional additional exclude path>"''
        | Some c \<Rightarrow> sliceToCommaSeparatedString (ExcludePaths c))
     @ tpl_password @ password
     @ tpl_daemon
     @ (case cfg of None \<Rightarrow> ''true'' | Some c \<Rightarrow> show_bool (VerboseDaemon c))
     @ tpl_system @ or_default cfg CachesPath ''/tmp/tless-cache''
     @ tpl_cache_mb
     @ (case cfg of None \<Rightarrow> ''2048''
        | Some c \<Rightarrow> if MaxChunkCacheMb c \<noteq> 0 then show_int (MaxChunkCacheMb c) else ''2048'')
     @ tpl_utilization
     @ (case cfg of None \<Rightarrow> ''high''
        | Some c \<Rightarrow>
            if ResourceUtilization c \<noteq> [] then
              (if ToLower (ResourceUtilization c) = ''low'' then ''low'' else ''high'')
            else ''high'')
     @ tpl_end\<close>

definition GenerateConfigTemplate ::
    "'w sys \<Rightarrow> CfgSettings option \<Rightarrow> (('w, 'z) gst_scheme, string) prog" where
  "GenerateConfigTemplate S cfg =
     (case cfg of
        Some c \<Rightarrow> if MasterPassword c \<noteq> [] then retM (template_text cfg (MasterPassword c))
          else bindM (GenerateRandomPassphrase S 10) (\<lambda>pw. retM (template_text cfg pw))
      | None \<Rightarrow> bindM (GenerateRandomPassphrase S 10) (\<lambda>pw. retM (template_text cfg pw)))"

subsection \<open>Salt, users, formatting\<close>

definition SaltLen :: nat where "SaltLen = 32"

definition salt_letters :: string where
  "salt_letters = ''abcdefghijklmnopqrstuvwxyzABCDEFGHIJKLMNOPQRSTUVWXYZ0123456789''"

text \<open>
  The loop draws \<open>n\<close> more letters. \<^verbatim>\<open>letters[n.Int64()]\<close> panics out of range, which the
  documented range of \<^verbatim>\<open>rand.Int\<close> excludes.
\<close>

primrec random_letters :: "'w sys \<Rightarrow> nat \<Rightarrow> string \<Rightarrow> (('w, 'z) gst_scheme, string) prog" where
  "random_letters S 0 salt = retM salt"
| "random_letters S (Suc k) salt =
     tryM (sysM (RandInt S (length salt_letters))) (\<lambda>e. liftGo Fatal)
       (\<lambda>n. if n < length salt_letters then random_letters S k (salt @ [salt_letters ! n])
            else liftGo Panic)"

definition GenerateRandomSalt :: "'w sys \<Rightarrow> (('w, 'z) gst_scheme, string) prog" where
  "GenerateRandomSalt S = random_letters S SaltLen []"

text \<open>\<^verbatim>\<open>strconv.Atoi\<close>: an optional sign and at least one decimal digit, in the range of \<^verbatim>\<open>int\<close>.\<close>

definition is_digit :: "char \<Rightarrow> bool" where
  "is_digit c \<longleftrightarrow> CHR ''0'' \<le> c \<and> c \<le> CHR ''9''"

definition digits_val :: "string \<Rightarrow> nat" where
  "digits_val s = foldl (\<lambda>a c. 10 * a + (of_char c - 48)) 0 s"

definition Atoi :: "string \<Rightarrow> goerr + int" where
  "Atoi s =
     (let neg = HasPrefix s ''-''; ds = (if neg \<or> HasPrefix s ''+'' then tl s else s);
          v = (if neg then - int (digits_val ds) else int (digits_val ds))
      in if ds = [] \<or> \<not> list_all is_digit ds then Inl (GoErr ''invalid syntax'')
         else if v < - (2 ^ 63) \<or> v \<ge> 2 ^ 63 then Inl (GoErr ''value out of range'')
         else Inr v)"

definition GetUidGid :: "'w sys \<Rightarrow> string \<Rightarrow> (('w, 'z) gst_scheme, goerr + (int \<times> int)) prog" where
  "GetUidGid S username =
     tryM (sysM (UserLookup S username))
       (\<lambda>e. retM (Inl (GoErr (''error: could not lookup user'' @ error_text e))))
       (\<lambda>(u, g). retM (case Atoi u of
            Inl e \<Rightarrow> Inl (GoErr (''error: could not convert uid string'' @ error_text e))
          | Inr uid \<Rightarrow> (case Atoi g of
                Inl e \<Rightarrow> Inl (GoErr (''error: could not convert gid string'' @ error_text e))
              | Inr gid \<Rightarrow> Inr (uid, gid))))"

definition mode_0755 :: "32 word" where "mode_0755 = 493"

definition mkdir_user_config ::
    "'w sys \<Rightarrow> string \<Rightarrow> string \<Rightarrow> (('w, 'z) gst_scheme, goerr + string) prog" where
  "mkdir_user_config S username userHomeDir =
     tryM (GetUidGid S username) (\<lambda>e. retM (Inl e)) (\<lambda>(uid, gid).
       let configDir = Join [userHomeDir, ''.tless''] in
       bindM (sysM (Mkdir S configDir mode_0755)) (\<lambda>r.
         if (case r of Inl e \<Rightarrow> e \<noteq> ErrExist | Inr _ \<Rightarrow> False)
         then retM (Inl (GoErr ''error: mkdir failed''))
         else tryM (sysM (Chmod S configDir mode_0755))
           (\<lambda>e. retM (Inl (GoErr ''error: chmod on created config dir failed'')))
           (\<lambda>_. tryM (sysM (Chown S configDir uid gid))
             (\<lambda>e. retM (Inl (GoErr ''error: could not chown dir'')))
             (\<lambda>_. retM (Inr configDir)))))"

definition MkdirUserConfig ::
    "'w sys \<Rightarrow> string \<Rightarrow> string \<Rightarrow> (('w, 'z) gst_scheme, goerr + string) prog" where
  "MkdirUserConfig S username userHomeDir =
     (if username = [] \<or> userHomeDir = [] then
        tryM (sysM (UserCurrent S))
          (\<lambda>e. retM (Inl (GoErr ''error: could not lookup current user'')))
          (\<lambda>(u, h). mkdir_user_config S u h)
      else mkdir_user_config S username userHomeDir)"

text \<open>
  \<^verbatim>\<open>fmt.Sprintf("%.01f", float64(n)/float64(d))\<close> for \<open>d\<close> a power of two and \<open>0 \<le> n < 2^53\<close>: the
  quotient is exact in a \<^verbatim>\<open>float64\<close>, and printing rounds to one decimal, ties to even.
\<close>

definition format_1f :: "int \<Rightarrow> int \<Rightarrow> string" where
  "format_1f n d =
     (let q = 10 * n div d; r = 10 * n mod d;
          t = (if 2 * r > d \<or> (2 * r = d \<and> odd q) then q + 1 else q)
      in show_int (t div 10) @ ''.'' @ show_int (t mod 10))"

definition FormatBytesAsString :: "int \<Rightarrow> string" where
  "FormatBytesAsString bcount =
     (if bcount < 1024 then show_int bcount @ '' bytes''
      else if bcount < 1024 * 1024 then format_1f bcount 1024 @ '' kb''
      else if bcount < 1024 * 1024 * 1024 then format_1f bcount (1024 * 1024) @ '' mb''
      else if bcount < 1024 * 1024 * 1024 * 1024
      then format_1f bcount (1024 * 1024 * 1024) @ '' gb''
      else show_int bcount @ '' bytes'')"

text \<open>
  \<^verbatim>\<open>FormatFloatAsString\<close> prints through \<^verbatim>\<open>golang.org/x/text\<close> and is the parameter \<open>formatFloat\<close>, given the
  format and the numbers whose quotient is printed. The rate is \<^verbatim>\<open>float64(bcount) / 1024 / 1024 /
  float64(sec)\<close>; dividing by zero seconds gives an infinity or, for no bytes, a NaN, which is below no number.
\<close>

definition FormatDataRateAsString :: "(string \<Rightarrow> int \<Rightarrow> int \<Rightarrow> string) \<Rightarrow> int \<Rightarrow> int \<Rightarrow> string" where
  "FormatDataRateAsString formatFloat bcount sec =
     (let d = 1024 * 1024 * sec;
          below = (\<lambda>k. if d = 0 then bcount < 0 else if 0 < d then bcount < k * d else bcount > k * d);
          rate = (if below 1 then formatFloat ''%0.2f'' bcount d
            else if below 10 then formatFloat ''%0.1f'' bcount d
            else formatFloat ''%0.0f'' bcount d)
      in rate @ '' mb/sec'')"

definition FormatSecondsAsString :: "int \<Rightarrow> string" where
  "FormatSecondsAsString sec =
     (if sec < 60 then show_int sec @ '' sec''
      else if sec < 60 * 60 then show_int (sec div 60) @ '' min''
      else if sec < 24 * 60 * 60 then
        show_int (sec div (60 * 60)) @ '' hours '' @ show_int ((sec mod (60 * 60)) div 60) @ '' min''
      else if sec < 90 * 24 * 60 * 60 then
        show_int (sec div (24 * 60 * 60)) @ '' days ''
          @ show_int ((sec mod (24 * 60 * 60)) div (60 * 60)) @ '' hours''
      else show_int sec @ '' sec'')"

subsection \<open>Making directories\<close>

definition pathComponents :: "string \<Rightarrow> string list" where
  "pathComponents path0 =
     (let path = Clean path0 in
      if path = ''.'' then []
      else if path = ''/'' then [''/'']
      else if HasPrefix path ''/'' then ''/'' # SplitChar (CHR ''/'') (drop 1 path)
      else SplitChar (CHR ''/'') path)"

definition mkdirIfNotExist ::
    "'w sys \<Rightarrow> string \<Rightarrow> 32 word \<Rightarrow> (('w, 'z) gst_scheme, goerr + bool) prog" where
  "mkdirIfNotExist S dir perm =
     tryM (sysM (Stat S dir))
       (\<lambda>e. if e = ErrNotExist
            then tryM (sysM (Mkdir S dir perm)) (\<lambda>e. retM (Inl e)) (\<lambda>_. retM (Inr True))
            else retM (Inl e))
       (\<lambda>fi. if \<not> fi_isdir fi
             then retM (Inl (GoErr ''error: MkdirWithUidGidMode: already exists but is not a dir''))
             else retM (Inr False))"

definition MkdirWithUidGidMode ::
    "'w sys \<Rightarrow> string \<Rightarrow> 32 word \<Rightarrow> int \<Rightarrow> int \<Rightarrow> (('w, 'z) gst_scheme, goerr + unit) prog" where
  "MkdirWithUidGidMode S dir perm uid gid =
     tryM (mkdirIfNotExist S dir perm) (\<lambda>e. retM (Inl e))
       (\<lambda>didCreate. if \<not> didCreate then retM (Inr ())
          else tryM (sysM (Chmod S dir perm)) (\<lambda>e. retM (Inl e))
            (\<lambda>_. sysM (Chown S dir uid gid)))"

primrec mkdir_components ::
    "'w sys \<Rightarrow> 32 word \<Rightarrow> int \<Rightarrow> int \<Rightarrow> string list \<Rightarrow> string \<Rightarrow>
       (('w, 'z) gst_scheme, goerr + unit) prog" where
  "mkdir_components S perm uid gid [] dir = retM (Inr ())"
| "mkdir_components S perm uid gid (c # cs) dir =
     (let dir' = Join [dir, c] in
      tryM (MkdirWithUidGidMode S dir' perm uid gid) (\<lambda>e. retM (Inl e))
        (\<lambda>_. mkdir_components S perm uid gid cs dir'))"

text \<open>\<^verbatim>\<open>components[0]\<close> of the empty slice panics: the path \<^verbatim>\<open>.\<close> has no components.\<close>

definition MkdirAllWithUidGidMode ::
    "'w sys \<Rightarrow> string \<Rightarrow> 32 word \<Rightarrow> int \<Rightarrow> int \<Rightarrow> (('w, 'z) gst_scheme, goerr + unit) prog" where
  "MkdirAllWithUidGidMode S path perm uid gid =
     (case pathComponents path of
        [] \<Rightarrow> liftGo Panic
      | c # cs \<Rightarrow>
          if c \<noteq> ''/'' then retM (Inl (GoErr ''error: MkdirAllWithUidGidMode: path is not absolute''))
          else mkdir_components S perm uid gid (c # cs) [])"

subsection \<open>Lemmas\<close>

lemma IntSliceContains_iff [simp]: "IntSliceContains sl i \<longleftrightarrow> i \<in> set sl"
  by (induction sl) auto

lemma str_present_iff [simp]: "str_present sl x \<longleftrightarrow> x \<in> set sl"
  by (induction sl) auto

lemma set_AppendIfNotPresent [simp]: "set (AppendIfNotPresent sl x) = insert x (set sl)"
  by (auto simp: AppendIfNotPresent_def)

lemma distinct_AppendIfNotPresent: "distinct sl \<Longrightarrow> distinct (AppendIfNotPresent sl x)"
  by (simp add: AppendIfNotPresent_def)

lemma TrimSuffix_slash: "TrimSuffix s ''/'' = (if s \<noteq> [] \<and> last s = CHR ''/'' then butlast s else s)"
  by (cases s rule: rev_cases) (auto simp: TrimSuffix_def HasSuffix_def)

lemma strip_trailing_eq: "strip_trailing s = rev (dropWhile (\<lambda>c. c = CHR ''/'') (rev s))"
proof (induction s rule: strip_trailing.induct)
  case (1 s)
  show ?case
  proof (cases s rule: rev_cases)
    case Nil
    then show ?thesis by (subst strip_trailing.simps) (simp add: TrimSuffix_slash)
  next
    case (snoc t c)
    then show ?thesis using 1
      by (subst strip_trailing.simps) (auto simp: TrimSuffix_slash Let_def)
  qed
qed

lemma StripLeadingSlashes_eq: "StripLeadingSlashes s = dropWhile (\<lambda>c. c = CHR ''/'') s"
proof (induction s rule: StripLeadingSlashes.induct)
  case (1 s)
  show ?case
  proof (cases s)
    case Nil
    then show ?thesis by (subst StripLeadingSlashes.simps) (simp add: HasPrefix_def)
  next
    case (Cons c t)
    show ?thesis
    proof (cases "c = CHR ''/''")
      case True
      then have "HasPrefix s ''/''" "TrimPrefix s ''/'' = t"
        by (simp_all add: Cons HasPrefix_def TrimPrefix_def)
      with 1 True Cons show ?thesis by (subst StripLeadingSlashes.simps) simp
    next
      case False
      then show ?thesis using Cons by (subst StripLeadingSlashes.simps) (simp add: HasPrefix_def)
    qed
  qed
qed

subsection \<open>Reported events (reported\_events.go), log masking\<close>

datatype ReportedEventKind = ERR_OP_NOT_PERMITTED | INFO_BACKUP_COMPLETED | ERR_INCOMPATIBLE_BUCKET_VERSION
  | INFO_BACKUP_COMPLETED_WITH_ERRORS | INFO_BACKUP_CANCELED | INFO_AUTOPRUNE_COMPLETED

record ReportedEvent =
  ev_Kind :: ReportedEventKind
  ev_Path :: string
  ev_IsDir :: bool
  ev_Datetime :: int
  ev_Msg :: string

end
