(* ===== verification/Cryptography.thy ===== *)
theory Cryptography
  imports Util
begin

section \<open>Encryption of names and buffers (pkg/cryptography)\<close>

text \<open>
  \<^verbatim>\<open>encryption.go\<close> and \<^verbatim>\<open>kdf.go\<close>. The primitives (AES-GCM, AES-GCM-SIV, gzip, Argon2id, MD5) are
  the fields of the parameter \<open>clib\<close>; the predicate \<open>clib_ok\<close> states what their documentation
  promises. The base64 alphabet, padding and decoder, the nonce prefix, the length guards and
  the order of the steps are modelled as the code has them.
\<close>

record clib =
  SivKeyErr :: "bytes \<Rightarrow> goerr option"            \<comment> \<open>the error of \<^verbatim>\<open>siv.NewGCM(key)\<close>\<close>
  SivSeal :: "bytes \<Rightarrow> bytes \<Rightarrow> bytes \<Rightarrow> bytes"     \<comment> \<open>key, nonce, plaintext\<close>
  SivOpen :: "bytes \<Rightarrow> bytes \<Rightarrow> bytes \<Rightarrow> bytes option"
  GcmSeal :: "bytes \<Rightarrow> bytes \<Rightarrow> bytes \<Rightarrow> bytes"
  GcmOpen :: "bytes \<Rightarrow> bytes \<Rightarrow> bytes \<Rightarrow> bytes option"
  Gzip :: "bytes \<Rightarrow> bytes"
  Gunzip :: "bytes \<Rightarrow> bytes option"
  IDKey :: "bytes \<Rightarrow> bytes \<Rightarrow> bytes"               \<comment> \<open>\<^verbatim>\<open>argon2.IDKey(pw, salt, 10, 256*1024, 4, 32)\<close>\<close>
  Md5 :: "bytes \<Rightarrow> bytes"

text \<open>\<^verbatim>\<open>aes.NewCipher\<close> accepts the three AES key sizes.\<close>

definition aes_key :: "bytes \<Rightarrow> bool" where
  "aes_key key \<longleftrightarrow> length key = 16 \<or> length key = 24 \<or> length key = 32"

definition clib_ok :: "clib \<Rightarrow> bool" where
  "clib_ok C \<longleftrightarrow>
     (\<forall>x. Gunzip C (Gzip C x) = Some x) \<and>
     (\<forall>k n x. aes_key k \<longrightarrow> length n = 12 \<longrightarrow> GcmOpen C k n (GcmSeal C k n x) = Some x) \<and>
     (\<forall>k n x. aes_key k \<longrightarrow> length n = 12 \<longrightarrow> length (GcmSeal C k n x) = length x + 16) \<and>
     (\<forall>k. length k = 32 \<longrightarrow> SivKeyErr C k = None) \<and>
     (\<forall>k n x. length k = 32 \<longrightarrow> length n = 12 \<longrightarrow> SivOpen C k n (SivSeal C k n x) = Some x) \<and>
     (\<forall>k n x. length k = 32 \<longrightarrow> length n = 12 \<longrightarrow> length (SivSeal C k n x) = length x + 16) \<and>
     (\<forall>p s. length (IDKey C p s) = 32)"

subsection \<open>base64.URLEncoding\<close>

definition b64char :: "nat \<Rightarrow> char" where
  "b64char n = (if n < 26 then char_of (65 + n) else if n < 52 then char_of (71 + n)
     else if n < 62 then char_of (n - 4) else if n = 62 then CHR ''-'' else CHR ''_'')"

definition b64val :: "char \<Rightarrow> nat option" where
  "b64val c = (let n = of_char c in
     if 65 \<le> n \<and> n < 91 then Some (n - 65) else if 97 \<le> n \<and> n < 123 then Some (n - 71)
     else if 48 \<le> n \<and> n < 58 then Some (n + 4) else if c = CHR ''-'' then Some 62
     else if c = CHR ''_'' then Some 63 else None)"

fun b64encode :: "bytes \<Rightarrow> string" where
  "b64encode (a # b # c # r) =
     [b64char (unat a div 4), b64char (unat a mod 4 * 16 + unat b div 16),
      b64char (unat b mod 16 * 4 + unat c div 64), b64char (unat c mod 64)] @ b64encode r"
| "b64encode [a, b] =
     [b64char (unat a div 4), b64char (unat a mod 4 * 16 + unat b div 16),
      b64char (unat b mod 16 * 4), CHR ''='']"
| "b64encode [a] = [b64char (unat a div 4), b64char (unat a mod 4 * 16), CHR ''='', CHR ''='']"
| "b64encode [] = []"

text \<open>
  The decoder skips line breaks, takes quanta of four, accepts padding only at the end, and
  ignores the unused low bits of the last character.
\<close>

fun b64quanta :: "string \<Rightarrow> bytes option" where
  "b64quanta [] = Some []"
| "b64quanta (c0 # c1 # c2 # c3 # r) =
     Option.bind (b64val c0) (\<lambda>v0. Option.bind (b64val c1) (\<lambda>v1.
       if c2 = CHR ''='' then
         (if c3 = CHR ''='' \<and> r = [] then Some [of_nat (v0 * 4 + v1 div 16)] else None)
       else Option.bind (b64val c2) (\<lambda>v2.
         if c3 = CHR ''='' then
           (if r = [] then Some [of_nat (v0 * 4 + v1 div 16), of_nat (v1 mod 16 * 16 + v2 div 4)]
            else None)
         else Option.bind (b64val c3) (\<lambda>v3.
           map_option (\<lambda>t. of_nat (v0 * 4 + v1 div 16) # of_nat (v1 mod 16 * 16 + v2 div 4)
             # of_nat (v2 mod 4 * 64 + v3) # t) (b64quanta r)))))"
| "b64quanta _ = None"

definition b64decode :: "string \<Rightarrow> bytes option" where
  "b64decode s = b64quanta (filter (\<lambda>c. c \<noteq> CHR 0x0A \<and> c \<noteq> CHR 0x0D) s)"

lemma b64char_code:
  assumes "n < 64"
  shows "of_char (b64char n) = (if n < 26 then 65 + n else if n < 52 then 71 + n
     else if n < 62 then n - 4 else if n = 62 then 45 else 95 :: nat)"
  using assms by (simp add: b64char_def)

lemma b64val_char [simp]: "n < 64 \<Longrightarrow> b64val (b64char n) = Some n"
proof -
  assume n: "n < 64"
  then consider "n < 26" | "26 \<le> n" "n < 52" | "52 \<le> n" "n < 62" | "n = 62" | "n = 63" by linarith
  then show ?thesis
    by cases (simp_all add: b64val_def b64char_code n Let_def, auto simp add: b64char_def)
qed

lemma b64char_neq:
  "n < 64 \<Longrightarrow> of_char c \<notin> {65..<91} \<union> {97..<123} \<union> {48..<58} \<union> {45, 95 :: nat} \<Longrightarrow> b64char n \<noteq> c"
  using b64char_code [of n] by (auto split: if_splits)

definition b64safe :: "char \<Rightarrow> bool" where
  "b64safe c \<longleftrightarrow> c \<noteq> CHR ''/'' \<and> c \<noteq> CHR 0x0A \<and> c \<noteq> CHR 0x0D"

lemma b64char_safe [simp]: "n < 64 \<Longrightarrow> b64safe (b64char n) \<and> b64char n \<noteq> CHR ''=''"
  using b64char_neq [of n "CHR ''/''"] b64char_neq [of n "CHR 0x0A"] b64char_neq [of n "CHR 0x0D"]
    b64char_neq [of n "CHR ''=''"] by (simp add: b64safe_def)

lemma byte_lt: "unat (a :: byte) < 256"
  by (rule order.strict_trans2 [OF unsigned_less]) simp

lemma byte_div_bounds [simp]: "unat (b :: byte) div 16 < 16" "unat (b :: byte) div 64 < 4"
  using byte_lt [of b] by (simp_all add: less_mult_imp_div_less)

lemma byte_bounds [simp]:
  "unat (a :: byte) div 4 < 64" "unat (a :: byte) mod 4 * 16 + unat (b :: byte) div 16 < 64"
  "unat (a :: byte) mod 16 * 4 + unat (b :: byte) div 64 < 64"
  "unat (a :: byte) mod 4 * 16 < 64" "unat (a :: byte) mod 16 * 4 < 64"
proof -
  show "unat a div 4 < 64" using byte_lt [of a] by (simp add: less_mult_imp_div_less)
  have "unat b div 16 < 16" "unat b div 64 < 4" by simp_all
  moreover have "unat a mod 4 < 4" "unat a mod 16 < 16" by simp_all
  ultimately show "unat a mod 4 * 16 + unat b div 16 < 64" "unat a mod 16 * 4 + unat b div 64 < 64"
    "unat a mod 4 * 16 < 64" "unat a mod 16 * 4 < 64" by linarith+
qed

lemma b64encode_safe: "c \<in> set (b64encode b) \<Longrightarrow> b64safe c"
  by (induction b rule: b64encode.induct) (auto, auto simp: b64safe_def)

lemma byte_join4 [simp]:
  fixes a :: byte assumes "x < 16"
  shows "unat a div 4 * 4 + (unat a mod 4 * 16 + x) div 16 = unat a"
  using assms by simp

lemma byte_join16 [simp]:
  fixes a b :: byte assumes "x < 4"
  shows "(unat a mod 4 * 16 + unat b div 16) mod 16 * 16 + (unat b mod 16 * 4 + x) div 4 = unat b"
proof -
  have "(unat a mod 4 * 16 + unat b div 16) mod 16 = unat b div 16" by (simp add: mod_mult_self1)
  with assms show ?thesis by simp
qed

lemma byte_join64 [simp]:
  fixes b c :: byte
  shows "(unat b mod 16 * 4 + unat c div 64) mod 4 * 64 + unat c mod 64 = unat c"
proof -
  have "(unat b mod 16 * 4 + unat c div 64) mod 4 = unat c div 64" by (simp add: mod_mult_self1)
  then show ?thesis by simp
qed

lemma b64quanta_encode: "b64quanta (b64encode b) = Some b"
proof (induction b rule: b64encode.induct)
  case (1 a b c r)
  then show ?case by (simp del: of_nat_add of_nat_mult)
next
  case (2 a b)
  show ?case using byte_join16 [of 0 a b] by (simp del: of_nat_add of_nat_mult)
next
  case (3 a)
  show ?case using byte_join4 [of 0 a] by (simp del: of_nat_add of_nat_mult)
qed simp

lemma b64decode_encode: "b64decode (b64encode b) = Some b"
proof -
  have "filter (\<lambda>c. c \<noteq> CHR 0x0A \<and> c \<noteq> CHR 0x0D) (b64encode b) = b64encode b"
    by (rule filter_True) (auto dest: b64encode_safe simp: b64safe_def)
  then show ?thesis by (simp add: b64decode_def b64quanta_encode)
qed

interpretation base64: codec "\<lambda>_. True" b64encode b64decode
  by unfold_locales (rule b64decode_encode)

subsection \<open>File names\<close>

definition gz :: "clib \<Rightarrow> string \<Rightarrow> string" where
  "gz C input = string_of_bytes (Gzip C (bytes_of_string input))"

definition gunzip :: "clib \<Rightarrow> string \<Rightarrow> string go" where
  "gunzip C gzinput = (case Gunzip C (bytes_of_string gzinput) of
       None \<Rightarrow> Fatal
     | Some b \<Rightarrow> Ret (string_of_bytes b))"

definition EncryptFilename :: "clib \<Rightarrow> bytes \<Rightarrow> string \<Rightarrow> goerr + string" where
  "EncryptFilename C key filename =
     (if filename = [] then Inl (GoErr ''filename was blank'')
      else let filenameGz = gz C filename in
        case SivKeyErr C key of
          Some e \<Rightarrow> Inl e
        | None \<Rightarrow>
            let nonce = replicate 12 0;
              ciphertext = SivSeal C key nonce (bytes_of_string filenameGz)
            in Inr (b64encode ciphertext))"

definition DecryptFilename :: "clib \<Rightarrow> bytes \<Rightarrow> string \<Rightarrow> (goerr + string) go" where
  "DecryptFilename C key encryptedFilenameB64 =
     (case b64decode encryptedFilenameB64 of
        None \<Rightarrow> Ret (Inl (GoErr ''illegal base64 data''))
      | Some encryptedFilename \<Rightarrow> (case SivKeyErr C key of
          Some e \<Rightarrow> Ret (Inl e)
        | None \<Rightarrow> (case SivOpen C key (replicate 12 0) encryptedFilename of
            None \<Rightarrow> Ret (Inl (GoErr ''authentication failed''))
          | Some decryptedFilename \<Rightarrow>
              bindGo (gunzip C (string_of_bytes decryptedFilename)) (\<lambda>filename. Ret (Inr filename)))))"

subsection \<open>Buffers\<close>

text \<open>
  \<^verbatim>\<open>AppendEntireFileToBuffer\<close> reads with one \<^verbatim>\<open>Read\<close> of a buffer of the size \<^verbatim>\<open>Stat\<close> reported.
  A read into an empty buffer returns at once; a read at the end of the file is \<^verbatim>\<open>io.EOF\<close>.
\<close>

definition read_once :: "gofile \<Rightarrow> nat \<Rightarrow> goerr + bytes" where
  "read_once f n = (if n = 0 then Inr [] else
     case gf_reads f n of
       [] \<Rightarrow> Inl (GoErr ''EOF'')
     | ReadErr e # _ \<Rightarrow> Inl e
     | ReadData d # _ \<Rightarrow> Inr d)"

definition AppendEntireFileToBuffer ::
  "'w sys \<Rightarrow> string \<Rightarrow> bytes \<Rightarrow> (('w, 'z) gst_scheme, goerr + bytes) prog" where
  "AppendEntireFileToBuffer S path buf =
     tryM (sysM (OpenFile S path)) (\<lambda>e. retM (Inl e)) (\<lambda>file.
       case gf_size file of
         Inl e \<Rightarrow> retM (Inl e)
       | Inr filesize \<Rightarrow>
           if filesize < 0 then liftGo Panic
           else (case read_once file (nat filesize) of
               Inl e \<Rightarrow> retM (Inl e)
             | Inr buffer \<Rightarrow>
                 if int (length buffer) \<noteq> filesize then retM (Inl (GoErr ''failed to read entire file''))
                 else retM (Inr (buf @ buffer))))"

definition aes_key_error :: "bytes \<Rightarrow> goerr" where
  "aes_key_error key = GoErr (''crypto/aes: invalid key size '' @ show_nat (length key))"

definition EncryptBuffer ::
  "'w sys \<Rightarrow> clib \<Rightarrow> bytes \<Rightarrow> bytes \<Rightarrow> (('w, 'z) gst_scheme, goerr + bytes) prog" where
  "EncryptBuffer S C key plaintext0 =
     (let plaintext = bytes_of_string (gz C (string_of_bytes plaintext0)) in
      if \<not> aes_key key then retM (Inl (aes_key_error key))
      else tryM (sysM (RandRead S 12)) (\<lambda>e. retM (Inl e)) (\<lambda>nonce.
        let ciphertext = GcmSeal C key nonce plaintext
        in retM (Inr (nonce @ ciphertext))))"

definition DecryptBuffer :: "clib \<Rightarrow> bytes \<Rightarrow> bytes \<Rightarrow> (goerr + bytes) go" where
  "DecryptBuffer C key ciphertext0 =
     (if length ciphertext0 \<le> 12
      then Ret (Inl (GoErr ''error: DecryptBuffer: ciphertext too short to be valid''))
      else let nonce = take 12 ciphertext0; ciphertext = drop 12 ciphertext0 in
        if \<not> aes_key key then Ret (Inl (aes_key_error key))
        else (case GcmOpen C key nonce ciphertext of
            None \<Rightarrow> Ret (Inl (GoErr ''cipher: message authentication failed''))
          | Some plaintext \<Rightarrow>
              bindGo (gunzip C (string_of_bytes plaintext)) (\<lambda>p. Ret (Inr (bytes_of_string p)))))"

text \<open>\<^verbatim>\<open>Seal\<close> panics on a nonce that does not have the standard 12 bytes.\<close>

definition EncryptBufferWithNonce :: "clib \<Rightarrow> bytes \<Rightarrow> bytes \<Rightarrow> bytes \<Rightarrow> (goerr + bytes) go" where
  "EncryptBufferWithNonce C key plaintext0 nonce =
     (let plaintext = bytes_of_string (gz C (string_of_bytes plaintext0)) in
      if \<not> aes_key key then Ret (Inl (aes_key_error key))
      else if length nonce \<noteq> 12 then Panic
      else let ciphertext = GcmSeal C key nonce plaintext
        in Ret (Inr (nonce @ ciphertext)))"

text \<open>No length guard here: the slice expression panics on a short ciphertext.\<close>

definition DecryptBufferReturningNonce :: "clib \<Rightarrow> bytes \<Rightarrow> bytes \<Rightarrow> (goerr + (bytes \<times> bytes)) go" where
  "DecryptBufferReturningNonce C key ciphertext0 =
     bindGo (slice ciphertext0 0 12) (\<lambda>nonce.
       let ciphertext = drop 12 ciphertext0 in
       if \<not> aes_key key then Ret (Inl (aes_key_error key))
       else (case GcmOpen C key nonce ciphertext of
           None \<Rightarrow> Ret (Inl (GoErr ''cipher: message authentication failed''))
         | Some plaintext \<Rightarrow>
             bindGo (gunzip C (string_of_bytes plaintext))
               (\<lambda>p. Ret (Inr (bytes_of_string p, nonce)))))"

definition DeriveKey :: "clib \<Rightarrow> string \<Rightarrow> string \<Rightarrow> goerr + bytes" where
  "DeriveKey C salt masterPassword =
     (if length salt < 8 then Inl ErrorBadSalt
      else Inr (IDKey C (bytes_of_string masterPassword) (bytes_of_string salt)))"

subsection \<open>Round trips\<close>

named_theorems clib_rules \<open>documented behaviour of the cryptographic primitives\<close>

lemma clib_okD [clib_rules]:
  assumes "clib_ok C"
  shows "Gunzip C (Gzip C x) = Some x"
    "aes_key k \<Longrightarrow> length n = 12 \<Longrightarrow> GcmOpen C k n (GcmSeal C k n x) = Some x"
    "aes_key k \<Longrightarrow> length n = 12 \<Longrightarrow> length (GcmSeal C k n x) = length x + 16"
    "length k = 32 \<Longrightarrow> SivKeyErr C k = None"
    "length k = 32 \<Longrightarrow> length n = 12 \<Longrightarrow> SivOpen C k n (SivSeal C k n x) = Some x"
    "length k = 32 \<Longrightarrow> length n = 12 \<Longrightarrow> length (SivSeal C k n x) = length x + 16"
    "length (IDKey C p q) = 32"
  using assms unfolding clib_ok_def by metis+

lemma gunzip_gz [clib_rules]: "clib_ok C \<Longrightarrow> gunzip C (gz C s) = Ret s"
  by (simp add: gunzip_def gz_def clib_okD)

lemma aes_key_32 [simp]: "length k = 32 \<Longrightarrow> aes_key k"
  by (simp add: aes_key_def)

lemma EncryptFilename_ok:
  "clib_ok C \<Longrightarrow> length key = 32 \<Longrightarrow> name \<noteq> [] \<Longrightarrow>
     EncryptFilename C key name =
       Inr (b64encode (SivSeal C key (replicate 12 0) (bytes_of_string (gz C name))))"
  by (simp add: EncryptFilename_def clib_okD Let_def)

lemma DecryptFilename_Encrypt:
  assumes "clib_ok C" "length key = 32" "EncryptFilename C key name = Inr e"
  shows "DecryptFilename C key e = Ret (Inr name)"
proof -
  have "name \<noteq> []" using assms(3) by (auto simp: EncryptFilename_def)
  with assms show ?thesis
    by (auto simp: EncryptFilename_ok DecryptFilename_def base64.roundtrip clib_okD gunzip_gz)
qed

lemma b64encode_eq_Nil [simp]: "b64encode b = [] \<longleftrightarrow> b = []"
  by (cases b rule: b64encode.cases) simp_all

text \<open>An encrypted name is one path component of an object name.\<close>

lemma EncryptFilename_component:
  assumes "clib_ok C" "length key = 32" "EncryptFilename C key name = Inr e"
  shows "e \<noteq> []" "CHR ''/'' \<notin> set e"
proof -
  have "name \<noteq> []" using assms(3) by (auto simp: EncryptFilename_def)
  then have e: "e = b64encode (SivSeal C key (replicate 12 0) (bytes_of_string (gz C name)))"
    using assms by (simp add: EncryptFilename_ok)
  have "length (SivSeal C key (replicate 12 0) (bytes_of_string (gz C name))) \<noteq> 0"
    using assms by (simp add: clib_okD)
  then show "e \<noteq> []" by (simp add: e)
  show "CHR ''/'' \<notin> set e" using b64encode_safe by (auto simp: e b64safe_def)
qed

lemma DecryptBuffer_seal:
  assumes "clib_ok C" "aes_key key" "length nonce = 12"
  shows "DecryptBuffer C key (nonce @ GcmSeal C key nonce (bytes_of_string (gz C (string_of_bytes p))))
    = Ret (Inr p)"
  using assms by (simp add: DecryptBuffer_def clib_okD gunzip_gz Let_def)

lemma EncryptBuffer_RetE:
  assumes "EncryptBuffer S C key p s = (Ret (Inr c), t)"
  obtains nonce w where "RandRead S 12 (world s) = (Inr nonce, w)" "t = s\<lparr>world := w\<rparr>"
    "aes_key key" "c = nonce @ GcmSeal C key nonce (bytes_of_string (gz C (string_of_bytes p)))"
  using assms
  by (auto simp: EncryptBuffer_def Let_def sysM_def split: if_splits prod.splits elim!: tryM_RetE)

lemma EncryptBufferWithNonce_Ret:
  assumes "EncryptBufferWithNonce C key p nonce = Ret (Inr c)"
  shows "length nonce = 12 \<and> aes_key key \<and>
    c = nonce @ GcmSeal C key nonce (bytes_of_string (gz C (string_of_bytes p)))"
  using assms by (auto simp: EncryptBufferWithNonce_def Let_def split: if_splits)

lemma DecryptBufferReturningNonce_seal:
  assumes "clib_ok C" "aes_key key" "length nonce = 12"
  shows "DecryptBufferReturningNonce C key
      (nonce @ GcmSeal C key nonce (bytes_of_string (gz C (string_of_bytes p)))) = Ret (Inr (p, nonce))"
  using assms by (simp add: DecryptBufferReturningNonce_def slice_def clib_okD gunzip_gz Let_def)

lemma preserves_EncryptBuffer [go_preserves]:
  "(\<And>s r w. P s \<Longrightarrow> RandRead S 12 (world s) = (r, w) \<Longrightarrow> P (s\<lparr>world := w\<rparr>)) \<Longrightarrow>
     preserves P (EncryptBuffer S C key p)"
  unfolding EncryptBuffer_def Let_def
  by (intro preserves_if preserves_tryM preserves_sysM preserves_retM)

subsection \<open>Properties\<close>

definition identity_clib :: clib where
  "identity_clib = \<lparr>SivKeyErr = (\<lambda>k. if length k = 32 then None else Some (GoErr ''siv: bad key length'')),
     SivSeal = (\<lambda>k n x. x @ replicate 16 0), SivOpen = (\<lambda>k n c. Some (take (length c - 16) c)),
     GcmSeal = (\<lambda>k n x. x @ replicate 16 0), GcmOpen = (\<lambda>k n c. Some (take (length c - 16) c)),
     Gzip = (\<lambda>x. x), Gunzip = Some, IDKey = (\<lambda>p s. take 32 (p @ replicate 32 0)), Md5 = (\<lambda>x. x)\<rparr>"

lemma identity_clib_ok: "clib_ok identity_clib"
  by (simp add: clib_ok_def identity_clib_def) linarith

text \<open>
  C31. Whatever name \<^verbatim>\<open>EncryptFilename\<close> accepts, \<^verbatim>\<open>DecryptFilename\<close> gives back under the same key,
  and the encrypted name is a non-empty string without a slash: one component of an object name.
\<close>

theorem filename_roundtrip:
  assumes "clib_ok C" "length key = 32" "EncryptFilename C key name = Inr e"
  shows "DecryptFilename C key e = Ret (Inr name) \<and> e \<noteq> [] \<and> CHR ''/'' \<notin> set e"
  using DecryptFilename_Encrypt EncryptFilename_component assms by blast

theorem filename_roundtrip_witness:
  "\<exists>e. EncryptFilename identity_clib (replicate 32 1) ''a/b'' = Inr e \<and>
     DecryptFilename identity_clib (replicate 32 1) e = Ret (Inr ''a/b'')"
proof -
  have "EncryptFilename identity_clib (replicate 32 1) ''a/b''
      = Inr (b64encode (bytes_of_string (gz identity_clib ''a/b'') @ replicate 16 0))"
    by (simp add: EncryptFilename_def identity_clib_def)
  from filename_roundtrip [OF identity_clib_ok _ this] this show ?thesis by auto
qed

text \<open>
  \<^verbatim>\<open>DecryptBuffer\<close> answers a ciphertext of at most 12 bytes with an error, whereas
  \<^verbatim>\<open>DecryptBufferReturningNonce\<close>, which has no such guard, panics on fewer than 12 bytes.
\<close>

theorem short_ciphertext:
  "(length c \<le> 12 \<longrightarrow> DecryptBuffer C key c =
      Ret (Inl (GoErr ''error: DecryptBuffer: ciphertext too short to be valid''))) \<and>
   (DecryptBufferReturningNonce C key c = Panic \<longleftrightarrow> length c < 12)"
proof
  show "length c \<le> 12 \<longrightarrow> DecryptBuffer C key c =
      Ret (Inl (GoErr ''error: DecryptBuffer: ciphertext too short to be valid''))"
    by (simp add: DecryptBuffer_def)
  show "DecryptBufferReturningNonce C key c = Panic \<longleftrightarrow> length c < 12"
    by (auto simp: DecryptBufferReturningNonce_def slice_def gunzip_def Let_def split: option.splits)
qed

theorem short_ciphertext_witness:
  "DecryptBuffer identity_clib [] (replicate 12 0) =
     Ret (Inl (GoErr ''error: DecryptBuffer: ciphertext too short to be valid'')) \<and>
   DecryptBufferReturningNonce identity_clib [] (replicate 11 0) = Panic"
  using short_ciphertext [of "replicate 12 0" identity_clib "[]"]
    short_ciphertext [of "replicate 11 0" identity_clib "[]"] by simp

text \<open>
  C30. What \<^verbatim>\<open>EncryptBuffer\<close> produces, \<^verbatim>\<open>DecryptBuffer\<close> and \<^verbatim>\<open>DecryptBufferReturningNonce\<close> turn back into
  the plaintext, the second together with the nonce the random source gave; the ciphertext starts with
  that nonce and is 28 bytes longer than the compressed plaintext.
\<close>

theorem buffer_roundtrip:
  assumes "clib_ok C" "\<forall>w x w'. RandRead S 12 w = (Inr x, w') \<longrightarrow> length x = 12"
    and "EncryptBuffer S C key p s = (Ret (Inr c), t)"
  shows "DecryptBuffer C key c = Ret (Inr p) \<and> DecryptBufferReturningNonce C key c = Ret (Inr (p, take 12 c)) \<and>
    fst (RandRead S 12 (world s)) = Inr (take 12 c) \<and> length c = length (Gzip C p) + 28"
proof -
  from assms(3) obtain n w where n: "RandRead S 12 (world s) = (Inr n, w)" "aes_key key"
    "c = n @ GcmSeal C key n (bytes_of_string (gz C (string_of_bytes p)))" by (auto elim: EncryptBuffer_RetE)
  with assms(2) have "length n = 12" by blast
  with n show ?thesis
    using DecryptBuffer_seal [OF assms(1), of key n p] DecryptBufferReturningNonce_seal [OF assms(1), of key n p]
    by (simp add: clib_okD [OF assms(1)] gz_def)
qed

end
