(* ===== verification/Serde.thy ===== *)
theory Serde
  imports Cryptography
begin

section \<open>Metadata headers and extended attributes (pkg/backup/serde.go, xattrs.go)\<close>

text \<open>
  Every backed up entry starts with a header: the length of a gob-encoded struct as a little-endian
  \<^verbatim>\<open>int64\<close>, then the struct. \<^verbatim>\<open>encoding/gob\<close> is the parameter \<open>gob\<close>; its law \<open>gob_ok\<close> says that the
  decoder reads back what the encoder wrote and looks at nothing behind it. Extended attributes are
  stored as lines \<^verbatim>\<open>name=hexvalue\<close>; what is relied on of the package that reads and sets them is the
  locale \<open>xattr_store\<close>.
\<close>

subsection \<open>Little-endian integers\<close>

fun le_enc :: "nat \<Rightarrow> nat \<Rightarrow> bytes" where
  "le_enc 0 n = []"
| "le_enc (Suc k) n = of_nat n # le_enc k (n div 256)"

fun le_dec :: "bytes \<Rightarrow> nat" where
  "le_dec [] = 0"
| "le_dec (b # bs) = unat b + 256 * le_dec bs"

text \<open>\<^verbatim>\<open>int64\<close> and its two's complement.\<close>

definition int64_enc :: "int \<Rightarrow> bytes" where
  "int64_enc i = le_enc 8 (nat (i mod 2 ^ 64))"

definition int64_dec :: "bytes \<Rightarrow> int" where
  "int64_dec b = (let n = int (le_dec b) in if n < 2 ^ 63 then n else n - 2 ^ 64)"

subsection \<open>The metadata header\<close>

record dirEntMetadata =
  IsDir :: bool
  MTime :: int
  XAttrs :: string
  md_Mode :: "32 word"
  IsSymlink :: bool
  SymlinkOrigin :: string

record gob =
  gob_enc :: "dirEntMetadata \<Rightarrow> goerr + bytes"
  gob_dec :: "bytes \<Rightarrow> goerr + dirEntMetadata"

definition gob_ok :: "gob \<Rightarrow> bool" where
  "gob_ok G \<longleftrightarrow> (\<forall>m b rest. gob_enc G m = Inr b \<longrightarrow> gob_dec G (b @ rest) = Inr m)"

definition serializeMetadataStruct :: "gob \<Rightarrow> dirEntMetadata \<Rightarrow> goerr + bytes" where
  "serializeMetadataStruct G metadata = (case gob_enc G metadata of
       Inl e \<Rightarrow> Inl e
     | Inr metadataBuf \<Rightarrow> Inr (int64_enc (int (length metadataBuf)) @ metadataBuf))"

text \<open>
  \<^verbatim>\<open>binary.Read\<close> needs eight bytes; the final slice expression panics when the stored length is
  negative or too large.
\<close>

definition deserializeMetadataStruct :: "gob \<Rightarrow> bytes \<Rightarrow> (goerr + (dirEntMetadata \<times> bytes)) go" where
  "deserializeMetadataStruct G blobBuf =
     (if length blobBuf = 0 then Ret (Inl (GoErr ''EOF''))
      else if length blobBuf < 8 then Ret (Inl (GoErr ''unexpected EOF''))
      else let structSize = int64_dec (take 8 blobBuf) in
        case gob_dec G (drop 8 blobBuf) of
          Inl e \<Rightarrow> Ret (Inl e)
        | Inr metadata \<Rightarrow>
            bindGo (slice blobBuf (8 + structSize) (int (length blobBuf)))
              (\<lambda>fileContents. Ret (Inr (metadata, fileContents))))"

subsection \<open>Extended attributes\<close>

definition hex_val :: "char \<Rightarrow> nat option" where
  "hex_val c = (let n = of_char c in
     if 48 \<le> n \<and> n < 58 then Some (n - 48) else if 97 \<le> n \<and> n < 103 then Some (n - 87)
     else if 65 \<le> n \<and> n < 71 then Some (n - 55) else None)"

fun hex_decode :: "string \<Rightarrow> bytes option" where
  "hex_decode [] = Some []"
| "hex_decode [c] = None"
| "hex_decode (a # b # s) = Option.bind (hex_val a) (\<lambda>x. Option.bind (hex_val b) (\<lambda>y.
     map_option (\<lambda>r. of_nat (16 * x + y) # r) (hex_decode s)))"

fun xattr_lines :: "'w sys \<Rightarrow> string \<Rightarrow> string list \<Rightarrow> string \<Rightarrow> (('w, 'z) gst_scheme, goerr + string) prog" where
  "xattr_lines S path [] xattrHex = retM (Inr xattrHex)"
| "xattr_lines S path (xa # rest) xattrHex =
     tryM (sysM (XattrGet S path xa)) (\<lambda>e. retM (Inl e)) (\<lambda>data.
       xattr_lines S path rest (xattrHex @ xa @ ''='' @ hex_bytes data @ nl))"

definition serializeXAttrsToHex :: "'w sys \<Rightarrow> string \<Rightarrow> (('w, 'z) gst_scheme, goerr + string) prog" where
  "serializeXAttrsToHex S path =
     tryM (sysM (XattrList S path)) (\<lambda>e. retM (Inl e)) (\<lambda>list.
     tryM (xattr_lines S path list []) (\<lambda>e. retM (Inl e)) (\<lambda>xattrHex.
     retM (Inr (TrimSuffix xattrHex nl))))"

text \<open>One line back into a name and a value.\<close>

definition xattr_line :: "string \<Rightarrow> goerr + (string \<times> bytes)" where
  "xattr_line xattrHexLine =
     (let xattrHexLineParts = SplitChar (CHR ''='') xattrHexLine in
      if length xattrHexLineParts \<noteq> 2
      then Inl (GoErr ([CHR 0x27] @ ''k=v'' @ [CHR 0x27] @ '' was malformed in hex serialization: ''))
      else case hex_decode (xattrHexLineParts ! 1) of
        None \<Rightarrow> Inl (GoErr ''encoding/hex: invalid string'')
      | Some vBytes \<Rightarrow> Inr (xattrHexLineParts ! 0, vBytes))"

fun set_xattr_lines :: "'w sys \<Rightarrow> string \<Rightarrow> string list \<Rightarrow> (('w, 'z) gst_scheme, goerr + unit) prog" where
  "set_xattr_lines S path [] = retM (Inr ())"
| "set_xattr_lines S path (xattrHexLine # rest) =
     (case xattr_line xattrHexLine of
        Inl e \<Rightarrow> retM (Inl e)
      | Inr (k, vBytes) \<Rightarrow>
          tryM (sysM (XattrSet S path k vBytes)) (\<lambda>e. retM (Inl e)) (\<lambda>_. set_xattr_lines S path rest))"

definition deserializeAndSetXAttrs :: "'w sys \<Rightarrow> string \<Rightarrow> string \<Rightarrow> (('w, 'z) gst_scheme, goerr + unit) prog" where
  "deserializeAndSetXAttrs S path xattrsHex =
     (if xattrsHex = [] then retM (Inr ())
      else set_xattr_lines S path (SplitChar (CHR 0x0A) xattrsHex))"

subsection \<open>Round trips\<close>

lemma length_le_enc [simp]: "length (le_enc k n) = k"
  by (induction k n rule: le_enc.induct) auto

lemma le_dec_enc: "n < 256 ^ k \<Longrightarrow> le_dec (le_enc k n) = n"
proof (induction k n rule: le_enc.induct)
  case (2 k n)
  then have "n div 256 < 256 ^ k" by (simp add: less_mult_imp_div_less)
  with 2 show ?case by (simp add: unat_of_nat)
qed simp

lemma length_int64_enc [simp]: "length (int64_enc i) = 8"
  by (simp add: int64_enc_def)

lemma int64_dec_enc: "- (2 ^ 63) \<le> i \<Longrightarrow> i < 2 ^ 63 \<Longrightarrow> int64_dec (int64_enc i) = i"
proof -
  assume i: "- (2 ^ 63) \<le> i" "i < 2 ^ 63"
  have "nat (i mod 2 ^ 64) < 256 ^ 8" by (simp add: nat_less_iff)
  then have dec: "int (le_dec (int64_enc i)) = i mod 2 ^ 64"
    by (simp add: int64_enc_def le_dec_enc)
  show ?thesis
  proof (cases "0 \<le> i")
    case True
    with i have "i mod 2 ^ 64 = i" by simp
    with i dec show ?thesis by (simp add: int64_dec_def Let_def)
  next
    case False
    with i have "(i + 2 ^ 64) mod 2 ^ 64 = i + 2 ^ 64" by (intro mod_pos_pos_trivial) simp_all
    then have "i mod 2 ^ 64 = i + 2 ^ 64" by simp
    with i dec False show ?thesis by (simp add: int64_dec_def Let_def)
  qed
qed

interpretation int64: codec "\<lambda>i. - (2 ^ 63) \<le> i \<and> i < 2 ^ 63" int64_enc "\<lambda>b. Some (int64_dec b)"
  by unfold_locales (simp add: int64_dec_enc)

text \<open>A header reads back, and what follows it is the file's content.\<close>

lemma deserialize_serialize:
  assumes "gob_ok G" "serializeMetadataStruct G m = Inr hdr" "length hdr < 2 ^ 63"
  shows "deserializeMetadataStruct G (hdr @ contents) = Ret (Inr (m, contents))"
proof -
  from assms(2) obtain b where b: "gob_enc G m = Inr b" "hdr = int64_enc (int (length b)) @ b"
    by (auto simp: serializeMetadataStruct_def split: sum.splits)
  have "int (length b) < 2 ^ 63" using assms(3) b(2) by simp
  then have "int64_dec (int64_enc (int (length b))) = int (length b)" by (intro int64_dec_enc) simp_all
  moreover have "gob_dec G (b @ contents) = Inr m" using assms(1) b(1) by (auto simp: gob_ok_def)
  moreover have "slice (hdr @ contents) (8 + int (length b)) (int (length (hdr @ contents))) = Ret contents"
    by (simp add: slice_def b(2))
  ultimately show ?thesis by (simp add: deserializeMetadataStruct_def b(2) Let_def)
qed

lemma hex_val_digit: "n < 16 \<Longrightarrow> hex_val (hex_digit n) = Some n"
  by (auto simp: hex_val_def hex_digit_def Let_def)

lemma hex_digit_plain: "n < 16 \<Longrightarrow> hex_digit n \<noteq> CHR ''='' \<and> hex_digit n \<noteq> CHR 0x0A"
proof -
  assume "n < 16"
  then have "hex_val (hex_digit n) \<noteq> hex_val (CHR ''='')" "hex_val (hex_digit n) \<noteq> hex_val (CHR 0x0A)"
    by (simp_all add: hex_val_digit, simp_all add: hex_val_def)
  then show ?thesis by metis
qed

lemma hex_decode_bytes: "hex_decode (hex_bytes b) = Some b"
proof (induction b)
  case (Cons x b)
  have "unat x mod 16 < 16" by simp
  with Cons show ?case by (simp add: hex_bytes_def hex_val_digit del: of_nat_add of_nat_mult)
qed (simp add: hex_bytes_def)

interpretation hex: codec "\<lambda>_. True" hex_bytes hex_decode
  by unfold_locales (rule hex_decode_bytes)

lemma hex_bytes_plain: "CHR ''='' \<notin> set (hex_bytes b) \<and> CHR 0x0A \<notin> set (hex_bytes b)"
proof (induction b)
  case (Cons x b)
  have "unat x mod 16 < 16" by simp
  with Cons hex_digit_plain [of "unat x div 16"] hex_digit_plain [of "unat x mod 16"]
  show ?case by (fastforce simp: hex_bytes_def)
qed (simp add: hex_bytes_def)

lemma xattr_line_back:
  "CHR ''='' \<notin> set k \<Longrightarrow> xattr_line (k @ ''='' @ hex_bytes v) = Inr (k, v)"
  using hex_bytes_plain [of v]
  by (simp add: xattr_line_def SplitChar_append SplitChar_no_sep Let_def hex.roundtrip)

text \<open>An attribute whose name contains \<^verbatim>\<open>=\<close> is refused when it is read back.\<close>

lemma xattr_line_equals: "CHR ''='' \<in> set k \<Longrightarrow> \<exists>e. xattr_line (k @ ''='' @ hex_bytes v) = Inl e"
proof -
  assume "CHR ''='' \<in> set k"
  then have "0 < count_list k (CHR ''='')" using count_list_0_iff [of k "CHR ''=''"] by auto
  then have "length (SplitChar (CHR ''='') (k @ ''='' @ hex_bytes v)) \<noteq> 2"
    by (simp add: length_SplitChar)
  then show ?thesis by (simp add: xattr_line_def Let_def)
qed

text \<open>The serialisation of a list of attributes, as the loop builds it.\<close>

definition xattr_text :: "(string \<times> bytes) list \<Rightarrow> string" where
  "xattr_text xs = TrimSuffix (concat (map (\<lambda>(k, v). k @ ''='' @ hex_bytes v @ nl) xs)) nl"

lemma xattr_text_join: "xattr_text xs = JoinStr nl (map (\<lambda>(k, v). k @ ''='' @ hex_bytes v) xs)"
proof (cases xs rule: rev_cases)
  case Nil
  then show ?thesis by (simp add: xattr_text_def TrimSuffix_def HasSuffix_def)
next
  case (snoc ys y)
  have "concat (map (\<lambda>(k, v). k @ ''='' @ hex_bytes v @ nl) (ys @ [y])) =
      JoinStr nl (map (\<lambda>(k, v). k @ ''='' @ hex_bytes v) (ys @ [y])) @ nl" for ys
  proof (induction ys)
    case (Cons z zs)
    then show ?case by (cases zs) (auto split: prod.splits)
  qed (auto split: prod.splits)
  then show ?thesis unfolding xattr_text_def snoc by (simp only: TrimSuffix_append)
qed

lemma xattr_text_split:
  assumes "xs \<noteq> []" "\<And>k v. (k, v) \<in> set xs \<Longrightarrow> CHR 0x0A \<notin> set k"
  shows "SplitChar (CHR 0x0A) (xattr_text xs) = map (\<lambda>(k, v). k @ ''='' @ hex_bytes v) xs"
  unfolding xattr_text_join using assms hex_bytes_plain by (intro SplitChar_JoinStr) auto

lemma map_of_graph: "(\<And>k v. (k, v) \<in> set xs \<Longrightarrow> m k = Some v) \<Longrightarrow> dom m \<subseteq> fst ` set xs \<Longrightarrow> map_of xs = m"
proof (rule ext)
  fix k
  assume g: "\<And>k v. (k, v) \<in> set xs \<Longrightarrow> m k = Some v" "dom m \<subseteq> fst ` set xs"
  show "map_of xs k = m k"
  proof (cases "map_of xs k")
    case None
    then have "k \<notin> fst ` set xs" by (simp add: map_of_eq_None_iff)
    with g(2) None show ?thesis by (cases "m k") auto
  next
    case (Some v)
    then show ?thesis using g(1) [OF map_of_SomeD] by simp
  qed
qed

text \<open>
  What the program relies on of the package \<^verbatim>\<open>pkg/xattr\<close>, in terms of the attributes of the files
  (\<open>xa world path\<close>): listing gives the names, getting the value of a name that is there, and neither changes
  them; setting an attribute adds it or replaces its value.
\<close>

locale xattr_store =
  fixes S :: "'w sys" and xa :: "'w \<Rightarrow> string \<Rightarrow> string \<Rightarrow> bytes option"
  assumes xattr_list: "XattrList S p w = (Inr ns, w') \<Longrightarrow> set ns = dom (xa w p) \<and> xa w' = xa w"
    and xattr_get: "XattrGet S p k w = (Inr v, w') \<Longrightarrow> k \<in> dom (xa w p) \<Longrightarrow> xa w p k = Some v \<and> xa w' = xa w"
    and xattr_set: "XattrSet S p k v w = (Inr u, w') \<Longrightarrow> xa w' = (xa w)(p := (xa w p)(k \<mapsto> v))"
begin

lemma xattr_lines_text:
  "xattr_lines S p ns acc s = (Ret (Inr h), t) \<Longrightarrow> set ns \<subseteq> dom (xa (world s) p) \<Longrightarrow>
     h = acc @ concat (map (\<lambda>(k, v). k @ ''='' @ hex_bytes v @ nl) (map (\<lambda>k. (k, the (xa (world s) p k))) ns))"
proof (induction ns arbitrary: acc s)
  case (Cons k ns)
  from Cons.prems(1) obtain v s1 where g: "sysM (XattrGet S p k) s = (Ret (Inr v), s1)"
    "xattr_lines S p ns (acc @ k @ ''='' @ hex_bytes v @ nl) s1 = (Ret (Inr h), t)"
    by (auto elim!: tryM_RetE)
  then have "XattrGet S p k (world s) = (Inr v, world s1)" by (auto simp: sysM_def split: prod.splits)
  with xattr_get [OF this] Cons.prems(2) have "xa (world s) p k = Some v" "xa (world s1) = xa (world s)" by auto
  with Cons.IH [OF g(2)] Cons.prems(2) show ?case by simp
qed simp

lemma serialize_text:
  assumes "serializeXAttrsToHex S p s = (Ret (Inr h), t)"
  obtains ns where "set ns = dom (xa (world s) p)" "h = xattr_text (map (\<lambda>k. (k, the (xa (world s) p k))) ns)"
proof -
  from assms obtain ns s1 x where l: "sysM (XattrList S p) s = (Ret (Inr ns), s1)"
    "xattr_lines S p ns [] s1 = (Ret (Inr x), t)" "h = TrimSuffix x nl"
    unfolding serializeXAttrsToHex_def by (auto elim!: tryM_RetE)
  from l(1) have "XattrList S p (world s) = (Inr ns, world s1)" by (auto simp: sysM_def split: prod.splits)
  from xattr_list [OF this] have ns: "set ns = dom (xa (world s) p)" "xa (world s1) = xa (world s)" by auto
  with xattr_lines_text [OF l(2)] have "h = xattr_text (map (\<lambda>k. (k, the (xa (world s) p k))) ns)"
    by (simp add: l(3) xattr_text_def)
  with ns(1) that show thesis by blast
qed

lemma set_lines_run:
  "map xattr_line ls = map Inr xs \<Longrightarrow> \<exists>r u. set_xattr_lines S q ls s = (Ret r, u) \<and> (case r of
     Inr _ \<Rightarrow> xa (world u) = (xa (world s))(q := xa (world s) q ++ map_of (rev xs))
   | Inl e \<Rightarrow> \<exists>(k, v) \<in> set xs. \<exists>w. XattrSet S q k v w = (Inl e, world u))"
proof (induction ls arbitrary: s xs)
  case (Cons l ls)
  then obtain k v ys where xs: "xs = (k, v) # ys" "xattr_line l = Inr (k, v)" "map xattr_line ls = map Inr ys"
    by (cases xs) auto
  obtain r w where set: "XattrSet S q k v (world s) = (r, w)" by fastforce
  show ?case
  proof (cases r)
    case (Inl e)
    with set xs show ?thesis by (auto simp: tryM_run sysM_run)
  next
    case (Inr x)
    have upd: "xa w = (xa (world s))(q := (xa (world s) q)(k \<mapsto> v))" using xattr_set set Inr by blast
    from Cons.IH [OF xs(3), of "s\<lparr>world := w\<rparr>"] obtain r' u where
      u: "set_xattr_lines S q ls (s\<lparr>world := w\<rparr>) = (Ret r', u)" and r': "case r' of
        Inr _ \<Rightarrow> xa (world u) = (xa (world (s\<lparr>world := w\<rparr>)))(q := xa (world (s\<lparr>world := w\<rparr>)) q ++ map_of (rev ys))
      | Inl e \<Rightarrow> \<exists>(k, v) \<in> set ys. \<exists>w. XattrSet S q k v w = (Inl e, world u)" by blast
    have run: "set_xattr_lines S q (l # ls) s = (Ret r', u)" using set Inr xs(2) u by (simp add: tryM_run sysM_run)
    show ?thesis
    proof (cases r')
      case (Inl e)
      with run r' xs(1) show ?thesis by auto
    next
      case (Inr y)
      with r' upd have "xa (world u) = (xa (world s))(q := xa (world s) q ++ map_of (rev xs))"
        by (simp add: xs(1) fun_eq_iff map_add_def split: option.split)
      with run Inr show ?thesis by (intro exI [of _ r'] exI [of _ u]) simp
    qed
  qed
qed simp

end

lemma set_lines_reject:
  "\<exists>l \<in> set ls. \<exists>e. xattr_line l = Inl e \<Longrightarrow> \<exists>e u. set_xattr_lines S q ls s = (Ret (Inl e), u)"
proof (induction ls arbitrary: s)
  case (Cons l ls)
  show ?case
  proof (cases "xattr_line l")
    case (Inr kv)
    obtain k v where kv: "kv = (k, v)" by fastforce
    obtain r w where x: "XattrSet S q k v (world s) = (r, w)" by fastforce
    from Cons Inr have "\<exists>l \<in> set ls. \<exists>e. xattr_line l = Inl e" by auto
    from Cons.IH [OF this] Inr kv x show ?thesis by (cases r) (simp_all add: tryM_run sysM_run)
  qed simp
qed simp

text \<open>
  C32. The header of a stored file reads back: the metadata, and after it exactly the contents, whatever
  bytes they are.
\<close>

theorem header_roundtrip:
  assumes "gob_ok G" "serializeMetadataStruct G md = Inr hdr" "length hdr < 2 ^ 63"
  shows "deserializeMetadataStruct G (hdr @ contents) = Ret (Inr (md, contents))"
  by (rule deserialize_serialize [OF assms])

text \<open>
  C33. Extended attributes survive a backup and a restore. From a successful \<^verbatim>\<open>serializeXAttrsToHex\<close> of the
  attributes of one file, none of whose names has a newline, \<^verbatim>\<open>deserializeAndSetXAttrs\<close> always returns: it gives
  another file all of them with their values, leaving its other attributes and all other files alone, and
  fails only if one of these attributes cannot be set. But when a name has an \<^verbatim>\<open>=\<close>, which file systems
  allow, it is an error.
\<close>

theorem xattr_roundtrip:
  assumes env: "xattr_store S xa" and ser: "serializeXAttrsToHex S p s = (Ret (Inr h), t)"
    and names: "\<forall>k \<in> dom (xa (world s) p). CHR 0x0A \<notin> set k"
  shows "if \<exists>k \<in> dom (xa (world s) p). CHR ''='' \<in> set k
    then \<exists>e u. deserializeAndSetXAttrs S q h s2 = (Ret (Inl e), u)
    else \<exists>r u. deserializeAndSetXAttrs S q h s2 = (Ret r, u) \<and> (case r of
        Inr _ \<Rightarrow> xa (world u) = (xa (world s2))(q := xa (world s2) q ++ xa (world s) p)
      | Inl e \<Rightarrow> \<exists>k v w. xa (world s) p k = Some v \<and> XattrSet S q k v w = (Inl e, world u))"
proof -
  let ?m = "xa (world s) p"
  obtain ns where ns: "set ns = dom ?m" "h = xattr_text (map (\<lambda>k. (k, the (?m k))) ns)"
    by (rule xattr_store.serialize_text [OF env ser])
  let ?xs = "map (\<lambda>k. (k, the (?m k))) ns"
  have graph: "map_of (rev ?xs) = ?m"
    using ns(1) by (intro map_of_graph) (auto simp: image_image)
  show ?thesis
  proof (cases "ns = []")
    case True
    then have "h = []" "?m = Map.empty" using ns dom_eq_empty_conv [of ?m] by (simp_all add: xattr_text_join)
    then show ?thesis by (simp add: deserializeAndSetXAttrs_def)
  next
    case False
    have lines: "SplitChar (CHR 0x0A) h = map (\<lambda>(k, v). k @ ''='' @ hex_bytes v) ?xs"
      unfolding ns(2) using False names ns(1) by (intro xattr_text_split) auto
    then have run: "deserializeAndSetXAttrs S q h = set_xattr_lines S q (SplitChar (CHR 0x0A) h)"
      using False by (cases ns) (auto simp: deserializeAndSetXAttrs_def)
    show ?thesis
    proof (cases "\<exists>k \<in> dom ?m. CHR ''='' \<in> set k")
      case True
      then have "\<exists>l \<in> set (SplitChar (CHR 0x0A) h). \<exists>e. xattr_line l = Inl e"
        using ns(1) xattr_line_equals by (fastforce simp: lines)
      with set_lines_reject show ?thesis using True by (simp add: run)
    next
      case False
      then have ok: "map xattr_line (SplitChar (CHR 0x0A) h) = map Inr ?xs"
        using ns(1) by (auto simp: lines dest: xattr_line_back [simplified])
      from xattr_store.set_lines_run [OF env ok, of q s2] obtain r u where
        u: "deserializeAndSetXAttrs S q h s2 = (Ret r, u)" "case r of
          Inr _ \<Rightarrow> xa (world u) = (xa (world s2))(q := xa (world s2) q ++ ?m)
        | Inl e \<Rightarrow> \<exists>(k, v) \<in> set ?xs. \<exists>w. XattrSet S q k v w = (Inl e, world u)"
        unfolding run graph by blast
      then show ?thesis using False ns(1) by (cases r) fastforce+
    qed
  qed
qed

end
