(* ===== verification/Database.thy ===== *)
theory Database
  imports Util
begin

section \<open>The local database (pkg/database)\<close>

text \<open>
  \<^verbatim>\<open>database.go\<close>, \<^verbatim>\<open>journals.go\<close>, \<^verbatim>\<open>usage.go\<close> and \<^verbatim>\<open>migrations.go\<close>. The state is the content of the
  SQLite file: the rows of each table in \<^verbatim>\<open>rowid\<close> order with the autoincrement counters, and
  which tables exist. Every SQL statement of the source is the function on that state it denotes.

  Any statement may fail (disk full, lock timeout, ...): the field \<open>db_faults\<close> holds what happens
  to the statements to come, one entry for each \<^verbatim>\<open>Prepare\<close>, \<^verbatim>\<open>Exec\<close>, \<^verbatim>\<open>Query\<close> and \<^verbatim>\<open>Commit\<close>
  (\<open>Some e\<close>: it returns \<open>e\<close> and has no effect); past its end statements succeed. A statement
  on a table that does not exist fails as well.

  Rows inserted through \<^verbatim>\<open>InsertDirEntStmt\<close> and \<^verbatim>\<open>InsertBackupJournalStmt\<close> belong to a transaction:
  they appear when \<^verbatim>\<open>Close\<close> commits it, whose error the code drops.
\<close>

subsection \<open>Tables\<close>

datatype JournalStatus = Unstarted | InProgress | Finished

datatype ChangeType = Updated | Unchanged | Deleted

record dirent_row =
  de_id :: int
  de_rootdir :: string
  de_relpath :: string
  de_last_backup :: int

record binfo_row =
  bi_id :: int
  bi_snapshot_time :: int
  bi_dirpath :: string

record journal_row =
  bj_id :: int
  bj_backup_info_id :: int
  bj_dirent_id :: int
  bj_change_type :: ChangeType
  bj_index_entry :: "bytes option"
  bj_status :: JournalStatus

record usage_row =
  ur_id :: int
  ur_date :: int
  ur_used :: int

record db =
  db_tables :: "string list"
  dirents :: "dirent_row list"
  dirents_seq :: int
  backup_info :: "binfo_row list"
  backup_info_seq :: int
  backup_journal :: "journal_row list"
  backup_journal_seq :: int
  space_usage_history :: "usage_row list"
  space_usage_seq :: int
  bandwidth_usage_history :: "usage_row list"
  bandwidth_usage_seq :: int
  version_rows :: "int list"
  db_faults :: "goerr option list"
  db_where :: "string \<Rightarrow> (int \<times> string \<times> string) list option"
    \<comment> \<open>what SQLite answers to \<^verbatim>\<open>GetAllKnownPaths\<close>'s statement when the directory name closes
      the string literal early (\<open>None\<close>: a syntax error)\<close>

text \<open>A new file has no table.\<close>

definition empty_db :: db where
  "empty_db = \<lparr>db_tables = [], dirents = [], dirents_seq = 0, backup_info = [], backup_info_seq = 0,
     backup_journal = [], backup_journal_seq = 0, space_usage_history = [], space_usage_seq = 0,
     bandwidth_usage_history = [], bandwidth_usage_seq = 0, version_rows = [], db_faults = [],
     db_where = (\<lambda>_. None)\<rparr>"

subsection \<open>Statements\<close>

definition no_such_table :: goerr where
  "no_such_table = GoErr ''no such table''"

definition sqlM :: "string list \<Rightarrow> (db \<Rightarrow> 'a \<times> db) \<Rightarrow> (db, goerr + 'a) prog" where
  "sqlM tbls f = (\<lambda>d0. let d = d0\<lparr>db_faults := tl (db_faults d0)\<rparr> in
     case db_faults d0 of
       Some e # _ \<Rightarrow> (Ret (Inl e), d)
     | _ \<Rightarrow> if set tbls \<subseteq> set (db_tables d)
            then (case f d of (a, d') \<Rightarrow> (Ret (Inr a), d'))
            else (Ret (Inl no_such_table), d))"

text \<open>\<^verbatim>\<open>Prepare\<close> followed by \<^verbatim>\<open>Exec\<close> (or \<^verbatim>\<open>Query\<close>), each returning its error.\<close>

definition stmtM :: "string list \<Rightarrow> (db \<Rightarrow> 'a \<times> db) \<Rightarrow> (db, goerr + 'a) prog" where
  "stmtM tbls f = tryM (sqlM tbls (\<lambda>d. ((), d))) (\<lambda>e. retM (Inl e)) (\<lambda>_. sqlM tbls f)"

text \<open>A query for one row: \<^verbatim>\<open>QueryRow(...).Scan(...)\<close> reports no row as \<^verbatim>\<open>sql.ErrNoRows\<close>.\<close>

definition rowM :: "string list \<Rightarrow> (db \<Rightarrow> 'a option) \<Rightarrow> (db, goerr + 'a) prog" where
  "rowM tbls f = tryM (stmtM tbls (\<lambda>d. (f d, d))) (\<lambda>e. retM (Inl e))
     (\<lambda>r. retM (case r of None \<Rightarrow> Inl ErrNoRows | Some a \<Rightarrow> Inr a))"

definition execM :: "string list \<Rightarrow> (db \<Rightarrow> db) \<Rightarrow> (db, goerr + unit) prog" where
  "execM tbls f = stmtM tbls (\<lambda>d. ((), f d))"

subsection \<open>Schema\<close>

definition drop_table :: "string \<Rightarrow> (db, goerr + unit) prog" where
  "drop_table n = sqlM [] (\<lambda>d. ((),
     d\<lparr>db_tables := filter (\<lambda>t. t \<noteq> n) (db_tables d),
       dirents := (if n = ''dirents'' then [] else dirents d),
       dirents_seq := (if n = ''dirents'' then 0 else dirents_seq d),
       backup_info := (if n = ''backup_info'' then [] else backup_info d),
       backup_info_seq := (if n = ''backup_info'' then 0 else backup_info_seq d),
       backup_journal := (if n = ''backup_journal'' then [] else backup_journal d),
       backup_journal_seq := (if n = ''backup_journal'' then 0 else backup_journal_seq d),
       space_usage_history := (if n = ''space_usage_history'' then [] else space_usage_history d),
       space_usage_seq := (if n = ''space_usage_history'' then 0 else space_usage_seq d),
       bandwidth_usage_history :=
         (if n = ''bandwidth_usage_history'' then [] else bandwidth_usage_history d),
       bandwidth_usage_seq := (if n = ''bandwidth_usage_history'' then 0 else bandwidth_usage_seq d),
       version_rows := (if n = ''version'' then [] else version_rows d)\<rparr>))"

definition create_table :: "string \<Rightarrow> (db, goerr + unit) prog" where
  "create_table n = tryM (sqlM [] (\<lambda>d.
       if n \<in> set (db_tables d) then (Some (GoErr (''table '' @ n @ '' already exists'')), d)
       else (None, d\<lparr>db_tables := db_tables d @ [n]\<rparr>))) (\<lambda>e. retM (Inl e))
     (\<lambda>r. retM (case r of Some e \<Rightarrow> Inl e | None \<Rightarrow> Inr ()))"

definition create_index :: "string \<Rightarrow> (db, goerr + unit) prog" where
  "create_index tbl = sqlM [tbl] (\<lambda>d. ((), d))"

text \<open>A script of several statements: \<^verbatim>\<open>Exec\<close> stops at the first that fails.\<close>

fun scriptM :: "(db, goerr + unit) prog list \<Rightarrow> (db, goerr + unit) prog" where
  "scriptM [] = retM (Inr ())"
| "scriptM (m # ms) = tryM m (\<lambda>e. retM (Inl e)) (\<lambda>_. scriptM ms)"

definition DropAllTables :: "(db, goerr + unit) prog" where
  "DropAllTables = scriptM (map drop_table
     [''dirents'', ''backup_info'', ''backup_journal'', ''rm_snapshot_info'', ''rm_snapshot_journal''])"

definition createTables :: "(db, goerr + unit) prog" where
  "createTables = scriptM
     [drop_table ''dirents'', create_table ''dirents'', create_index ''dirents'',
      drop_table ''backup_info'', create_table ''backup_info'',
      drop_table ''backup_journal'', create_table ''backup_journal'',
      create_index ''backup_journal'', create_index ''backup_journal'']"

text \<open>\<^verbatim>\<open>querySingleRowCount\<close>, for the two queries on \<^verbatim>\<open>sqlite_master\<close> the program makes.\<close>

definition querySingleRowCount :: "(string \<Rightarrow> bool) \<Rightarrow> (db, goerr + nat) prog" where
  "querySingleRowCount p = sqlM [] (\<lambda>d. (length (filter p (db_tables d)), d))"

definition CreateTablesIfNotExist :: "(db, goerr + unit) prog" where
  "CreateTablesIfNotExist =
     tryM (querySingleRowCount (\<lambda>n. n = ''dirents'' \<or> n = ''backup_info'' \<or> n = ''backup_journal''))
       (\<lambda>e. retM (Inl e))
       (\<lambda>cnt. if cnt \<noteq> 3 then createTables else retM (Inr ()))"

definition getDbVersion :: "(db, goerr + int) prog" where
  "getDbVersion =
     tryM (querySingleRowCount (\<lambda>n. n \<noteq> ''sqlite_sequence'')) (\<lambda>e. retM (Inl e)) (\<lambda>cnt.
     if cnt = 0 then retM (Inr (-1)) else
     tryM (querySingleRowCount (\<lambda>n. n = ''version'')) (\<lambda>e. retM (Inl e)) (\<lambda>cnt.
     if cnt = 0 then retM (Inr 0) else
     tryM (rowM [''version''] (\<lambda>d. case version_rows d of [] \<Rightarrow> None | v # _ \<Rightarrow> Some v))
       (\<lambda>e. if e = ErrNoRows then retM (Inr 0) else retM (Inl e))
       (\<lambda>v. retM (Inr v))))"

definition migrateToVer1 :: "(db, goerr + unit) prog" where
  "migrateToVer1 =
     tryM (scriptM [drop_table ''space_usage_history'', create_table ''space_usage_history''])
       (\<lambda>e. retM (Inl e)) (\<lambda>_.
     tryM (scriptM [drop_table ''bandwidth_usage_history'', create_table ''bandwidth_usage_history''])
       (\<lambda>e. retM (Inl e)) (\<lambda>_.
     tryM (scriptM [drop_table ''version'', create_table ''version'',
         sqlM [''version''] (\<lambda>d. ((), d\<lparr>version_rows := version_rows d @ [1]\<rparr>))])
       (\<lambda>e. retM (Inl e)) (\<lambda>_. retM (Inr ()))))"

text \<open>The errors of \<^verbatim>\<open>DropAllTables\<close> and \<^verbatim>\<open>CreateTablesIfNotExist\<close> are dropped here.\<close>

definition PerformDbMigrations :: "(db, goerr + unit) prog" where
  "PerformDbMigrations =
     bindM getDbVersion (\<lambda>r.
       let dbVersion = (case r of Inl _ \<Rightarrow> -1 | Inr v \<Rightarrow> v) in
       if dbVersion = -1 then
         bindM DropAllTables (\<lambda>_. bindM CreateTablesIfNotExist (\<lambda>_. migrateToVer1))
       else if dbVersion = 0 then migrateToVer1
       else retM (Inr ()))"

text \<open>
  \<^verbatim>\<open>BackupTo\<close> copies the whole source database over the destination with SQLite's backup API;
  any error is fatal. The copied content is everything but the destination's own faults.
\<close>

definition BackupTo :: "db \<Rightarrow> db \<Rightarrow> unit go \<times> db" where
  "BackupTo dbSrc dbDst = (case db_faults dbDst of
       Some e # fs \<Rightarrow> (Fatal, dbDst\<lparr>db_faults := fs\<rparr>)
     | fs \<Rightarrow> (Ret (), dbSrc\<lparr>db_faults := tl fs\<rparr>))"

subsection \<open>Directory entries\<close>

definition HasDirEnt :: "string \<Rightarrow> string \<Rightarrow> (db, goerr + (bool \<times> int \<times> int)) prog" where
  "HasDirEnt rootDirName relPath =
     bindM (rowM [''dirents''] (\<lambda>d. map_option (\<lambda>r. (de_id r, de_last_backup r))
         (List.find (\<lambda>r. de_rootdir r = rootDirName \<and> de_relpath r = relPath) (dirents d))))
       (\<lambda>r. case r of
          Inl e \<Rightarrow> if e = ErrNoRows then retM (Inr (False, 0, 0)) else retM (Inl e)
        | Inr (i, lastBackupUnix) \<Rightarrow> retM (Inr (True, lastBackupUnix, i)))"

record InsertDirEntStmt =
  ide_rows :: "(string \<times> string \<times> int) list"

definition NewInsertDirEntStmt :: "(db, goerr + InsertDirEntStmt) prog" where
  "NewInsertDirEntStmt =
     tryM (sqlM [] (\<lambda>d. ((), d))) (\<lambda>e. retM (Inl e)) (\<lambda>_.
     tryM (sqlM [''dirents''] (\<lambda>d. ((), d))) (\<lambda>e. retM (Inl e)) (\<lambda>_.
     retM (Inr \<lparr>ide_rows = []\<rparr>)))"

definition InsertDirEnt ::
  "InsertDirEntStmt \<Rightarrow> string \<Rightarrow> string \<Rightarrow> int \<Rightarrow> (db, goerr + InsertDirEntStmt) prog" where
  "InsertDirEnt idst rootDirName relPath lastBackupUnix =
     sqlM [''dirents''] (\<lambda>d. (\<lparr>ide_rows = ide_rows idst @ [(rootDirName, relPath, lastBackupUnix)]\<rparr>, d))"

fun insert_dirents :: "(string \<times> string \<times> int) list \<Rightarrow> db \<Rightarrow> db" where
  "insert_dirents [] d = d"
| "insert_dirents ((root, rel, t) # rows) d = insert_dirents rows
     (d\<lparr>dirents := dirents d @ [\<lparr>de_id = dirents_seq d + 1, de_rootdir = root, de_relpath = rel,
           de_last_backup = t\<rparr>],
        dirents_seq := dirents_seq d + 1\<rparr>)"

definition CloseInsertDirEnt :: "InsertDirEntStmt \<Rightarrow> (db, unit) prog" where
  "CloseInsertDirEnt idst =
     bindM (sqlM [] (\<lambda>d. ((), insert_dirents (ide_rows idst) d))) (\<lambda>_. retM ())"

text \<open>
  \<^verbatim>\<open>GetAllKnownPaths\<close> pastes the name between quotes. A doubled quote is SQL for one quote; a
  single one ends the literal, and what SQLite makes of the rest is \<open>db_where\<close>.
\<close>

fun sql_unquote :: "string \<Rightarrow> string option" where
  "sql_unquote [] = Some []"
| "sql_unquote (c # s) =
     (if c \<noteq> CHR 0x27 then map_option ((#) c) (sql_unquote s)
      else (case s of [] \<Rightarrow> None
            | c' # s' \<Rightarrow> if c' = CHR 0x27 then map_option ((#) c) (sql_unquote s') else None))"

definition known_rows :: "string \<Rightarrow> db \<Rightarrow> (int \<times> string \<times> string) list option" where
  "known_rows rootDirName d = (case sql_unquote rootDirName of
       Some n \<Rightarrow> Some (map (\<lambda>r. (de_id r, de_rootdir r, de_relpath r))
                   (filter (\<lambda>r. de_rootdir r = n) (dirents d)))
     | None \<Rightarrow> db_where d rootDirName)"

definition GetAllKnownPaths :: "string \<Rightarrow> (db, (string \<times> int) list) prog" where
  "GetAllKnownPaths rootDirName =
     bindM (sqlM [''dirents''] (\<lambda>d. (known_rows rootDirName d, d))) (\<lambda>r. case r of
         Inl e \<Rightarrow> liftGo Fatal
       | Inr None \<Rightarrow> liftGo Fatal
       | Inr (Some rows) \<Rightarrow>
           retM (fold (\<lambda>(i, rootdir, relpath) paths. map_put (rootdir @ ''/'' @ relpath) i paths) rows []))"

definition set_last_backup :: "(dirent_row \<Rightarrow> bool) \<Rightarrow> int \<Rightarrow> db \<Rightarrow> db" where
  "set_last_backup p t d = d\<lparr>dirents := map (\<lambda>r. if p r then r\<lparr>de_last_backup := t\<rparr> else r) (dirents d)\<rparr>"

text \<open>The second argument is \<^verbatim>\<open>strftime('%s','now')\<close>.\<close>

definition UpdateLastBackupTime :: "int \<Rightarrow> int \<Rightarrow> (db, goerr + unit) prog" where
  "UpdateLastBackupTime dirEntId now =
     execM [''dirents''] (set_last_backup (\<lambda>r. de_id r = dirEntId) now)"

definition getDirEntById :: "int \<Rightarrow> (db, goerr + dirent_row) prog" where
  "getDirEntById dirEntId =
     rowM [''dirents''] (\<lambda>d. List.find (\<lambda>r. de_id r = dirEntId) (dirents d))"

definition GetDirEntPaths :: "int \<Rightarrow> (db, goerr + (string \<times> string)) prog" where
  "GetDirEntPaths dirEntId =
     tryM (getDirEntById dirEntId) (\<lambda>e. retM (Inl e))
       (\<lambda>r. retM (Inr (de_rootdir r, de_relpath r)))"

definition DeleteDirEntByPath :: "string \<Rightarrow> string \<Rightarrow> (db, goerr + unit) prog" where
  "DeleteDirEntByPath rootDirName relPath =
     execM [''dirents''] (\<lambda>d. d\<lparr>dirents :=
       filter (\<lambda>r. \<not> (de_rootdir r = rootDirName \<and> de_relpath r = relPath)) (dirents d)\<rparr>)"

definition ResetLastBackedUpTimeForEntireBackup :: "string \<Rightarrow> (db, goerr + unit) prog" where
  "ResetLastBackedUpTimeForEntireBackup rootDirName =
     execM [''dirents''] (set_last_backup (\<lambda>r. de_rootdir r = rootDirName) 0)"

definition ResetLastBackedUpTimeForAllDirents :: "(db, goerr + unit) prog" where
  "ResetLastBackedUpTimeForAllDirents = execM [''dirents''] (set_last_backup (\<lambda>_. True) 0)"

subsection \<open>Reasoning about statements\<close>

lemma sqlM_cases:
  assumes "sqlM tbls f d = (r, d')"
  obtains (err) e where "r = Ret (Inl e)" "d' = d\<lparr>db_faults := tl (db_faults d)\<rparr>"
    | (ok) a where "r = Ret (Inr a)" "f (d\<lparr>db_faults := tl (db_faults d)\<rparr>) = (a, d')"
        "set tbls \<subseteq> set (db_tables d)"
  using assms by (auto simp: sqlM_def Let_def split: list.splits option.splits prod.splits if_splits)

lemma stmtM_cases:
  assumes "stmtM tbls f d = (r, d')"
  obtains (err) e fs where "r = Ret (Inl e)" "d' = d\<lparr>db_faults := fs\<rparr>"
    | (ok) a fs where "r = Ret (Inr a)" "f (d\<lparr>db_faults := fs\<rparr>) = (a, d')"
proof -
  obtain r1 d1 where 1: "sqlM tbls (\<lambda>d. ((), d)) d = (r1, d1)" by fastforce
  from 1 show ?thesis
  proof (cases rule: sqlM_cases)
    case (err e)
    with 1 assms that(1) show ?thesis by (auto simp: stmtM_def go_run)
  next
    case (ok a)
    with 1 assms have "sqlM tbls f d1 = (r, d')" by (auto simp: stmtM_def go_run)
    then show ?thesis using ok that by (cases rule: sqlM_cases) auto
  qed
qed

lemma rowM_cases:
  assumes "rowM tbls f d = (r, d')"
  obtains fs where "d' = d\<lparr>db_faults := fs\<rparr>"
    "(\<exists>e. r = Ret (Inl e)) \<or> (\<exists>a gs. r = Ret (Inr a) \<and> f (d\<lparr>db_faults := gs\<rparr>) = Some a)"
proof -
  obtain r1 d1 where 1: "stmtM tbls (\<lambda>d. (f d, d)) d = (r1, d1)" by fastforce
  from 1 show ?thesis
  proof (cases rule: stmtM_cases)
    case (err e fs)
    with 1 assms that show ?thesis by (auto simp: rowM_def go_run)
  next
    case (ok a fs)
    with 1 assms that show ?thesis by (auto simp: rowM_def go_run split: option.splits)
  qed
qed

text \<open>When no fault is pending and the tables exist, statements do what they say.\<close>

definition db_ready :: "db \<Rightarrow> bool" where
  "db_ready d \<longleftrightarrow> db_faults d = [] \<and>
     {''dirents'', ''backup_info'', ''backup_journal''} \<subseteq> set (db_tables d)"

lemma db_faults_same [simp]: "db_faults d = [] \<Longrightarrow> d\<lparr>db_faults := []\<rparr> = d"
  by (cases d) simp

lemma sqlM_ready [go_run]:
  "db_faults d = [] \<Longrightarrow> set tbls \<subseteq> set (db_tables d) \<Longrightarrow>
     sqlM tbls f d = (Ret (Inr (fst (f d))), snd (f d))"
  by (simp add: sqlM_def Let_def split: prod.splits)

lemma stmtM_ready [go_run]:
  "db_faults d = [] \<Longrightarrow> set tbls \<subseteq> set (db_tables d) \<Longrightarrow>
     stmtM tbls f d = (Ret (Inr (fst (f d))), snd (f d))"
  by (simp add: stmtM_def tryM_def bindM_def sqlM_ready)

lemma rowM_ready [go_run]:
  "db_faults d = [] \<Longrightarrow> set tbls \<subseteq> set (db_tables d) \<Longrightarrow>
     rowM tbls f d = (Ret (case f d of None \<Rightarrow> Inl ErrNoRows | Some a \<Rightarrow> Inr a), d)"
  by (simp add: rowM_def tryM_def bindM_def stmtM_ready)

lemma execM_ready [go_run]:
  "db_faults d = [] \<Longrightarrow> set tbls \<subseteq> set (db_tables d) \<Longrightarrow> execM tbls f d = (Ret (Inr ()), f d)"
  by (simp add: execM_def stmtM_ready)

lemmas db_ready_run = sqlM_ready stmtM_ready rowM_ready execM_ready

text \<open>Invariants that do not look at the pending faults.\<close>

definition fault_free :: "(db \<Rightarrow> bool) \<Rightarrow> bool" where
  "fault_free P \<longleftrightarrow> (\<forall>d fs. P (d\<lparr>db_faults := fs\<rparr>) = P d)"

lemma fault_freeD [simp]: "fault_free P \<Longrightarrow> P (d\<lparr>db_faults := fs\<rparr>) = P d"
  by (simp add: fault_free_def)

lemma preserves_sqlM [go_preserves]:
  assumes "fault_free P" "\<And>d. P d \<Longrightarrow> P (snd (f d))"
  shows "preserves P (sqlM tbls f)"
proof (rule preservesI)
  fix d assume "P d"
  then have "P (d\<lparr>db_faults := tl (db_faults d)\<rparr>)" using assms(1) by simp
  with assms(2) [OF this] show "P (snd (sqlM tbls f d))"
    by (auto simp: sqlM_def Let_def split: list.splits option.splits prod.splits)
qed

lemma preserves_stmtM [go_preserves]:
  "fault_free P \<Longrightarrow> (\<And>d. P d \<Longrightarrow> P (snd (f d))) \<Longrightarrow> preserves P (stmtM tbls f)"
  unfolding stmtM_def by (intro preserves_tryM preserves_sqlM) auto

lemma preserves_rowM [go_preserves]: "fault_free P \<Longrightarrow> preserves P (rowM tbls f)"
  unfolding rowM_def by (intro preserves_tryM preserves_stmtM) auto

lemma preserves_execM [go_preserves]:
  "fault_free P \<Longrightarrow> (\<And>d. P d \<Longrightarrow> P (f d)) \<Longrightarrow> preserves P (execM tbls f)"
  unfolding execM_def by (intro preserves_stmtM) auto

subsection \<open>The key invariant\<close>

text \<open>Every id is positive, unique, in order, and not above its autoincrement counter.\<close>

definition ids_ok :: "int list \<Rightarrow> int \<Rightarrow> bool" where
  "ids_ok xs n \<longleftrightarrow> sorted_wrt (<) xs \<and> (\<forall>i \<in> set xs. 0 < i \<and> i \<le> n) \<and> 0 \<le> n"

definition db_ok :: "db \<Rightarrow> bool" where
  "db_ok d \<longleftrightarrow> ids_ok (map de_id (dirents d)) (dirents_seq d) \<and>
     ids_ok (map bi_id (backup_info d)) (backup_info_seq d) \<and>
     ids_ok (map bj_id (backup_journal d)) (backup_journal_seq d) \<and>
     ids_ok (map ur_id (space_usage_history d)) (space_usage_seq d) \<and>
     ids_ok (map ur_id (bandwidth_usage_history d)) (bandwidth_usage_seq d)"

lemma fault_free_db_ok [simp]: "fault_free db_ok"
  by (simp add: fault_free_def db_ok_def)

lemma db_ok_version [simp]: "db_ok (d\<lparr>version_rows := v\<rparr>) = db_ok d"
  by (simp add: db_ok_def)

lemma ids_ok_Nil [simp]: "ids_ok [] n \<longleftrightarrow> 0 \<le> n"
  by (simp add: ids_ok_def)

lemma ids_ok_append: "ids_ok xs n \<Longrightarrow> ids_ok (xs @ [n + 1]) (n + 1)"
  by (fastforce simp: ids_ok_def sorted_wrt_append)

lemma ids_ok_filter: "ids_ok (map f xs) n \<Longrightarrow> ids_ok (map f (filter p xs)) n"
  by (auto simp: ids_ok_def sorted_wrt_map sorted_wrt_filter)

lemma ids_ok_distinct: "ids_ok xs n \<Longrightarrow> distinct xs"
  by (auto simp: ids_ok_def strict_sorted_iff)

lemma map_if_same: "(\<And>r. g (f r) = g r) \<Longrightarrow> map (\<lambda>r. g (if p r then f r else r)) xs = map g xs"
  by (induction xs) auto

lemma db_ok_set_last_backup [simp]: "db_ok (set_last_backup p t d) = db_ok d"
  by (simp add: db_ok_def set_last_backup_def comp_def map_if_same)

lemma db_ok_insert_dirents: "db_ok d \<Longrightarrow> db_ok (insert_dirents rows d)"
  by (induction rows d rule: insert_dirents.induct) (auto simp: db_ok_def ids_ok_append)

lemma preserves_scriptM [go_preserves]:
  "(\<And>m. m \<in> set ms \<Longrightarrow> preserves P m) \<Longrightarrow> preserves P (scriptM ms)"
  by (induction ms) (auto intro!: preserves_tryM)

lemma db_ok_drop_table [go_preserves]: "preserves db_ok (drop_table n)"
  unfolding drop_table_def by (rule preserves_sqlM) (auto simp: db_ok_def)

lemma db_ok_create_table [go_preserves]: "preserves db_ok (create_table n)"
  unfolding create_table_def
  by (intro preserves_tryM preserves_sqlM) (auto simp: db_ok_def split: option.splits)

lemma db_ok_create_index [go_preserves]: "preserves db_ok (create_index n)"
  unfolding create_index_def by (rule preserves_sqlM) auto

lemma db_ok_schema [go_preserves]:
  "preserves db_ok DropAllTables" "preserves db_ok createTables"
  "preserves db_ok (querySingleRowCount p)"
  unfolding DropAllTables_def createTables_def querySingleRowCount_def
  by (auto intro!: go_preserves simp: db_ok_drop_table db_ok_create_table db_ok_create_index)

lemma db_ok_CreateTablesIfNotExist [go_preserves]: "preserves db_ok CreateTablesIfNotExist"
  unfolding CreateTablesIfNotExist_def by (intro go_preserves)

lemma db_ok_PerformDbMigrations [go_preserves]: "preserves db_ok PerformDbMigrations"
proof -
  have "preserves db_ok getDbVersion"
    unfolding getDbVersion_def by (intro go_preserves) auto
  moreover have "preserves db_ok migrateToVer1"
    unfolding migrateToVer1_def
    by (auto intro!: preserves_tryM preserves_scriptM preserves_sqlM go_preserves)
  ultimately show ?thesis
    unfolding PerformDbMigrations_def Let_def
    by (auto intro!: preserves_bindM preserves_if db_ok_schema db_ok_CreateTablesIfNotExist)
qed

lemma db_ok_BackupTo: "db_ok src \<Longrightarrow> db_ok dst \<Longrightarrow> db_ok (snd (BackupTo src dst))"
  by (simp add: BackupTo_def split: list.splits option.splits)

lemma db_ok_dirents [go_preserves]:
  "preserves db_ok (HasDirEnt root rel)" "preserves db_ok NewInsertDirEntStmt"
  "preserves db_ok (InsertDirEnt st root rel t)" "preserves db_ok (CloseInsertDirEnt st)"
  "preserves db_ok (GetAllKnownPaths root)" "preserves db_ok (UpdateLastBackupTime i now)"
  "preserves db_ok (getDirEntById i)" "preserves db_ok (GetDirEntPaths i)"
  "preserves db_ok (DeleteDirEntByPath root rel)"
  "preserves db_ok (ResetLastBackedUpTimeForEntireBackup root)"
  "preserves db_ok ResetLastBackedUpTimeForAllDirents"
proof -
  show get: "preserves db_ok (getDirEntById i)"
    unfolding getDirEntById_def by (intro go_preserves) auto
  show "preserves db_ok (GetDirEntPaths i)"
    unfolding GetDirEntPaths_def by (intro preserves_tryM preserves_retM get)
  show "preserves db_ok (DeleteDirEntByPath root rel)"
    unfolding DeleteDirEntByPath_def
    by (rule preserves_execM) (auto simp: db_ok_def intro: ids_ok_filter)
  show "preserves db_ok (CloseInsertDirEnt st)"
    unfolding CloseInsertDirEnt_def
    by (intro preserves_bindM preserves_sqlM preserves_retM) (auto simp: db_ok_insert_dirents)
  show "preserves db_ok (GetAllKnownPaths root)"
    unfolding GetAllKnownPaths_def
    by (intro preserves_bindM preserves_sqlM) (auto split: sum.splits option.splits)
  show "preserves db_ok (HasDirEnt root rel)"
    unfolding HasDirEnt_def by (intro preserves_bindM preserves_rowM) (auto split: sum.splits)
qed (unfold NewInsertDirEntStmt_def InsertDirEnt_def UpdateLastBackupTime_def
       ResetLastBackedUpTimeForEntireBackup_def ResetLastBackedUpTimeForAllDirents_def,
     intro go_preserves; simp)+

subsection \<open>The known paths\<close>

lemma sql_unquote_plain: "CHR 0x27 \<notin> set n \<Longrightarrow> sql_unquote n = Some n"
  by (induction n) auto

text \<open>
  \<^verbatim>\<open>GetAllKnownPaths\<close> puts the directory name into its statement as it is. For a name without a
  quote the answer has exactly the paths of the rows of that directory; a name with an odd number of
  quotes at its end, such as \<^verbatim>\<open>Bob'\<close>, can leave a statement that does not parse, and the process
  exits.
\<close>

theorem known_paths:
  assumes "db_faults d = []" "''dirents'' \<in> set (db_tables d)"
  shows "(CHR 0x27 \<notin> set root \<longrightarrow> (\<exists>m. GetAllKnownPaths root d = (Ret m, d) \<and>
      fst ` set m = (\<lambda>r. root @ ''/'' @ de_relpath r) ` {r \<in> set (dirents d). de_rootdir r = root})) \<and>
    (sql_unquote root = None \<longrightarrow> db_where d root = None \<longrightarrow> GetAllKnownPaths root d = (Fatal, d))"
proof -
  let ?rows = "map (\<lambda>r. (de_id r, de_rootdir r, de_relpath r)) (filter (\<lambda>r. de_rootdir r = root) (dirents d))"
  have run: "GetAllKnownPaths root d = (case known_rows root d of None \<Rightarrow> (Fatal, d)
      | Some rows \<Rightarrow> (Ret (fold (\<lambda>(i, rootdir, relpath) paths. map_put (rootdir @ ''/'' @ relpath) i paths) rows []), d))"
    using assms by (simp add: GetAllKnownPaths_def bindM_def sqlM_ready split: option.splits)
  have keys: "fst ` set (fold (\<lambda>(i, rootdir, relpath) paths. map_put (rootdir @ ''/'' @ relpath) i paths) rows m)
      = fst ` set m \<union> (\<lambda>(i, r, p). r @ ''/'' @ p) ` set rows" for rows :: "(int \<times> string \<times> string) list" and m
    by (induction rows arbitrary: m) (auto simp: dom_update image_iff simp flip: dom_map_of_conv_image_fst)
  show ?thesis using keys [of ?rows "[]"]
    by (auto simp: run known_rows_def sql_unquote_plain image_image)
qed

theorem known_paths_witness:
  "fst (GetAllKnownPaths (''Bob'' @ [CHR 0x27]) (empty_db\<lparr>db_tables := [''dirents'']\<rparr>)) = Fatal"
  using known_paths [of "empty_db\<lparr>db_tables := [''dirents'']\<rparr>" "''Bob'' @ [CHR 0x27]"] by (simp add: empty_db_def)

end
