(* ===== verification/Journal.thy ===== *)
theory Journal
  imports Database
begin

section \<open>The backup journal (pkg/database/journals.go)\<close>

text \<open>
  The journal is the queue of tasks of the running backup. A row goes from \<open>Unstarted\<close> through
  \<open>InProgress\<close> to \<open>Finished\<close>; after a crash every \<open>InProgress\<close> row is rolled back. The rows of
  one backup refer to a row of \<open>backup_info\<close>, which holds its directory and its time.
\<close>

subsection \<open>Filling the journal\<close>

record InsertBackupJournalStmt =
  ibj_rows :: "(int \<times> JournalStatus \<times> ChangeType) list"
  backupsInfoId :: int

text \<open>The second argument is \<^verbatim>\<open>strftime('%s','now')\<close>. The \<open>backup_info\<close> row is not part of the
  transaction: it is there at once.\<close>

definition NewInsertBackupJournalStmt ::
  "string \<Rightarrow> int \<Rightarrow> (db, goerr + InsertBackupJournalStmt) prog" where
  "NewInsertBackupJournalStmt backupDirPath now =
     tryM (stmtM [''backup_info''] (\<lambda>d. (backup_info_seq d + 1,
         d\<lparr>backup_info := backup_info d @ [\<lparr>bi_id = backup_info_seq d + 1, bi_snapshot_time = now,
             bi_dirpath = backupDirPath\<rparr>],
           backup_info_seq := backup_info_seq d + 1\<rparr>)))
       (\<lambda>e. retM (Inl e)) (\<lambda>i.
     tryM (sqlM [] (\<lambda>d. ((), d))) (\<lambda>e. retM (Inl e)) (\<lambda>_.
     tryM (sqlM [''backup_journal''] (\<lambda>d. ((), d))) (\<lambda>e. retM (Inl e)) (\<lambda>_.
     retM (Inr \<lparr>ibj_rows = [], backupsInfoId = i\<rparr>))))"

definition InsertBackupJournalRow :: "InsertBackupJournalStmt \<Rightarrow> int \<Rightarrow> JournalStatus \<Rightarrow> ChangeType
    \<Rightarrow> (db, goerr + InsertBackupJournalStmt) prog" where
  "InsertBackupJournalRow ibst dirEntId status changeType =
     sqlM [''backup_journal'']
       (\<lambda>d. (ibst\<lparr>ibj_rows := ibj_rows ibst @ [(dirEntId, status, changeType)]\<rparr>, d))"

fun insert_journal :: "int \<Rightarrow> (int \<times> JournalStatus \<times> ChangeType) list \<Rightarrow> db \<Rightarrow> db" where
  "insert_journal b [] d = d"
| "insert_journal b ((de, st, ct) # rows) d = insert_journal b rows
     (d\<lparr>backup_journal := backup_journal d @ [\<lparr>bj_id = backup_journal_seq d + 1,
           bj_backup_info_id = b, bj_dirent_id = de, bj_change_type = ct,
           bj_index_entry = None, bj_status = st\<rparr>],
        backup_journal_seq := backup_journal_seq d + 1\<rparr>)"

definition CloseInsertBackupJournal :: "InsertBackupJournalStmt \<Rightarrow> (db, unit) prog" where
  "CloseInsertBackupJournal ibst =
     bindM (sqlM [] (\<lambda>d. ((), insert_journal (backupsInfoId ibst) (ibj_rows ibst) d))) (\<lambda>_. retM ())"

subsection \<open>Claiming and completing tasks\<close>

record BackupJournalTask =
  bjt_id :: int
  DirEntId :: int
  bjt_ChangeType :: ChangeType

definition is_status :: "JournalStatus \<Rightarrow> journal_row \<Rightarrow> bool" where
  "is_status st r \<longleftrightarrow> bj_status r = st"

definition selectNextBackupJournalCandidateTask :: "(db, goerr + (int \<times> int \<times> ChangeType)) prog" where
  "selectNextBackupJournalCandidateTask = rowM [''backup_journal''] (\<lambda>d.
     map_option (\<lambda>r. (bj_id r, bj_dirent_id r, bj_change_type r))
       (List.find (is_status Unstarted) (backup_journal d)))"

definition set_rows :: "(journal_row \<Rightarrow> bool) \<Rightarrow> (journal_row \<Rightarrow> journal_row) \<Rightarrow> db \<Rightarrow> db" where
  "set_rows p f d = d\<lparr>backup_journal := map (\<lambda>r. if p r then f r else r) (backup_journal d)\<rparr>"

text \<open>\<^verbatim>\<open>UPDATE backup_journal SET status = InProgress WHERE id = ?\<close>, with \<^verbatim>\<open>RowsAffected()\<close>.\<close>

definition update_in_progress :: "int \<Rightarrow> (db, goerr + nat) prog" where
  "update_in_progress i = stmtM [''backup_journal''] (\<lambda>d.
     (length (filter (\<lambda>r. bj_id r = i) (backup_journal d)),
      set_rows (\<lambda>r. bj_id r = i) (\<lambda>r. r\<lparr>bj_status := InProgress\<rparr>) d))"

lemma selectNext_cases:
  assumes "selectNextBackupJournalCandidateTask d = (r, d1)"
  obtains fs where "d1 = d\<lparr>db_faults := fs\<rparr>"
    "(\<exists>e. r = Ret (Inl e)) \<or> (\<exists>x. r = Ret (Inr (bj_id x, bj_dirent_id x, bj_change_type x)) \<and>
       List.find (is_status Unstarted) (backup_journal d) = Some x)"
  using assms unfolding selectNextBackupJournalCandidateTask_def
  by (auto elim!: rowM_cases)

lemma update_in_progress_cases:
  assumes "update_in_progress i d = (r, d1)"
  obtains (err) e fs where "r = Ret (Inl e)" "d1 = d\<lparr>db_faults := fs\<rparr>"
    | (ok) fs where "r = Ret (Inr (length (filter (\<lambda>r. bj_id r = i) (backup_journal d))))"
      "d1 = set_rows (\<lambda>r. bj_id r = i) (\<lambda>r. r\<lparr>bj_status := InProgress\<rparr>) (d\<lparr>db_faults := fs\<rparr>)"
  using assms unfolding update_in_progress_def by (auto elim!: stmtM_cases)

definition unstarted_count :: "db \<Rightarrow> nat" where
  "unstarted_count d = length (filter (is_status Unstarted) (backup_journal d))"

lemma journal_set_rows [simp]:
  "backup_journal (set_rows p f d) = map (\<lambda>r. if p r then f r else r) (backup_journal d)"
  by (simp add: set_rows_def)

lemma unstarted_count_claim:
  assumes "x \<in> set (backup_journal d)" "is_status Unstarted x"
  shows "unstarted_count (set_rows (\<lambda>r. bj_id r = bj_id x) (\<lambda>r. r\<lparr>bj_status := InProgress\<rparr>) d)
    < unstarted_count d"
  unfolding unstarted_count_def journal_set_rows
  by (rule length_filter_less [of x]) (use assms in \<open>auto simp: is_status_def split: if_splits\<close>)

text \<open>
  The loop of \<^verbatim>\<open>ClaimNextBackupJournalTask\<close> goes round again when the update did not hit exactly
  one row. Every round takes a row out of \<open>Unstarted\<close>, so it ends.
\<close>

function claim_loop :: "db \<Rightarrow> (goerr + BackupJournalTask) go \<times> db" where
  "claim_loop d = (case selectNextBackupJournalCandidateTask d of
       (Ret (Inl e), d1) \<Rightarrow> (Ret (Inl (if e = ErrNoRows then ErrNoWork else e)), d1)
     | (Ret (Inr (i, de, ct)), d1) \<Rightarrow> (case update_in_progress i d1 of
           (Ret (Inl e), d2) \<Rightarrow> (Ret (Inl e), d2)
         | (Ret (Inr n), d2) \<Rightarrow>
             if n = 1 then (Ret (Inr \<lparr>bjt_id = i, DirEntId = de, bjt_ChangeType = ct\<rparr>), d2)
             else claim_loop d2
         | (Fatal, d2) \<Rightarrow> (Fatal, d2) | (Panic, d2) \<Rightarrow> (Panic, d2) | (Spin, d2) \<Rightarrow> (Spin, d2))
     | (Fatal, d1) \<Rightarrow> (Fatal, d1) | (Panic, d1) \<Rightarrow> (Panic, d1) | (Spin, d1) \<Rightarrow> (Spin, d1))"
  by pat_completeness auto
termination
proof (relation "measure unstarted_count")
  fix d r d1 s x i y de ct r2 d2 n m
  assume "(r, d1) = selectNextBackupJournalCandidateTask d" "r = Ret s" "s = Inr x" "(i, y) = x"
    "(de, ct) = y" "(r2, d2) = update_in_progress i d1" "r2 = Ret n" "n = Inr m" "m \<noteq> 1"
  then have sel: "selectNextBackupJournalCandidateTask d = (Ret (Inr (i, de, ct)), d1)"
    and upd: "update_in_progress i d1 = (Ret (Inr m), d2)" by auto
  from sel obtain fs z where d1: "d1 = d\<lparr>db_faults := fs\<rparr>" "i = bj_id z"
    and z: "List.find (is_status Unstarted) (backup_journal d) = Some z"
    by (elim selectNext_cases) auto
  from upd obtain gs where "d2 = set_rows (\<lambda>r. bj_id r = i) (\<lambda>r. r\<lparr>bj_status := InProgress\<rparr>) (d1\<lparr>db_faults := gs\<rparr>)"
    by (elim update_in_progress_cases) auto
  with d1 unstarted_count_claim [of z "d\<lparr>db_faults := gs\<rparr>"] find_SomeD [OF z]
  show "(d2, d) \<in> measure unstarted_count" by (simp add: unstarted_count_def)
qed simp

declare claim_loop.simps [simp del]

definition ClaimNextBackupJournalTask :: "(db, goerr + BackupJournalTask) prog" where
  "ClaimNextBackupJournalTask = claim_loop"

definition CompleteBackupJournalTask ::
  "BackupJournalTask \<Rightarrow> bytes option \<Rightarrow> (db, goerr + unit) prog" where
  "CompleteBackupJournalTask bjt indexEntry =
     execM [''backup_journal''] (set_rows (\<lambda>r. bj_id r = bjt_id bjt)
       (\<lambda>r. r\<lparr>bj_status := Finished, bj_index_entry := indexEntry\<rparr>))"

definition deleteAllRowsBackupJournal :: "(db, goerr + unit) prog" where
  "deleteAllRowsBackupJournal = execM [''backup_journal''] (\<lambda>d. d\<lparr>backup_journal := []\<rparr>)"

definition WipeBackupJournal :: "(db, goerr + unit) prog" where
  "WipeBackupJournal = deleteAllRowsBackupJournal"

definition ResetAllInProgressBackupJournalTasks :: "(db, goerr + unit) prog" where
  "ResetAllInProgressBackupJournalTasks =
     execM [''backup_journal''] (set_rows (is_status InProgress) (\<lambda>r. r\<lparr>bj_status := Unstarted\<rparr>))"

subsection \<open>Counts and queries\<close>

definition getCountFinishedBackupJournal :: "(db, goerr + int) prog" where
  "getCountFinishedBackupJournal =
     rowM [''backup_journal''] (\<lambda>d. Some (int (length (filter (is_status Finished) (backup_journal d)))))"

definition getCountTotalBackupJournal :: "(db, goerr + int) prog" where
  "getCountTotalBackupJournal = rowM [''backup_journal''] (\<lambda>d. Some (int (length (backup_journal d))))"

definition GetBackupJournalCounts :: "(db, goerr + (int \<times> int)) prog" where
  "GetBackupJournalCounts =
     tryM getCountTotalBackupJournal (\<lambda>e. retM (Inl e)) (\<lambda>totalCount.
     tryM getCountFinishedBackupJournal (\<lambda>e. retM (Inl e)) (\<lambda>finishedCount.
     retM (Inr (finishedCount, totalCount))))"

fun max_time :: "binfo_row list \<Rightarrow> int option" where
  "max_time [] = None"
| "max_time (r # rs) = (case max_time rs of
       None \<Rightarrow> Some (bi_snapshot_time r)
     | Some t \<Rightarrow> Some (max (bi_snapshot_time r) t))"

text \<open>An empty result is \<^verbatim>\<open>NULL\<close>; its \<^verbatim>\<open>Scan\<close> error, like any other, is answered by 0.\<close>

definition GetLastCompletedBackupUnixTime :: "(db, goerr + int) prog" where
  "GetLastCompletedBackupUnixTime =
     tryM getCountTotalBackupJournal (\<lambda>e. retM (Inl e)) (\<lambda>count.
     let q = (if count > 0
         then (\<lambda>d. max_time (filter (\<lambda>b. bi_id b \<notin> bj_backup_info_id ` set (backup_journal d)) (backup_info d)))
         else (\<lambda>d. max_time (backup_info d)));
       tbls = (if count > 0 then [''backup_info'', ''backup_journal''] else [''backup_info'']) in
     tryM (sqlM tbls (\<lambda>d. ((), d))) (\<lambda>e. retM (Inl e)) (\<lambda>_.
     bindM (sqlM tbls (\<lambda>d. (q d, d))) (\<lambda>r. case r of
         Inr (Some t) \<Rightarrow> retM (Inr t)
       | _ \<Rightarrow> retM (Inr 0))))"

definition HasDirtyBackupJournal :: "(db, goerr + bool) prog" where
  "HasDirtyBackupJournal =
     tryM (rowM [''backup_journal''] (\<lambda>d. Some (length (backup_journal d)))) (\<lambda>e. retM (Inl e))
       (\<lambda>count. retM (Inr (count > 0)))"

definition GetJournaledBackupInfo :: "(db, goerr + (string \<times> int)) prog" where
  "GetJournaledBackupInfo =
     rowM [''backup_info'', ''backup_journal''] (\<lambda>d.
       map_option (\<lambda>b. (bi_dirpath b, bi_snapshot_time b))
         (List.find (\<lambda>b. bi_id b \<in> bj_backup_info_id ` set (backup_journal d)) (backup_info d)))"

definition GetAllBackupJournalRowIndexEntries :: "(db, goerr + bytes option list) prog" where
  "GetAllBackupJournalRowIndexEntries =
     stmtM [''backup_journal''] (\<lambda>d. (map bj_index_entry (backup_journal d), d))"

subsection \<open>Cancelation\<close>

definition CancelationResetLastBackupTime :: "(db, goerr + unit) prog" where
  "CancelationResetLastBackupTime =
     execM [''dirents'', ''backup_journal''] (\<lambda>d. set_last_backup (\<lambda>r. de_id r \<in> bj_dirent_id `
       set (filter (\<lambda>j. is_status InProgress j \<or> is_status Finished j) (backup_journal d))) 0 d)"

definition CancelationCleanupJournal :: "(db, goerr + unit) prog" where
  "CancelationCleanupJournal =
     tryM (execM [''backup_info'', ''backup_journal''] (\<lambda>d. d\<lparr>backup_info :=
         filter (\<lambda>b. bi_id b \<notin> bj_backup_info_id ` set (backup_journal d)) (backup_info d)\<rparr>))
       (\<lambda>e. retM (Inl e)) (\<lambda>_. deleteAllRowsBackupJournal)"

subsection \<open>The invariant is kept\<close>

lemma db_ok_set_rows: "(\<And>r. bj_id (f r) = bj_id r) \<Longrightarrow> db_ok (set_rows p f d) = db_ok d"
  by (simp add: db_ok_def set_rows_def comp_def map_if_same)

lemma db_ok_insert_journal: "db_ok d \<Longrightarrow> db_ok (insert_journal b rows d)"
  by (induction b rows d rule: insert_journal.induct) (auto simp: db_ok_def ids_ok_append)

lemma claim_loop_preserves:
  assumes ff: "fault_free P"
    and step: "\<And>i d. P d \<Longrightarrow> P (set_rows (\<lambda>r. bj_id r = i) (\<lambda>r. r\<lparr>bj_status := InProgress\<rparr>) d)"
  shows "P d \<Longrightarrow> P (snd (claim_loop d))"
proof (induction d rule: claim_loop.induct)
  case (1 d)
  obtain r d1 where sel: "selectNextBackupJournalCandidateTask d = (r, d1)" by fastforce
  then obtain fs where d1: "d1 = d\<lparr>db_faults := fs\<rparr>" by (elim selectNext_cases)
  with 1 ff have P1: "P d1" by simp
  show ?case
  proof (cases "\<exists>i de ct. r = Ret (Inr (i, de, ct))")
    case True
    then obtain i de ct where r: "r = Ret (Inr (i, de, ct))" by blast
    obtain r2 d2 where upd: "update_in_progress i d1 = (r2, d2)" by fastforce
    then show ?thesis
    proof (cases rule: update_in_progress_cases)
      case (err e gs)
      with sel r upd P1 ff show ?thesis by (simp add: claim_loop.simps [of d])
    next
      case (ok gs)
      have P2: "P d2" using ok(2) P1 ff step by simp
      let ?n = "length (filter (\<lambda>r. bj_id r = i) (backup_journal d1))"
      have "claim_loop d = (if ?n = 1
          then (Ret (Inr \<lparr>bjt_id = i, DirEntId = de, bjt_ChangeType = ct\<rparr>), d2) else claim_loop d2)"
        using sel r upd ok(1) by (simp add: claim_loop.simps [of d])
      moreover have "?n \<noteq> 1 \<Longrightarrow> P (snd (claim_loop d2))"
        using 1(1) [OF sel [symmetric] r refl refl refl upd [symmetric] ok(1) refl _ P2] by simp
      ultimately show ?thesis using P2 by simp
    qed
  next
    case False
    with sel P1 show ?thesis
      by (auto simp: claim_loop.simps [of d] split: go.splits sum.splits prod.splits)
  qed
qed

lemma db_ok_journal [go_preserves]:
  "preserves db_ok (NewInsertBackupJournalStmt dir now)"
  "preserves db_ok (InsertBackupJournalRow st i js ct)"
  "preserves db_ok (CloseInsertBackupJournal st)"
  "preserves db_ok ClaimNextBackupJournalTask"
  "preserves db_ok (CompleteBackupJournalTask bjt e)"
  "preserves db_ok WipeBackupJournal"
  "preserves db_ok ResetAllInProgressBackupJournalTasks"
  "preserves db_ok GetBackupJournalCounts"
  "preserves db_ok GetLastCompletedBackupUnixTime"
  "preserves db_ok HasDirtyBackupJournal"
  "preserves db_ok GetJournaledBackupInfo"
  "preserves db_ok GetAllBackupJournalRowIndexEntries"
  "preserves db_ok CancelationResetLastBackupTime"
  "preserves db_ok CancelationCleanupJournal"
proof -
  have del: "preserves db_ok deleteAllRowsBackupJournal"
    unfolding deleteAllRowsBackupJournal_def by (rule preserves_execM) (auto simp: db_ok_def ids_ok_def)
  then show "preserves db_ok WipeBackupJournal" by (simp add: WipeBackupJournal_def)
  show "preserves db_ok CancelationCleanupJournal"
    unfolding CancelationCleanupJournal_def
    by (intro preserves_tryM preserves_execM preserves_retM del) (auto simp: db_ok_def intro: ids_ok_filter)
  show "preserves db_ok ClaimNextBackupJournalTask"
    unfolding ClaimNextBackupJournalTask_def
    by (rule preservesI, erule claim_loop_preserves [OF fault_free_db_ok, rotated])
      (simp add: db_ok_set_rows)
  show "preserves db_ok (NewInsertBackupJournalStmt dir now)"
    unfolding NewInsertBackupJournalStmt_def
    by (intro preserves_tryM preserves_stmtM preserves_sqlM preserves_retM)
      (auto simp: db_ok_def ids_ok_append)
  show "preserves db_ok (CloseInsertBackupJournal st)"
    unfolding CloseInsertBackupJournal_def
    by (intro preserves_bindM preserves_sqlM preserves_retM) (auto simp: db_ok_insert_journal)
  show "preserves db_ok GetLastCompletedBackupUnixTime"
    unfolding GetLastCompletedBackupUnixTime_def getCountTotalBackupJournal_def Let_def
    by (intro preserves_bindM preserves_tryM preserves_rowM preserves_sqlM)
      (auto split: sum.splits option.splits)
  show "preserves db_ok GetBackupJournalCounts" "preserves db_ok HasDirtyBackupJournal"
    unfolding GetBackupJournalCounts_def getCountTotalBackupJournal_def
      getCountFinishedBackupJournal_def HasDirtyBackupJournal_def
    by (intro preserves_tryM preserves_rowM preserves_retM; simp)+
qed (unfold InsertBackupJournalRow_def CompleteBackupJournalTask_def
       ResetAllInProgressBackupJournalTasks_def GetJournaledBackupInfo_def
       GetAllBackupJournalRowIndexEntries_def CancelationResetLastBackupTime_def,
     intro go_preserves; simp add: db_ok_set_rows)+

subsection \<open>What the operations do\<close>

lemma db_ready_set_rows [simp]: "db_ready (set_rows p f d) = db_ready d"
  by (simp add: db_ready_def set_rows_def)

lemma db_readyD [simp]:
  assumes "db_ready d"
  shows "db_faults d = []" "''dirents'' \<in> set (db_tables d)" "''backup_info'' \<in> set (db_tables d)"
    "''backup_journal'' \<in> set (db_tables d)"
  using assms by (auto simp: db_ready_def)

lemma id_count_one: "distinct (map f xs) \<Longrightarrow> x \<in> set xs \<Longrightarrow> length (filter (\<lambda>y. f y = f x) xs) = 1"
proof (induction xs)
  case (Cons a xs)
  show ?case
  proof (cases "f a = f x")
    case True
    with Cons.prems have "x = a" by (auto simp: image_iff)
    moreover have "filter (\<lambda>y. f y = f a) xs = []"
      using Cons.prems by (auto simp: filter_empty_conv image_iff)
    ultimately show ?thesis by simp
  next
    case False
    with Cons show ?thesis by auto
  qed
qed simp

lemma ClaimNext_empty:
  assumes "db_ready d" "\<And>r. r \<in> set (backup_journal d) \<Longrightarrow> bj_status r \<noteq> Unstarted"
  shows "ClaimNextBackupJournalTask d = (Ret (Inl ErrNoWork), d)"
proof -
  have "List.find (is_status Unstarted) (backup_journal d) = None"
    using assms(2) by (auto simp: find_None_iff is_status_def)
  then show ?thesis using assms(1)
    by (simp add: ClaimNextBackupJournalTask_def claim_loop.simps [of d]
        selectNextBackupJournalCandidateTask_def db_ready_run)
qed

lemma ClaimNext_first:
  assumes "db_ready d" "db_ok d"
    and "backup_journal d = pre @ r # post" "bj_status r = Unstarted"
    and "\<And>x. x \<in> set pre \<Longrightarrow> bj_status x \<noteq> Unstarted"
  shows "ClaimNextBackupJournalTask d =
    (Ret (Inr \<lparr>bjt_id = bj_id r, DirEntId = bj_dirent_id r, bjt_ChangeType = bj_change_type r\<rparr>),
     d\<lparr>backup_journal := pre @ r\<lparr>bj_status := InProgress\<rparr> # post\<rparr>)"
proof -
  have dist: "distinct (map bj_id (backup_journal d))"
    using assms(2) by (auto simp: db_ok_def dest: ids_ok_distinct)
  have find: "List.find (is_status Unstarted) (backup_journal d) = Some r"
    unfolding assms(3) using assms(5,4) by (induction pre) (simp_all add: is_status_def)
  have one: "length (filter (\<lambda>x. bj_id x = bj_id r) (backup_journal d)) = 1"
    by (rule id_count_one [OF dist]) (simp add: assms(3))
  have "map (\<lambda>x. if bj_id x = bj_id r then x\<lparr>bj_status := InProgress\<rparr> else x) (backup_journal d)
      = pre @ r\<lparr>bj_status := InProgress\<rparr> # post"
    using dist assms(3) by (auto simp: image_iff intro!: map_idI)
  then have rows: "set_rows (\<lambda>x. bj_id x = bj_id r) (\<lambda>x. x\<lparr>bj_status := InProgress\<rparr>) d
      = d\<lparr>backup_journal := pre @ r\<lparr>bj_status := InProgress\<rparr> # post\<rparr>"
    by (simp add: set_rows_def)
  show ?thesis using assms(1) find one rows
    by (simp add: ClaimNextBackupJournalTask_def claim_loop.simps [of d] db_ready_run
        selectNextBackupJournalCandidateTask_def update_in_progress_def)
qed

subsection \<open>A work queue\<close>

text \<open>
  What the player of the journal relies on: a claim hands out the tasks to do in order, once
  each, and says so when there are none. Claiming until then gives all of them.
\<close>

fun claims :: "nat \<Rightarrow> ('s, goerr + 't) prog \<Rightarrow> ('s, 't list) prog" where
  "claims 0 c = retM []"
| "claims (Suc n) c = tryM c (\<lambda>_. retM []) (\<lambda>t. bindM (claims n c) (\<lambda>ts. retM (t # ts)))"

locale work_queue =
  fixes claim :: "('s, goerr + 't) prog" and todo :: "'s \<Rightarrow> 't list" and ok :: "'s \<Rightarrow> bool"
  assumes claim_none: "ok s \<Longrightarrow> todo s = [] \<Longrightarrow> claim s = (Ret (Inl ErrNoWork), s)"
    and claim_some: "ok s \<Longrightarrow> todo s = t # ts \<Longrightarrow>
      \<exists>s'. claim s = (Ret (Inr t), s') \<and> ok s' \<and> todo s' = ts"
begin

lemma claim_no_work_iff: "ok s \<Longrightarrow> fst (claim s) = Ret (Inl ErrNoWork) \<longleftrightarrow> todo s = []"
proof (cases "todo s")
  case (Cons t ts)
  assume "ok s"
  from claim_some [OF this Cons] Cons show ?thesis by auto
qed (simp add: claim_none)

lemma drain:
  "ok s \<Longrightarrow> length (todo s) \<le> n \<Longrightarrow>
     \<exists>s'. claims n claim s = (Ret (todo s), s') \<and> ok s' \<and> todo s' = []"
proof (induction n arbitrary: s)
  case (Suc n)
  show ?case
  proof (cases "todo s")
    case Nil
    then show ?thesis using claim_none [OF Suc.prems(1) Nil] Suc.prems(1) by (simp add: go_run)
  next
    case (Cons t ts)
    from claim_some [OF Suc.prems(1) Cons] obtain s1
      where s1: "claim s = (Ret (Inr t), s1)" "ok s1" "todo s1 = ts" by blast
    with Suc Cons obtain s2 where "claims n claim s1 = (Ret ts, s2)" "ok s2" "todo s2 = []"
      by fastforce
    with s1 Cons show ?thesis by (simp add: go_run)
  qed
qed simp

end

definition task_of :: "journal_row \<Rightarrow> BackupJournalTask" where
  "task_of r = \<lparr>bjt_id = bj_id r, DirEntId = bj_dirent_id r, bjt_ChangeType = bj_change_type r\<rparr>"

definition journal_todo :: "db \<Rightarrow> BackupJournalTask list" where
  "journal_todo d = map task_of (filter (is_status Unstarted) (backup_journal d))"

definition journal_ok :: "db \<Rightarrow> bool" where
  "journal_ok d \<longleftrightarrow> db_ready d \<and> db_ok d"

lemma filter_eq_ConsE:
  assumes "filter p xs = y # ys"
  obtains pre post where "xs = pre @ y # post" "\<And>x. x \<in> set pre \<Longrightarrow> \<not> p x" "p y" "filter p post = ys"
  using assms by (auto simp: filter_eq_Cons_iff)

lemma claim_some_journal:
  assumes "journal_ok d" "journal_todo d = t # ts"
  shows "\<exists>d'. ClaimNextBackupJournalTask d = (Ret (Inr t), d') \<and> journal_ok d' \<and> journal_todo d' = ts"
proof -
  from assms(2) obtain r rs where f: "filter (is_status Unstarted) (backup_journal d) = r # rs"
    and t: "t = task_of r" "ts = map task_of rs" by (auto simp: journal_todo_def)
  from f obtain pre post where j: "backup_journal d = pre @ r # post"
    "\<And>x. x \<in> set pre \<Longrightarrow> \<not> is_status Unstarted x" "is_status Unstarted r"
    "filter (is_status Unstarted) post = rs" by (elim filter_eq_ConsE) blast
  let ?d = "d\<lparr>backup_journal := pre @ r\<lparr>bj_status := InProgress\<rparr> # post\<rparr>"
  have c: "ClaimNextBackupJournalTask d = (Ret (Inr t), ?d)"
    using ClaimNext_first [of d pre r post] assms(1) j t
    by (simp add: journal_ok_def is_status_def task_of_def)
  have "db_ready ?d" using assms(1) by (simp add: journal_ok_def db_ready_def del: db_readyD)
  moreover have "db_ok ?d" using assms(1) j(1) by (simp add: journal_ok_def db_ok_def)
  moreover have "journal_todo ?d = ts"
    using j t by (auto simp: journal_todo_def is_status_def filter_empty_conv)
  ultimately show ?thesis using c by (auto simp: journal_ok_def)
qed

interpretation journal: work_queue ClaimNextBackupJournalTask journal_todo journal_ok
proof
  fix d assume "journal_ok d" "journal_todo d = []"
  then show "ClaimNextBackupJournalTask d = (Ret (Inl ErrNoWork), d)"
    by (intro ClaimNext_empty) (auto simp: journal_ok_def journal_todo_def is_status_def filter_empty_conv)
qed (rule claim_some_journal)

subsection \<open>Recovery and cancelation\<close>

lemma Reset_run:
  "db_ready d \<Longrightarrow> ResetAllInProgressBackupJournalTasks d =
     (Ret (Inr ()), set_rows (is_status InProgress) (\<lambda>r. r\<lparr>bj_status := Unstarted\<rparr>) d)"
  by (simp add: ResetAllInProgressBackupJournalTasks_def execM_ready)

lemma Complete_run:
  "db_ready d \<Longrightarrow> CompleteBackupJournalTask bjt e d =
     (Ret (Inr ()), set_rows (\<lambda>r. bj_id r = bjt_id bjt)
        (\<lambda>r. r\<lparr>bj_status := Finished, bj_index_entry := e\<rparr>) d)"
  by (simp add: CompleteBackupJournalTask_def execM_ready)

lemma Counts_run:
  "db_ready d \<Longrightarrow> GetBackupJournalCounts d =
     (Ret (Inr (int (length (filter (is_status Finished) (backup_journal d))),
                int (length (backup_journal d)))), d)"
  by (simp add: GetBackupJournalCounts_def getCountTotalBackupJournal_def
      getCountFinishedBackupJournal_def rowM_ready go_run)

lemma todo_after_reset:
  "journal_todo (set_rows (is_status InProgress) (\<lambda>r. r\<lparr>bj_status := Unstarted\<rparr>) d)
    = map task_of (filter (\<lambda>r. bj_status r \<noteq> Finished) (backup_journal d))"
proof -
  have "map task_of (filter (is_status Unstarted)
      (map (\<lambda>r. if is_status InProgress r then r\<lparr>bj_status := Unstarted\<rparr> else r) xs))
    = map task_of (filter (\<lambda>r. bj_status r \<noteq> Finished) xs)" for xs
  proof (induction xs)
    case (Cons r xs)
    then show ?case by (cases "bj_status r") (auto simp: is_status_def task_of_def)
  qed simp
  then show ?thesis by (simp add: journal_todo_def)
qed

subsection \<open>The journal as a queue\<close>

text \<open>
  C10. Claiming drains the journal. On a working database, claiming until there is no work hands out every
  unstarted task exactly once, in the order of the rows, and leaves none; and a claim answers
  \<open>ErrNoWork\<close> exactly when no task is unstarted.
\<close>

theorem claims_drain_journal:
  assumes "db_ready d" "db_ok d" "length (journal_todo d) \<le> n"
  shows "(\<exists>d'. claims n ClaimNextBackupJournalTask d = (Ret (journal_todo d), d') \<and> journal_todo d' = [] \<and>
      db_ready d' \<and> db_ok d') \<and>
    (fst (ClaimNextBackupJournalTask d) = Ret (Inl ErrNoWork) \<longleftrightarrow> journal_todo d = [])"
proof -
  have ok: "journal_ok d" using assms by (simp add: journal_ok_def)
  from journal.drain [OF ok assms(3)] journal.claim_no_work_iff [OF ok] show ?thesis
    unfolding journal_ok_def by blast
qed

text \<open>
  C11. After an interruption nothing is lost: once \<^verbatim>\<open>ResetAllInProgressBackupJournalTasks\<close> has run,
  claiming hands out every task that was not finished, started or not, and none that was.
\<close>

theorem replay_claims_unfinished:
  assumes "db_ready d" "db_ok d" "length (backup_journal d) \<le> n"
  shows "\<exists>d1 d2. ResetAllInProgressBackupJournalTasks d = (Ret (Inr ()), d1) \<and>
    claims n ClaimNextBackupJournalTask d1 =
      (Ret (map task_of (filter (\<lambda>r. bj_status r \<noteq> Finished) (backup_journal d))), d2)"
proof -
  let ?d1 = "set_rows (is_status InProgress) (\<lambda>r. r\<lparr>bj_status := Unstarted\<rparr>) d"
  have ok: "journal_ok ?d1" using assms(1,2) by (simp add: journal_ok_def db_ok_set_rows del: db_readyD)
  have "length (journal_todo ?d1) \<le> n"
    unfolding todo_after_reset using assms(3) by (simp add: order_trans [OF length_filter_le])
  from journal.drain [OF ok this] Reset_run [OF assms(1)] show ?thesis unfolding todo_after_reset by blast
qed

definition sample_journal :: db where
  "sample_journal = empty_db\<lparr>db_tables := [''dirents'', ''backup_info'', ''backup_journal''], backup_journal_seq := 3,
     backup_journal := [
       \<lparr>bj_id = 1, bj_backup_info_id = 1, bj_dirent_id = 7, bj_change_type = Updated, bj_index_entry = None, bj_status = Finished\<rparr>,
       \<lparr>bj_id = 2, bj_backup_info_id = 1, bj_dirent_id = 8, bj_change_type = Unchanged, bj_index_entry = None, bj_status = InProgress\<rparr>,
       \<lparr>bj_id = 3, bj_backup_info_id = 1, bj_dirent_id = 9, bj_change_type = Deleted, bj_index_entry = None, bj_status = Unstarted\<rparr>]\<rparr>"

lemma sample_journal_ok: "db_ready sample_journal" "db_ok sample_journal"
  by (simp_all add: sample_journal_def empty_db_def db_ready_def db_ok_def ids_ok_def del: db_readyD)

theorem claims_drain_journal_witness:
  "\<exists>d'. claims 1 ClaimNextBackupJournalTask sample_journal =
     (Ret [\<lparr>bjt_id = 3, DirEntId = 9, bjt_ChangeType = Deleted\<rparr>], d')"
  using claims_drain_journal [OF sample_journal_ok, of 1]
  by (auto simp: journal_todo_def is_status_def task_of_def sample_journal_def)

theorem replay_claims_unfinished_witness:
  "\<exists>d1 d2. ResetAllInProgressBackupJournalTasks sample_journal = (Ret (Inr ()), d1) \<and>
    claims 3 ClaimNextBackupJournalTask d1 = (Ret [\<lparr>bjt_id = 2, DirEntId = 8, bjt_ChangeType = Unchanged\<rparr>,
      \<lparr>bjt_id = 3, DirEntId = 9, bjt_ChangeType = Deleted\<rparr>], d2)"
  using replay_claims_unfinished [OF sample_journal_ok, of 3]
  by (auto simp: task_of_def sample_journal_def)

end
