(* ===== verification/Usage.thy ===== *)
theory Usage
  imports Journal
begin

section \<open>Usage history and database life cycle (pkg/database/usage.go)\<close>

text \<open>
  The history tables of space and bandwidth. The parameter \<open>localDate t\<close> is
  \<^verbatim>\<open>DATE(t,'unixepoch','localtime')\<close> and \<open>monthsBack now n\<close> is
  \<^verbatim>\<open>DATE('now','localtime','-n month','start of month')\<close>: they depend on the machine's time zone.
  Dates are compared as SQLite compares them, as text. The end of the theory puts the calls of
  the whole package together as a transition system and shows that every reachable database
  satisfies \<open>db_ok\<close>, which the lemmas of the journal assume.
\<close>

subsection \<open>Reports\<close>

definition AddSpaceUsageReport ::
  "(int \<Rightarrow> string) \<Rightarrow> (int \<Rightarrow> int \<Rightarrow> string) \<Rightarrow> int \<Rightarrow> int \<Rightarrow> int \<Rightarrow> (db, goerr + unit) prog" where
  "AddSpaceUsageReport localDate monthsBack now unixtime bcount =
     tryM (execM [''space_usage_history''] (\<lambda>d. d\<lparr>
         space_usage_history := space_usage_history d @
           [\<lparr>ur_id = space_usage_seq d + 1, ur_date = unixtime, ur_used = bcount\<rparr>],
         space_usage_seq := space_usage_seq d + 1\<rparr>)) (\<lambda>e. retM (Inl e)) (\<lambda>_.
     execM [''space_usage_history''] (\<lambda>d. d\<lparr>
         space_usage_history :=
           filter (\<lambda>r. \<not> localDate (ur_date r) < monthsBack now 3) (space_usage_history d)\<rparr>))"

definition AddBandwidthUsageReport ::
  "(int \<Rightarrow> string) \<Rightarrow> (int \<Rightarrow> int \<Rightarrow> string) \<Rightarrow> int \<Rightarrow> int \<Rightarrow> int \<Rightarrow> (db, goerr + unit) prog" where
  "AddBandwidthUsageReport localDate monthsBack now unixtime bcount =
     tryM (execM [''bandwidth_usage_history''] (\<lambda>d. d\<lparr>
         bandwidth_usage_history := bandwidth_usage_history d @
           [\<lparr>ur_id = bandwidth_usage_seq d + 1, ur_date = unixtime, ur_used = bcount\<rparr>],
         bandwidth_usage_seq := bandwidth_usage_seq d + 1\<rparr>)) (\<lambda>e. retM (Inl e)) (\<lambda>_.
     execM [''bandwidth_usage_history''] (\<lambda>d. d\<lparr>
         bandwidth_usage_history :=
           filter (\<lambda>r. \<not> localDate (ur_date r) < monthsBack now 3) (bandwidth_usage_history d)\<rparr>))"

record DailyUsage =
  DateYMD :: string
  ByteCnt :: int

text \<open>
  \<^verbatim>\<open>GROUP BY day ORDER BY date\<close>: the groups appear in the order of time, which is the order of
  their days.
\<close>

definition daily :: "(int \<Rightarrow> string) \<Rightarrow> (int list \<Rightarrow> int) \<Rightarrow> string \<Rightarrow> usage_row list \<Rightarrow> DailyUsage list" where
  "daily localDate agg cutoff rows =
     (let recent = filter (\<lambda>r. cutoff < localDate (ur_date r)) rows in
      map (\<lambda>day. \<lparr>DateYMD = day,
             ByteCnt = agg (map ur_used (filter (\<lambda>r. localDate (ur_date r) = day) recent))\<rparr>)
        (sort (remdups (map (\<lambda>r. localDate (ur_date r)) recent))))"

fun max_list :: "int list \<Rightarrow> int" where
  "max_list [] = 0"
| "max_list [x] = x"
| "max_list (x # y # xs) = max x (max_list (y # xs))"

definition GetPeakDailySpaceUsage ::
  "(int \<Rightarrow> string) \<Rightarrow> (int \<Rightarrow> int \<Rightarrow> string) \<Rightarrow> int \<Rightarrow> int \<Rightarrow> (db, goerr + DailyUsage list) prog" where
  "GetPeakDailySpaceUsage localDate monthsBack now prevNMonths =
     sqlM [''space_usage_history'']
       (\<lambda>d. (daily localDate max_list (monthsBack now prevNMonths) (space_usage_history d), d))"

definition GetTotalDailyBandwidthUsage ::
  "(int \<Rightarrow> string) \<Rightarrow> (int \<Rightarrow> int \<Rightarrow> string) \<Rightarrow> int \<Rightarrow> int \<Rightarrow> (db, goerr + DailyUsage list) prog" where
  "GetTotalDailyBandwidthUsage localDate monthsBack now prevNMonths =
     sqlM [''bandwidth_usage_history'']
       (\<lambda>d. (daily localDate sum_list (monthsBack now prevNMonths) (bandwidth_usage_history d), d))"

lemma db_ok_usage [go_preserves]:
  "preserves db_ok (AddSpaceUsageReport ld mb now t b)"
  "preserves db_ok (AddBandwidthUsageReport ld mb now t b)"
  "preserves db_ok (GetPeakDailySpaceUsage ld mb now n)"
  "preserves db_ok (GetTotalDailyBandwidthUsage ld mb now n)"
  unfolding AddSpaceUsageReport_def AddBandwidthUsageReport_def GetPeakDailySpaceUsage_def
    GetTotalDailyBandwidthUsage_def
  by (intro preserves_tryM preserves_execM preserves_sqlM preserves_retM;
      auto simp: db_ok_def ids_ok_append intro: ids_ok_filter)+

lemma daily_days: "map DateYMD (daily ld agg c rows) =
    sort (remdups (map (\<lambda>r. ld (ur_date r)) (filter (\<lambda>r. c < ld (ur_date r)) rows)))"
  by (simp add: daily_def Let_def comp_def)

lemma sum_groups:
  fixes g :: "'b \<Rightarrow> int"
  assumes "finite K"
  shows "f ` set xs \<subseteq> K \<Longrightarrow> (\<Sum>k \<in> K. sum_list (map g (filter (\<lambda>x. f x = k) xs))) = sum_list (map g xs)"
proof (induction xs)
  case (Cons x xs)
  have "(\<Sum>k \<in> K. sum_list (map g (filter (\<lambda>x. f x = k) (x # xs))))
      = (\<Sum>k \<in> K. (if f x = k then g x else 0) + sum_list (map g (filter (\<lambda>x. f x = k) xs)))"
    by (rule sum.cong) auto
  with Cons assms show ?case by (simp add: sum.distrib)
qed simp

text \<open>The daily totals are all the traffic of the period, each report counted once.\<close>

lemma daily_sum_total:
  "sum_list (map ByteCnt (daily ld sum_list c rows)) =
     sum_list (map ur_used (filter (\<lambda>r. c < ld (ur_date r)) rows))"
proof -
  let ?rs = "filter (\<lambda>r. c < ld (ur_date r)) rows"
  let ?f = "\<lambda>day. sum_list (map ur_used (filter (\<lambda>r. ld (ur_date r) = day) ?rs))"
  have "sum_list (map ByteCnt (daily ld sum_list c rows)) =
      sum_list (map ?f (sort (remdups (map (\<lambda>r. ld (ur_date r)) ?rs))))"
    by (simp add: daily_def Let_def comp_def)
  also have "\<dots> = (\<Sum>k \<in> (\<lambda>r. ld (ur_date r)) ` set ?rs. ?f k)"
    by (subst sum_list_distinct_conv_sum_set) auto
  also have "\<dots> = sum_list (map ur_used ?rs)"
    by (rule sum_groups) auto
  finally show ?thesis .
qed

subsection \<open>Reachable databases\<close>

text \<open>The journal's lemmas ask for \<open>db_ok\<close>; here is that every database the program can make has it.\<close>

definition void :: "('s, 'a) prog \<Rightarrow> ('s, unit) prog" where
  "void m = bindM m (\<lambda>_. retM ())"

text \<open>The calls of the package that can change the file.\<close>

inductive db_call :: "(db, unit) prog \<Rightarrow> bool" where
  "db_call (void PerformDbMigrations)"
| "db_call (void CreateTablesIfNotExist)"
| "db_call (void DropAllTables)"
| "db_call (void (HasDirEnt root rel))"
| "db_call (void (GetAllKnownPaths root))"
| "db_call (void NewInsertDirEntStmt)"
| "db_call (void (InsertDirEnt ids root rel t))"
| "db_call (CloseInsertDirEnt ids)"
| "db_call (void (UpdateLastBackupTime i now))"
| "db_call (void (GetDirEntPaths i))"
| "db_call (void (DeleteDirEntByPath root rel))"
| "db_call (void (ResetLastBackedUpTimeForEntireBackup root))"
| "db_call (void ResetLastBackedUpTimeForAllDirents)"
| "db_call (void (NewInsertBackupJournalStmt dir now))"
| "db_call (void (InsertBackupJournalRow ibs i js ct))"
| "db_call (CloseInsertBackupJournal ibs)"
| "db_call (void ClaimNextBackupJournalTask)"
| "db_call (void (CompleteBackupJournalTask bjt e))"
| "db_call (void WipeBackupJournal)"
| "db_call (void ResetAllInProgressBackupJournalTasks)"
| "db_call (void GetBackupJournalCounts)"
| "db_call (void GetLastCompletedBackupUnixTime)"
| "db_call (void HasDirtyBackupJournal)"
| "db_call (void GetJournaledBackupInfo)"
| "db_call (void GetAllBackupJournalRowIndexEntries)"
| "db_call (void CancelationResetLastBackupTime)"
| "db_call (void CancelationCleanupJournal)"
| "db_call (void (AddSpaceUsageReport ld mb now t b))"
| "db_call (void (AddBandwidthUsageReport ld mb now t b))"
| "db_call (void (GetPeakDailySpaceUsage ld mb now n))"
| "db_call (void (GetTotalDailyBandwidthUsage ld mb now n))"

text \<open>
  A database file comes into being empty, is changed by calls that may fail at any statement
  (the environment sets the faults to come), and may be overwritten by another (\<^verbatim>\<open>BackupTo\<close>).
\<close>

inductive db_reach :: "db \<Rightarrow> bool" where
  init: "db_reach empty_db"
| fault: "db_reach d \<Longrightarrow> db_reach (d\<lparr>db_faults := fs, db_where := wh\<rparr>)"
| call: "db_reach d \<Longrightarrow> db_call m \<Longrightarrow> db_reach (snd (m d))"
| copy: "db_reach src \<Longrightarrow> db_reach dst \<Longrightarrow> db_reach (snd (BackupTo src dst))"

lemma preserves_void [go_preserves]: "preserves P m \<Longrightarrow> preserves P (void m)"
  unfolding void_def by (intro preserves_bindM preserves_retM)

lemma db_call_ok: "db_call m \<Longrightarrow> preserves db_ok m"
  by (erule db_call.cases; hypsubst; (rule preserves_void)?;
      rule db_ok_PerformDbMigrations db_ok_CreateTablesIfNotExist db_ok_schema
      db_ok_dirents db_ok_journal db_ok_usage)

lemma db_reach_ok: "db_reach d \<Longrightarrow> db_ok d"
proof (induction rule: db_reach.induct)
  case init
  then show ?case by (simp add: empty_db_def db_ok_def)
next
  case (fault d fs wh)
  then show ?case by (simp add: db_ok_def)
next
  case (call d m)
  then show ?case by (simp add: preservesD [OF db_call_ok])
next
  case (copy src dst)
  then show ?case by (simp add: db_ok_BackupTo)
qed

subsection \<open>Migrations\<close>

definition table_names :: "string list" where
  "table_names = [''dirents'', ''backup_info'', ''backup_journal'', ''space_usage_history'',
     ''bandwidth_usage_history'', ''version'']"

lemmas migration_defs = PerformDbMigrations_def getDbVersion_def querySingleRowCount_def
  DropAllTables_def CreateTablesIfNotExist_def createTables_def migrateToVer1_def drop_table_def
  create_table_def create_index_def

lemma migrate_fresh:
  "PerformDbMigrations empty_db =
     (Ret (Inr ()), empty_db\<lparr>db_tables := table_names, version_rows := [1]\<rparr>)"
  by (simp add: migration_defs empty_db_def table_names_def bindM_def tryM_def sqlM_def Let_def)

lemma migrate_current:
  assumes "db_faults d = []" "filter (\<lambda>n. n = ''version'') (db_tables d) \<noteq> []"
    and "version_rows d = [1]"
  shows "PerformDbMigrations d = (Ret (Inr ()), d)"
proof -
  have v: "''version'' \<in> set (db_tables d)" using assms(2) by (auto simp: filter_empty_conv)
  then have "filter (\<lambda>n. n \<noteq> ''sqlite_sequence'') (db_tables d) \<noteq> []"
    by (auto simp: filter_empty_conv intro!: bexI [of _ "''version''"])
  with assms v show ?thesis
    by (simp add: PerformDbMigrations_def getDbVersion_def querySingleRowCount_def bindM_def tryM_def
        db_ready_run)
qed

lemma migrate_0:
  assumes "db_faults d = []" "db_tables d = [''dirents'', ''backup_info'', ''backup_journal'']"
  shows "PerformDbMigrations d = (Ret (Inr ()), d\<lparr>db_tables := table_names,
     space_usage_history := [], space_usage_seq := 0, bandwidth_usage_history := [],
     bandwidth_usage_seq := 0, version_rows := [1]\<rparr>)"
  using assms by (cases d) (simp add: migration_defs table_names_def bindM_def tryM_def sqlM_def Let_def)

text \<open>
  Any failure to read the version, for instance a lock held by another process, is taken for a
  fresh database, and everything recorded is dropped.
\<close>

lemma migrate_after_read_error:
  assumes "db_faults d = [Some e]" "db_tables d = table_names"
  shows "fst (PerformDbMigrations d) = Ret (Inr ()) \<and> dirents (snd (PerformDbMigrations d)) = [] \<and>
    backup_info (snd (PerformDbMigrations d)) = [] \<and> backup_journal (snd (PerformDbMigrations d)) = []"
  using assms
  by (cases d) (simp add: migration_defs bindM_def tryM_def sqlM_def Let_def table_names_def)

subsection \<open>What migrations do\<close>

text \<open>
  C40. Migrations: a new database gets all the tables and version 1; a database of version 0 keeps its
  directory entries and its journal and gets the usage tables; a current one is not touched.
\<close>

theorem migrations_keep_data:
  "PerformDbMigrations empty_db = (Ret (Inr ()), empty_db\<lparr>db_tables := table_names, version_rows := [1]\<rparr>) \<and>
   (db_faults d = [] \<longrightarrow> db_tables d = [''dirents'', ''backup_info'', ''backup_journal''] \<longrightarrow>
     (\<exists>d'. PerformDbMigrations d = (Ret (Inr ()), d') \<and> dirents d' = dirents d \<and> backup_info d' = backup_info d \<and>
        backup_journal d' = backup_journal d \<and> db_tables d' = table_names \<and> version_rows d' = [1])) \<and>
   (db_faults d = [] \<longrightarrow> filter (\<lambda>n. n = ''version'') (db_tables d) \<noteq> [] \<longrightarrow> version_rows d = [1] \<longrightarrow>
     PerformDbMigrations d = (Ret (Inr ()), d))"
  using migrate_fresh migrate_0 [of d] migrate_current [of d] by simp

theorem migrations_keep_data_witness:
  "let d = empty_db\<lparr>db_tables := [''dirents'', ''backup_info'', ''backup_journal''], dirents_seq := 5\<rparr> in
   \<exists>d'. PerformDbMigrations d = (Ret (Inr ()), d') \<and> db_tables d' = table_names"
  using migrations_keep_data [of "empty_db\<lparr>db_tables := [''dirents'', ''backup_info'', ''backup_journal''], dirents_seq := 5\<rparr>"]
  by (auto simp: Let_def empty_db_def)

text \<open>
  If the version cannot be read, because of one failing statement on a current database, the
  migration takes the database for a new one and empties it, and reports success.
\<close>

theorem migration_read_error_wipes:
  assumes "db_faults d = [Some e]" "db_tables d = table_names"
  shows "fst (PerformDbMigrations d) = Ret (Inr ()) \<and> dirents (snd (PerformDbMigrations d)) = [] \<and>
    backup_info (snd (PerformDbMigrations d)) = [] \<and> backup_journal (snd (PerformDbMigrations d)) = []"
  using migrate_after_read_error [OF assms] .

theorem migration_read_error_wipes_witness:
  "dirents (snd (PerformDbMigrations (empty_db\<lparr>db_faults := [Some (GoErr ''database is locked'')], db_tables := table_names,
     dirents := [\<lparr>de_id = 1, de_rootdir = ''Docs'', de_relpath = ''a'', de_last_backup = 5\<rparr>]\<rparr>))) = []"
  using migration_read_error_wipes [of "empty_db\<lparr>db_faults := [Some (GoErr ''database is locked'')], db_tables := table_names,
     dirents := [\<lparr>de_id = 1, de_rootdir = ''Docs'', de_relpath = ''a'', de_last_backup = 5\<rparr>]\<rparr>"] by simp

text \<open>
  The daily bandwidth totals partition the reports of the period: they are in the order of the days,
  one for each day with a report, and add up to the sum of all of them.
\<close>

theorem daily_totals:
  assumes "db_faults d = []" "''bandwidth_usage_history'' \<in> set (db_tables d)"
  shows "\<exists>days. GetTotalDailyBandwidthUsage localDate monthsBack now n d = (Ret (Inr days), d) \<and>
    (let recent = filter (\<lambda>r. monthsBack now n < localDate (ur_date r)) (bandwidth_usage_history d) in
     map DateYMD days = sort (remdups (map (\<lambda>r. localDate (ur_date r)) recent)) \<and>
     sum_list (map ByteCnt days) = sum_list (map ur_used recent))"
  using assms by (simp add: GetTotalDailyBandwidthUsage_def sqlM_ready Let_def daily_days daily_sum_total)

theorem daily_totals_witness:
  "\<exists>days. GetTotalDailyBandwidthUsage show_int (\<lambda>_ _. []) 0 3
     (empty_db\<lparr>db_tables := table_names, bandwidth_usage_history := [\<lparr>ur_id = 1, ur_date = 4, ur_used = 10\<rparr>,
       \<lparr>ur_id = 2, ur_date = 4, ur_used = 20\<rparr>]\<rparr>) = (Ret (Inr days), empty_db\<lparr>db_tables := table_names,
       bandwidth_usage_history := [\<lparr>ur_id = 1, ur_date = 4, ur_used = 10\<rparr>, \<lparr>ur_id = 2, ur_date = 4, ur_used = 20\<rparr>]\<rparr>)"
  using daily_totals [of "empty_db\<lparr>db_tables := table_names, bandwidth_usage_history := [\<lparr>ur_id = 1, ur_date = 4, ur_used = 10\<rparr>,
       \<lparr>ur_id = 2, ur_date = 4, ur_used = 20\<rparr>]\<rparr>" show_int "\<lambda>_ _. []" 0 3]
  by (auto simp: empty_db_def table_names_def)

end
