(* ===== verification/ObjStore.thy ===== *)
theory ObjStore
  imports Cryptography Usage
begin

section \<open>The object store client (pkg/objstore/objstore.go)\<close>

text \<open>
  Uploading with retries and an ETag check, downloading, the three listings, deletion, renaming,
  buckets, the ETag computation and the bandwidth accounting. The minio client is the parameter
  \<open>S\<close>. The upload loop runs as long as the network is unreachable: \<open>Attempts S\<close> bounds the
  rounds that are observed, and a loop still running then is \<open>Spin\<close>.
\<close>

subsection \<open>ETags\<close>

definition ObjStoreMultiPartUploadPartSize :: nat where
  "ObjStoreMultiPartUploadPartSize = 16 * 1024 * 1024"

text \<open>The loop of \<^verbatim>\<open>ComputeETag\<close>, for a part size \<open>k\<close>.\<close>

function etag_loop :: "(bytes \<Rightarrow> bytes) \<Rightarrow> nat \<Rightarrow> bytes \<Rightarrow> nat \<Rightarrow> bytes list \<Rightarrow> bytes list" where
  "etag_loop md5 k buf bufStartPos md5s =
     (let bufEndPos = bufStartPos + k in
      if k \<noteq> 0 \<and> length buf > bufEndPos
      then etag_loop md5 k buf bufEndPos (md5s @ [md5 (take k (drop bufStartPos buf))])
      else md5s @ [md5 (drop bufStartPos buf)])"
  by pat_completeness auto
termination
  by (relation "measure (\<lambda>(_, _, buf, pos, _). length buf - pos)") auto

declare etag_loop.simps [simp del]

definition ComputeETag :: "clib \<Rightarrow> bytes \<Rightarrow> string" where
  "ComputeETag C buf =
     (let md5s = etag_loop (Md5 C) ObjStoreMultiPartUploadPartSize buf 0 [] in
      if length md5s = 1 then hex_bytes (md5s ! 0)
      else hex_bytes (Md5 C (concat md5s)) @ ''-'' @ show_nat (length md5s))"

subsection \<open>Transfers\<close>

definition next_backoff :: "nat \<Rightarrow> nat" where
  "next_backoff backoffSec = (let b = backoffSec * 2 in if b > 5 * 60 then 5 * 60 else b)"

fun upload_loop :: "nat \<Rightarrow> 'w sys \<Rightarrow> string \<Rightarrow> string \<Rightarrow> bytes \<Rightarrow> string \<Rightarrow> nat
    \<Rightarrow> (('w, 'z) gst_scheme, goerr + unit) prog" where
  "upload_loop 0 S bucket objectName buffer expectedETag backoffSec = liftGo Spin"
| "upload_loop (Suc n) S bucket objectName buffer expectedETag backoffSec =
     tryM (sysM (PutObject S bucket objectName buffer))
       (\<lambda>e. if Contains (error_text e) ''network is unreachable''
            then bindM (sleepM S backoffSec) (\<lambda>_.
              upload_loop n S bucket objectName buffer expectedETag (next_backoff backoffSec))
            else retM (Inl e))
       (\<lambda>etag. bindM (modifyM (\<lambda>s. s\<lparr>uploadBytes := uploadBytes s + int (length buffer)\<rparr>)) (\<lambda>_.
          if etag \<noteq> expectedETag then retM (Inl ErrUploadCorrupted) else retM (Inr ())))"

definition UploadObjFromBuffer :: "'w sys \<Rightarrow> string \<Rightarrow> string \<Rightarrow> bytes \<Rightarrow> string
    \<Rightarrow> (('w, 'z) gst_scheme, goerr + unit) prog" where
  "UploadObjFromBuffer S bucket objectName buffer expectedETag =
     upload_loop (Attempts S) S bucket objectName buffer expectedETag 5"

text \<open>The three steps that can fail (\<^verbatim>\<open>GetObject\<close>, \<^verbatim>\<open>Stat\<close>, \<^verbatim>\<open>CopyN\<close>) all return their error.\<close>

definition DownloadObjToBuffer ::
  "'w sys \<Rightarrow> string \<Rightarrow> string \<Rightarrow> (('w, 'z) gst_scheme, goerr + bytes) prog" where
  "DownloadObjToBuffer S bucket objectName =
     tryM (sysM (GetObject S bucket objectName)) (\<lambda>e. retM (Inl e)) (\<lambda>ret.
     bindM (modifyM (\<lambda>s. s\<lparr>downloadBytes := downloadBytes s + int (length ret)\<rparr>)) (\<lambda>_.
     retM (Inr ret)))"

subsection \<open>Listings\<close>

definition GetObjList ::
  "'w sys \<Rightarrow> string \<Rightarrow> string \<Rightarrow> bool \<Rightarrow> (('w, 'z) gst_scheme, goerr + (string \<times> int) list) prog" where
  "GetObjList S bucket pre recursive =
     tryM (sysM (ListObjects S bucket pre recursive)) (\<lambda>e. retM (Inl e)) (\<lambda>objects.
     retM (Inr (fold (\<lambda>(k, size) m. map_put k size m) objects [])))"

definition IsReachable :: "'w sys \<Rightarrow> string \<Rightarrow> (('w, 'z) gst_scheme, bool \<times> goerr option) prog" where
  "IsReachable S bucket =
     tryM (GetObjList S bucket ''doesnotexist'' False) (\<lambda>e. retM (False, Some e))
       (\<lambda>_. retM (True, None))"

definition skip_prefix :: "string list \<Rightarrow> string \<Rightarrow> bool" where
  "skip_prefix excl k = fold (\<lambda>p skip. if HasPrefix k p then True else skip) excl False"

definition GetObjListTopLevel ::
  "'w sys \<Rightarrow> string \<Rightarrow> string list \<Rightarrow> (('w, 'z) gst_scheme, goerr + string list) prog" where
  "GetObjListTopLevel S bucket excludePrefixes =
     tryM (sysM (ListObjects S bucket [] False)) (\<lambda>e. retM (Inl e)) (\<lambda>objects.
     retM (Inr (map StripTrailingSlashes
       (filter (\<lambda>k. \<not> skip_prefix excludePrefixes k) (map fst objects)))))"

fun second_levels :: "'w sys \<Rightarrow> string \<Rightarrow> string list \<Rightarrow> string list \<Rightarrow> (string \<times> string list) list
    \<Rightarrow> (('w, 'z) gst_scheme, goerr + (string \<times> string list) list) prog" where
  "second_levels S bucket excl [] mObjects = retM (Inr mObjects)"
| "second_levels S bucket excl (topLevelName # rest) mObjects =
     tryM (sysM (ListObjects S bucket (topLevelName @ ''/'') False)) (\<lambda>e. retM (Inl e)) (\<lambda>objects.
       let subs = map StripTrailingSlashes (filter (\<lambda>k. \<not> skip_prefix excl k)
             (map (\<lambda>(k, _). TrimPrefix k (topLevelName @ ''/'')) objects));
         old = (case map_of mObjects topLevelName of None \<Rightarrow> [] | Some l \<Rightarrow> l)
       in second_levels S bucket excl rest (map_put topLevelName (old @ subs) mObjects))"

definition GetObjListTopTwoLevels :: "'w sys \<Rightarrow> string \<Rightarrow> string list \<Rightarrow> string list
    \<Rightarrow> (('w, 'z) gst_scheme, goerr + (string \<times> string list) list) prog" where
  "GetObjListTopTwoLevels S bucket excludeTopLevelWithPrefixes excludeSecondLevelWithPrefix =
     tryM (sysM (ListObjects S bucket [] False)) (\<lambda>e. retM (Inl e)) (\<lambda>objects.
       let mObjects = fold (\<lambda>(k, _) m. if skip_prefix excludeTopLevelWithPrefixes k then m
             else map_put (StripTrailingSlashes k) [] m) objects []
       in second_levels S bucket excludeSecondLevelWithPrefix (map_keys mObjects) mObjects)"

subsection \<open>Other operations\<close>

definition DeleteObj :: "'w sys \<Rightarrow> string \<Rightarrow> string \<Rightarrow> (('w, 'z) gst_scheme, goerr + unit) prog" where
  "DeleteObj S bucket objectName = sysM (RemoveObject S bucket objectName)"

definition rename_copy :: "'w sys \<Rightarrow> string \<Rightarrow> string \<Rightarrow> string \<Rightarrow> int
    \<Rightarrow> (('w, 'z) gst_scheme, goerr + unit) prog" where
  "rename_copy S bucket src dst objByteCnt =
     tryM (sysM (CopyObject S bucket src dst)) (\<lambda>e. retM (Inl e)) (\<lambda>_.
     bindM (modifyM (\<lambda>s. s\<lparr>uploadBytes := uploadBytes s + objByteCnt,
                           downloadBytes := downloadBytes s + objByteCnt\<rparr>)) (\<lambda>_.
     DeleteObj S bucket src))"

definition RenameObj ::
  "'w sys \<Rightarrow> string \<Rightarrow> string \<Rightarrow> string \<Rightarrow> (('w, 'z) gst_scheme, goerr + unit) prog" where
  "RenameObj S bucket objectNameSrc objectNameDst =
     tryM (GetObjList S bucket objectNameSrc False)
       (\<lambda>e. rename_copy S bucket objectNameSrc objectNameDst 0)
       (\<lambda>m. if length m \<noteq> 1
            then retM (Inl (GoErr (''error: RenameObj: there are '' @ show_nat (length m) @
              '' objects named '' @ objectNameSrc @ '', expected 1 object with that name'')))
            else rename_copy S bucket objectNameSrc objectNameDst (snd (m ! 0)))"

definition ListBuckets :: "'w sys \<Rightarrow> (('w, 'z) gst_scheme, string list \<times> goerr option) prog" where
  "ListBuckets S = tryM (sysM (ListBucketNames S)) (\<lambda>e. retM ([], Some e))
     (\<lambda>names. retM (sort names, None))"

definition MakeBucket :: "'w sys \<Rightarrow> string \<Rightarrow> string \<Rightarrow> (('w, 'z) gst_scheme, goerr + unit) prog" where
  "MakeBucket S bucketName region = sysM (CreateBucket S bucketName region)"

subsection \<open>Bandwidth accounting\<close>

text \<open>States that hold a database, and database calls in them.\<close>

record 'w dst = "'w gst" +
  sdb :: db

definition dbM :: "(db, 'a) prog \<Rightarrow> (('w, 'z) dst_scheme, 'a) prog" where
  "dbM m = zoomM sdb (\<lambda>d s. s\<lparr>sdb := d\<rparr>) m"

text \<open>
  The two compare-and-swap loops take the counters; run by one thread they succeed at once.
  When the report fails both amounts go back into the counter of uploads.
\<close>

definition PersistBandwidthUsage :: "'w sys \<Rightarrow> (('w, 'z) dst_scheme, goerr + unit) prog" where
  "PersistBandwidthUsage S =
     bindM (getM uploadBytes) (\<lambda>upBytes. bindM (modifyM (\<lambda>s. s\<lparr>uploadBytes := 0\<rparr>)) (\<lambda>_.
     bindM (getM downloadBytes) (\<lambda>downBytes. bindM (modifyM (\<lambda>s. s\<lparr>downloadBytes := 0\<rparr>)) (\<lambda>_.
     if upBytes + downBytes > 0 then
       bindM (nowM S) (\<lambda>now.
       tryM (dbM (AddBandwidthUsageReport (LocalDate S) (MonthsBack S) now now (upBytes + downBytes)))
         (\<lambda>e. bindM (modifyM (\<lambda>s. s\<lparr>uploadBytes := uploadBytes s + upBytes\<rparr>)) (\<lambda>_.
              bindM (modifyM (\<lambda>s. s\<lparr>uploadBytes := uploadBytes s + downBytes\<rparr>)) (\<lambda>_.
              retM (Inl e))))
         (\<lambda>_. retM (Inr ())))
     else retM (Inr ())))))"

subsection \<open>ETags are computed over consecutive parts\<close>

text \<open>Reference: cut the buffer into parts of \<open>k\<close> bytes, the last one possibly shorter.\<close>

function parts :: "nat \<Rightarrow> 'a list \<Rightarrow> 'a list list" where
  "parts k b = (if k \<noteq> 0 \<and> k < length b then take k b # parts k (drop k b) else [b])"
  by pat_completeness auto
termination
  by (relation "measure (\<lambda>(_, b). length b)") auto

declare parts.simps [simp del]

lemma etag_loop_parts: "pos \<le> length buf \<Longrightarrow> etag_loop md5 k buf pos acc = acc @ map md5 (parts k (drop pos buf))"
proof (induction md5 k buf pos acc rule: etag_loop.induct)
  case (1 md5 k buf pos acc)
  show ?case
  proof (cases "k \<noteq> 0 \<and> length buf > pos + k")
    case True
    then have "parts k (drop pos buf) = take k (drop pos buf) # parts k (drop (pos + k) buf)"
      using 1 by (subst parts.simps) (auto simp: add.commute)
    with 1 True show ?thesis by (subst etag_loop.simps) (auto simp: Let_def)
  next
    case False
    then have "parts k (drop pos buf) = [drop pos buf]"
      using 1 by (subst parts.simps) auto
    with False show ?thesis by (subst etag_loop.simps) (auto simp: Let_def)
  qed
qed

lemma concat_parts: "concat (parts k b) = b"
proof (induction k b rule: parts.induct)
  case (1 k b)
  show ?case by (subst parts.simps) (auto simp: 1)
qed

lemma parts_length: "p \<in> set (parts k b) \<Longrightarrow> 0 < k \<Longrightarrow> length p \<le> k"
proof (induction k b rule: parts.induct)
  case (1 k b)
  show ?case
  proof (cases "k < length b")
    case True
    with 1(2,3) have "p = take k b \<or> p \<in> set (parts k (drop k b))" by (auto simp: parts.simps [of k b])
    with 1 True show ?thesis by auto
  next
    case False
    with 1(2,3) show ?thesis by (auto simp: parts.simps [of k b])
  qed
qed

lemma parts_butlast_length: "p \<in> set (butlast (parts k b)) \<Longrightarrow> length p = k"
proof (induction k b rule: parts.induct)
  case (1 k b)
  show ?case
  proof (cases "k \<noteq> 0 \<and> k < length b")
    case True
    with 1(2) have "p = take k b \<or> p \<in> set (butlast (parts k (drop k b)))"
      by (auto simp: parts.simps [of k b] split: if_splits)
    with 1 True show ?thesis by auto
  next
    case False
    with 1(2) show ?thesis by (auto simp: parts.simps [of k b])
  qed
qed

lemma length_parts: "0 < k \<Longrightarrow> length (parts k b) = (if b = [] then 1 else (length b + k - 1) div k)"
proof (induction k b rule: parts.induct)
  case (1 k b)
  show ?case
  proof (cases "k < length b")
    case True
    then have "length (parts k b) = Suc ((length b - k + k - 1) div k)"
      using 1 by (subst parts.simps) auto
    moreover have "(length b + k - 1) div k = Suc ((length b - k + k - 1) div k)"
    proof -
      have "length b + k - 1 = (length b - k + k - 1) + k" using True 1(2) by simp
      then show ?thesis using 1(2) by (simp only: div_add_self2)
    qed
    ultimately show ?thesis using True by auto
  next
    case False
    moreover have "0 < m \<Longrightarrow> m \<le> k \<Longrightarrow> (m + k - 1) div k = 1" for m
      by (rule div_nat_eqI) auto
    ultimately show ?thesis using 1(2) by (subst parts.simps) (auto simp: not_less)
  qed
qed

subsection \<open>Uploads end when the network returns\<close>

definition unreachable :: "goerr + 'a \<Rightarrow> bool" where
  "unreachable r = (case r of Inl e \<Rightarrow> Contains (error_text e) ''network is unreachable'' | Inr _ \<Rightarrow> False)"

text \<open>The network is unreachable for exactly \<open>n\<close> more attempts.\<close>

fun down_for :: "nat \<Rightarrow> 'w sys \<Rightarrow> string \<Rightarrow> string \<Rightarrow> bytes \<Rightarrow> nat \<Rightarrow> 'w \<Rightarrow> bool" where
  "down_for 0 S b nm x k w \<longleftrightarrow> \<not> unreachable (fst (PutObject S b nm x w))"
| "down_for (Suc n) S b nm x k w \<longleftrightarrow> unreachable (fst (PutObject S b nm x w)) \<and>
     down_for n S b nm x (next_backoff k) (Sleep S k (snd (PutObject S b nm x w)))"

lemma upload_loop_returns:
  "down_for n S b nm x k (world s) \<Longrightarrow> n < m \<Longrightarrow> \<exists>r t. upload_loop m S b nm x e k s = (Ret r, t)"
proof (induction n arbitrary: m k s)
  case 0
  then obtain m' where "m = Suc m'" by (cases m) auto
  with 0 show ?case
    by (cases "PutObject S b nm x (world s)")
      (auto simp: tryM_def bindM_def sysM_def unreachable_def split: sum.splits)
next
  case (Suc n)
  then obtain m' where m: "m = Suc m'" "n < m'" by (cases m) auto
  obtain e' w where p: "PutObject S b nm x (world s) = (Inl e', w)"
      "Contains (error_text e') ''network is unreachable''"
    using Suc.prems(1) by (cases "PutObject S b nm x (world s)") (auto simp: unreachable_def split: sum.splits)
  let ?s = "s\<lparr>world := Sleep S k w\<rparr>"
  have "down_for n S b nm x (next_backoff k) (world ?s)" using Suc.prems(1) p by simp
  from Suc.IH [OF this m(2)] obtain r t
    where "upload_loop m' S b nm x e (next_backoff k) ?s = (Ret r, t)" by blast
  with m p show ?case by (auto simp: tryM_def bindM_def sysM_def)
qed

lemma backoff_closed: "(next_backoff ^^ n) 5 = min (5 * 2 ^ n) 300"
  by (induction n) (auto simp: next_backoff_def Let_def min_def)

lemma upload_loop_world_only:
  assumes "upload_loop m S b nm x e k s = (r, t)"
  shows "\<exists>w n. t = s\<lparr>world := w, uploadBytes := n\<rparr>"
  using assms
proof (induction m arbitrary: k s)
  case 0
  then have "t = s\<lparr>world := world s, uploadBytes := uploadBytes s\<rparr>" by simp
  then show ?case by blast
next
  case (Suc m)
  obtain r' w where p: "PutObject S b nm x (world s) = (r', w)" by fastforce
  show ?case
  proof (cases r')
    case (Inl e')
    show ?thesis
    proof (cases "Contains (error_text e') ''network is unreachable''")
      case True
      with Suc.prems p Inl have "upload_loop m S b nm x e (next_backoff k) (s\<lparr>world := Sleep S k w\<rparr>) = (r, t)"
        by (simp add: tryM_def bindM_def sysM_def)
      from Suc.IH [OF this] show ?thesis by simp
    next
      case False
      with Suc.prems p Inl have "t = s\<lparr>world := w, uploadBytes := uploadBytes s\<rparr>"
        by (auto simp add: tryM_def bindM_def sysM_def)
      then show ?thesis by blast
    qed
  next
    case (Inr etag)
    with Suc.prems p have "t = s\<lparr>world := w, uploadBytes := uploadBytes s + int (length x)\<rparr>"
      by (auto simp: tryM_def bindM_def sysM_def split: if_splits)
    then show ?thesis by blast
  qed
qed

subsection \<open>Transfers and the objects\<close>

context object_store
begin

lemma upload_loop_other:
  "upload_loop m S b n x e k s = (r, t) \<Longrightarrow> (b', n') \<noteq> (b, n) \<Longrightarrow>
     objs (world t) b' n' = objs (world s) b' n'"
proof (induction m arbitrary: k s)
  case (Suc m)
  obtain r' w where p: "PutObject S b n x (world s) = (r', w)" by fastforce
  have fr: "objs w b' n' = objs (world s) b' n'" using put_frame [OF p Suc.prems(2)] .
  show ?case
  proof (cases r')
    case (Inl e')
    show ?thesis
    proof (cases "Contains (error_text e') ''network is unreachable''")
      case True
      with Suc.prems p Inl have "upload_loop m S b n x e (next_backoff k) (s\<lparr>world := Sleep S k w\<rparr>) = (r, t)"
        by (simp add: tryM_def bindM_def sysM_def)
      from Suc.IH [OF this Suc.prems(2)] show ?thesis by (simp add: sleep_frame fr)
    next
      case False
      with Suc.prems p Inl fr show ?thesis by (auto simp: tryM_def bindM_def sysM_def)
    qed
  next
    case (Inr etag)
    with Suc.prems p fr show ?thesis by (auto simp: tryM_def bindM_def sysM_def split: if_splits)
  qed
qed simp

lemma upload_loop_ok:
  "upload_loop m S b n x e k s = (Ret (Inr u), t) \<Longrightarrow> objs (world t) b n = Some x"
proof (induction m arbitrary: k s)
  case (Suc m)
  obtain r' w where p: "PutObject S b n x (world s) = (r', w)" by fastforce
  show ?case
  proof (cases r')
    case (Inl e')
    with Suc p show ?thesis
      by (auto simp: tryM_def bindM_def sysM_def split: if_splits)
  next
    case (Inr etag)
    with Suc.prems p show ?thesis
      by (auto simp: tryM_def bindM_def sysM_def put_ok split: if_splits)
  qed
qed simp

lemma Upload_ok:
  assumes "UploadObjFromBuffer S b n x e s = (Ret (Inr u), t)"
  shows "objs (world t) = (objs (world s))(b := (objs (world s) b)(n \<mapsto> x))"
proof (intro ext)
  fix b' n'
  show "objs (world t) b' n' = ((objs (world s))(b := (objs (world s) b)(n \<mapsto> x))) b' n'"
    using upload_loop_ok [OF assms [unfolded UploadObjFromBuffer_def]]
      upload_loop_other [OF assms [unfolded UploadObjFromBuffer_def], of b' n']
    by auto
qed

lemma Upload_other:
  "UploadObjFromBuffer S b n x e s = (r, t) \<Longrightarrow> (b', n') \<noteq> (b, n) \<Longrightarrow>
     objs (world t) b' n' = objs (world s) b' n'"
  unfolding UploadObjFromBuffer_def by (rule upload_loop_other)

lemma Download_frame: "objs (world (snd (DownloadObjToBuffer S b n s))) = objs (world s)"
  using get_frame [of b n "world s"]
  by (auto simp: DownloadObjToBuffer_def tryM_def bindM_def sysM_def split: prod.splits sum.splits)

lemma Download_ok:
  "DownloadObjToBuffer S b n s = (Ret (Inr x), t) \<Longrightarrow> objs (world s) b n = Some x"
  using get_ok [of b n "world s"]
  by (auto simp: DownloadObjToBuffer_def tryM_def bindM_def sysM_def split: prod.splits sum.splits)

lemma GetObjList_frame: "objs (world (snd (GetObjList S b p r s))) = objs (world s)"
  using list_frame [of b p r "world s"]
  by (auto simp: GetObjList_def tryM_def bindM_def sysM_def split: prod.splits sum.splits)

lemma map_keys_fold_put:
  "fst ` set (fold (\<lambda>(k, v) m. map_put k v m) l m) = fst ` set m \<union> fst ` set l"
proof (induction l arbitrary: m)
  case (Cons a l)
  then show ?case by (cases a) (auto simp: dom_update)
qed simp

lemma GetObjList_ok:
  assumes "GetObjList S b p r s = (Ret (Inr m), t)"
  shows "fst ` set m = list_key p r ` {n. objs (world s) b n \<noteq> None \<and> HasPrefix n p}"
proof -
  obtain l w where l: "ListObjects S b p r (world s) = (Inr l, w)"
    and m: "m = fold (\<lambda>(k, size) m. map_put k size m) l []"
    using assms
    by (auto simp: GetObjList_def tryM_def bindM_def sysM_def split: prod.splits sum.splits)
  show ?thesis using list_ok [OF l] by (simp add: m map_keys_fold_put)
qed

lemma DeleteObj_other:
  "DeleteObj S b n s = (r, t) \<Longrightarrow> (b', n') \<noteq> (b, n) \<Longrightarrow>
     objs (world t) b' n' = objs (world s) b' n'"
  by (auto simp: DeleteObj_def sysM_def split: prod.splits dest: remove_frame)

lemma DeleteObj_ok:
  "DeleteObj S b n s = (Ret (Inr u), t) \<Longrightarrow> objs (world t) = (objs (world s))(b := (objs (world s) b)(n := None))"
  by (auto simp: DeleteObj_def sysM_def split: prod.splits dest: remove_ok)

end

subsection \<open>Properties\<close>

text \<open>
  C28. \<^verbatim>\<open>ComputeETag\<close> is the S3 multipart ETag: with the buffer cut into consecutive parts of 16 MiB
  (all full but the last), it is the MD5 of the only part, or the MD5 of the parts' MD5s followed
  by their number; the number of parts is the length divided by the part size, rounded up.
\<close>

theorem ComputeETag_multipart:
  "ComputeETag C buf =
     (let ps = parts ObjStoreMultiPartUploadPartSize buf in
      if length ps = 1 then hex_bytes (Md5 C buf)
      else hex_bytes (Md5 C (concat (map (Md5 C) ps))) @ ''-'' @ show_nat (length ps)) \<and>
   concat (parts ObjStoreMultiPartUploadPartSize buf) = buf \<and>
   length (parts ObjStoreMultiPartUploadPartSize buf) =
     (if buf = [] then 1 else (length buf + 16777215) div 16777216)"
proof -
  let ?k = ObjStoreMultiPartUploadPartSize
  have one: "map (Md5 C) (parts ?k buf) ! 0 = Md5 C buf" if single: "length (parts ?k buf) = 1"
  proof -
    obtain p where "parts ?k buf = [p]" using single by (cases "parts ?k buf") auto
    moreover from this have "p = buf" using concat_parts [of ?k buf] by simp
    ultimately show ?thesis by simp
  qed
  have etag: "ComputeETag C buf =
     (let ps = parts ?k buf in
      if length ps = 1 then hex_bytes (Md5 C buf)
      else hex_bytes (Md5 C (concat (map (Md5 C) ps))) @ ''-'' @ show_nat (length ps))"
    using one by (simp add: ComputeETag_def etag_loop_parts Let_def)
  have number: "length (parts ?k buf) = (if buf = [] then 1 else (length buf + 16777215) div 16777216)"
    using length_parts [of ?k buf] by (simp add: ObjStoreMultiPartUploadPartSize_def add.commute)
  show ?thesis using etag concat_parts number by (intro conjI)
qed

text \<open>
  C27. An upload ends as soon as the network is back: when the store is unreachable for \<open>n\<close> attempts
  and the observation covers more, \<^verbatim>\<open>UploadObjFromBuffer\<close> returns. The pause before attempt
  \<open>n + 1\<close> is \<open>5 * 2 ^ n\<close> seconds, at most five minutes.
\<close>

theorem upload_returns:
  assumes "down_for n S b nm x 5 (world s)" "n < Attempts S"
  shows "(\<exists>r t. UploadObjFromBuffer S b nm x e s = (Ret r, t)) \<and>
    (next_backoff ^^ n) 5 = min (5 * 2 ^ n) 300"
  unfolding UploadObjFromBuffer_def using upload_loop_returns [OF assms] backoff_closed by blast

text \<open>
  C29. \<^verbatim>\<open>PersistBandwidthUsage\<close> moves the two counters into the history. On a working database, with
  something counted, both counters are zero afterwards and the last row of the history, unless it is
  older than three months, has their sum; when nothing was counted nothing is written; and when the
  database fails, no byte is forgotten.
\<close>

theorem bandwidth_accounting:
  "(db_faults (sdb s) = [] \<longrightarrow> ''bandwidth_usage_history'' \<in> set (db_tables (sdb s)) \<longrightarrow>
      uploadBytes s + downloadBytes s > 0 \<longrightarrow> TimeNow S (world s) = (now, w) \<longrightarrow>
      \<not> LocalDate S now < MonthsBack S now 3 \<longrightarrow>
      (\<exists>t old. PersistBandwidthUsage S s = (Ret (Inr ()), t) \<and> uploadBytes t = 0 \<and> downloadBytes t = 0 \<and>
         bandwidth_usage_history (sdb t) = old @ [\<lparr>ur_id = bandwidth_usage_seq (sdb s) + 1, ur_date = now,
           ur_used = uploadBytes s + downloadBytes s\<rparr>])) \<and>
   (uploadBytes s + downloadBytes s = 0 \<longrightarrow> uploadBytes s = 0 \<longrightarrow> PersistBandwidthUsage S s = (Ret (Inr ()), s)) \<and>
   (\<forall>e t. PersistBandwidthUsage S s = (Ret (Inl e), t) \<longrightarrow>
      uploadBytes t + downloadBytes t = uploadBytes s + downloadBytes s)"
proof (intro conjI impI allI)
  fix e t assume "PersistBandwidthUsage S s = (Ret (Inl e), t)"
  then show "uploadBytes t + downloadBytes t = uploadBytes s + downloadBytes s"
    unfolding PersistBandwidthUsage_def
    by (auto elim!: bindM_RetE tryM_RetE split: if_splits simp: nowM_def dbM_def zoomM_def split: prod.splits)
qed (auto simp: PersistBandwidthUsage_def bindM_def tryM_def nowM_def dbM_def zoomM_def AddBandwidthUsageReport_def
  execM_ready)

end
