(* ===== verification/BucketMetadata.thy ===== *)
theory BucketMetadata
  imports ObjStore
begin

section \<open>Bucket metadata and keys (pkg/objstore/bucket_metadata_obj.go)\<close>

text \<open>
  The object \<^verbatim>\<open>metadata\<close> of a bucket holds a salt and two random keys, encrypted under a key
  derived from the master password. \<^verbatim>\<open>encoding/json\<close> is the parameter \<open>J\<close>, with the law \<open>jmeta_ok\<close>
  for strings of letters, digits, \<^verbatim>\<open>-\<close>, \<^verbatim>\<open>_\<close> and \<^verbatim>\<open>=\<close>, which is all this component writes.
\<close>

record BucketMetadata =
  bm_Salt :: string
  bm_Version :: int
  EncryptedEncKeyB64 :: string
  EncryptedHmacKeyB64 :: string

record jmeta =
  md_marshal :: "BucketMetadata \<Rightarrow> bytes"
  md_unmarshal :: "bytes \<Rightarrow> goerr + BucketMetadata"

definition MetadataObjName :: string where
  "MetadataObjName = ''metadata''"

subsection \<open>Reading and writing the object\<close>

definition isBucketEmpty :: "'w sys \<Rightarrow> string \<Rightarrow> (('w, 'z) gst_scheme, goerr + bool) prog" where
  "isBucketEmpty S bucket =
     tryM (GetObjList S bucket [] False) (\<lambda>e. retM (Inl e)) (\<lambda>m. retM (Inr (length m = 0)))"

definition decode_metadata ::
  "clib \<Rightarrow> string \<Rightarrow> BucketMetadata \<Rightarrow> (goerr + (BucketMetadata \<times> bytes \<times> bytes)) go" where
  "decode_metadata C masterPassword bMdata =
     (if length (bm_Salt bMdata) < SaltLen
      then Ret (Inl (GoErr (''error: readBucketMetadataFile: the bucket salt retrieved is too short ('' @
        show_nat (length (bm_Salt bMdata)) @ '' chars) to be valid ('' @ show_nat SaltLen @
        '' chars required): '')))
      else case DeriveKey C (bm_Salt bMdata) masterPassword of
        Inl e \<Rightarrow> Ret (Inl (GoErr (''error: readBucketMetadataFile: could not derive pdKey: '' @ error_text e)))
      | Inr pdKey \<Rightarrow> (case b64decode (EncryptedEncKeyB64 bMdata) of
          None \<Rightarrow> Ret (Inl (GoErr ''illegal base64 data''))
        | Some encryptedEncKey \<Rightarrow> (case b64decode (EncryptedHmacKeyB64 bMdata) of
            None \<Rightarrow> Ret (Inl (GoErr ''illegal base64 data''))
          | Some encryptedHmacKey \<Rightarrow>
              bindGo (DecryptBuffer C pdKey encryptedEncKey) (\<lambda>r. case r of
                Inl e \<Rightarrow> Ret (Inl e)
              | Inr encKey \<Rightarrow>
                  bindGo (DecryptBuffer C pdKey encryptedHmacKey) (\<lambda>r. case r of
                    Inl e \<Rightarrow> Ret (Inl e)
                  | Inr hmacKey \<Rightarrow> Ret (Inr (bMdata, encKey, hmacKey)))))))"

definition readBucketMetadataFile :: "'w sys \<Rightarrow> clib \<Rightarrow> jmeta \<Rightarrow> string \<Rightarrow> string
    \<Rightarrow> (('w, 'z) gst_scheme, goerr + (BucketMetadata \<times> bytes \<times> bytes)) prog" where
  "readBucketMetadataFile S C J bucket masterPassword =
     tryM (DownloadObjToBuffer S bucket MetadataObjName) (\<lambda>e. retM (Inl e)) (\<lambda>buf.
       case md_unmarshal J buf of
         Inl e \<Rightarrow> retM (Inl e)
       | Inr bMdata \<Rightarrow> liftGo (decode_metadata C masterPassword bMdata))"

definition writeBucketMetadataFile :: "'w sys \<Rightarrow> clib \<Rightarrow> jmeta \<Rightarrow> string \<Rightarrow> BucketMetadata
    \<Rightarrow> (('w, 'z) gst_scheme, goerr + unit) prog" where
  "writeBucketMetadataFile S C J bucket bMdata =
     (let buf = md_marshal J bMdata in
      UploadObjFromBuffer S bucket MetadataObjName buf (ComputeETag C buf))"

subsection \<open>Getting, creating, verifying and re-encrypting keys\<close>

definition create_metadata :: "'w sys \<Rightarrow> clib \<Rightarrow> jmeta \<Rightarrow> string \<Rightarrow> string
    \<Rightarrow> (('w, 'z) gst_scheme, goerr + (string \<times> int \<times> bytes \<times> bytes)) prog" where
  "create_metadata S C J bucket masterPassword =
     bindM (GenerateRandomSalt S) (\<lambda>salt.
     case DeriveKey C salt masterPassword of
       Inl e \<Rightarrow> retM (Inl (GoErr (''error: readBucketMetadataFile: could not derive pdKey: '' @ error_text e)))
     | Inr pdKey \<Rightarrow>
         tryM (sysM (RandRead S 32)) (\<lambda>e. retM (Inl e)) (\<lambda>encKey.
         tryM (EncryptBuffer S C pdKey encKey) (\<lambda>e. retM (Inl e)) (\<lambda>encryptedEncKey.
         tryM (sysM (RandRead S 32)) (\<lambda>e. retM (Inl e)) (\<lambda>hmacKey.
         tryM (EncryptBuffer S C pdKey hmacKey) (\<lambda>e. retM (Inl e)) (\<lambda>encryptedHmacKey.
         tryM (writeBucketMetadataFile S C J bucket
             \<lparr>bm_Salt = salt, bm_Version = 1, EncryptedEncKeyB64 = b64encode encryptedEncKey,
              EncryptedHmacKeyB64 = b64encode encryptedHmacKey\<rparr>) (\<lambda>e. retM (Inl e)) (\<lambda>_.
         tryM (readBucketMetadataFile S C J bucket masterPassword) (\<lambda>e. retM (Inl e))
           (\<lambda>(bMdata, encKey, hmacKey).
              retM (Inr (bm_Salt bMdata, bm_Version bMdata, encKey, hmacKey)))))))))"

definition GetOrCreateBucketMetadata :: "'w sys \<Rightarrow> clib \<Rightarrow> jmeta \<Rightarrow> string \<Rightarrow> string
    \<Rightarrow> (('w, 'z) gst_scheme, goerr + (string \<times> int \<times> bytes \<times> bytes)) prog" where
  "GetOrCreateBucketMetadata S C J bucket masterPassword =
     tryM (GetObjList S bucket MetadataObjName False) (\<lambda>e. retM (Inl e)) (\<lambda>mObjs.
     tryM (if MetadataObjName \<in> set (map_keys mObjs)
           then tryM (readBucketMetadataFile S C J bucket masterPassword)
             (\<lambda>e. if Contains (error_text e) ''connect'' then retM (Inl ErrCantConnect) else retM (Inl e))
             (\<lambda>r. retM (Inr (Some r)))
           else retM (Inr None))
       (\<lambda>e. retM (Inl e)) (\<lambda>found.
     let fresh = tryM (isBucketEmpty S bucket) (\<lambda>e. retM (Inl e)) (\<lambda>isEmpty.
           if isEmpty then create_metadata S C J bucket masterPassword
           else retM (Inl ErrNoMetadataButNotEmpty)) in
     case found of
       Some (bMdata, encKey, hmacKey) \<Rightarrow>
         if length encKey = 32 \<and> length hmacKey = 32
         then retM (Inr (bm_Salt bMdata, bm_Version bMdata, encKey, hmacKey))
         else fresh
     | None \<Rightarrow> fresh))"

definition VerifyKeys :: "'w sys \<Rightarrow> clib \<Rightarrow> jmeta \<Rightarrow> string \<Rightarrow> string \<Rightarrow> bytes \<Rightarrow> bytes
    \<Rightarrow> (('w, 'z) gst_scheme, goerr + unit) prog" where
  "VerifyKeys S C J bucket masterPassword encKey hmacKey =
     tryM (readBucketMetadataFile S C J bucket masterPassword) (\<lambda>e. retM (Inl e))
       (\<lambda>(_, encKeyReadBack, hmacKeyReadBack).
     if encKey \<noteq> encKeyReadBack \<or> hmacKey \<noteq> hmacKeyReadBack
     then retM (Inl (GoErr ''error: VerifyKeysAndSalt: keys did not match re-derived keys''))
     else tryM (GetObjListTopLevel S bucket [''metadata'', ''chunks'']) (\<lambda>e. retM (Inl e))
       (\<lambda>topLevelObjs. case topLevelObjs of
          [] \<Rightarrow> retM (Inr ())
        | o1 # _ \<Rightarrow> tryM (liftGo (DecryptFilename C encKey o1)) (\<lambda>e. retM (Inl e))
            (\<lambda>decObjName. if length decObjName = 0 then liftGo Fatal else retM (Inr ()))))"

definition ChangePassword :: "'w sys \<Rightarrow> clib \<Rightarrow> jmeta \<Rightarrow> string \<Rightarrow> bytes \<Rightarrow> bytes \<Rightarrow> string
    \<Rightarrow> (('w, 'z) gst_scheme, goerr + unit) prog" where
  "ChangePassword S C J bucket encKey hmacKey newPassword =
     bindM (GenerateRandomSalt S) (\<lambda>salt.
     case DeriveKey C salt newPassword of
       Inl e \<Rightarrow> retM (Inl (GoErr (''error: ChangePassword: could not derive pdKey: '' @ error_text e)))
     | Inr pdKey \<Rightarrow>
         tryM (EncryptBuffer S C pdKey encKey) (\<lambda>e. retM (Inl e)) (\<lambda>encryptedEncKey.
         tryM (EncryptBuffer S C pdKey hmacKey) (\<lambda>e. retM (Inl e)) (\<lambda>encryptedHmacKey.
         writeBucketMetadataFile S C J bucket
             \<lparr>bm_Salt = salt, bm_Version = 1, EncryptedEncKeyB64 = b64encode encryptedEncKey,
              EncryptedHmacKeyB64 = b64encode encryptedHmacKey\<rparr>)))"

subsection \<open>The key wrap\<close>

definition json_plain :: "char \<Rightarrow> bool" where
  "json_plain c \<longleftrightarrow> c \<in> set salt_letters \<or> c = CHR ''-'' \<or> c = CHR ''_'' \<or> c = CHR ''=''"

definition jmeta_ok :: "jmeta \<Rightarrow> bool" where
  "jmeta_ok J \<longleftrightarrow> (\<forall>md. list_all json_plain (bm_Salt md @ EncryptedEncKeyB64 md @ EncryptedHmacKeyB64 md)
     \<longrightarrow> md_unmarshal J (md_marshal J md) = Inr md)"

lemma char_of_plain:
  "48 \<le> n \<and> n < 58 \<or> 65 \<le> n \<and> n < 91 \<or> 97 \<le> n \<and> n < 123 \<Longrightarrow> char_of (n :: nat) \<in> set salt_letters"
proof -
  assume n: "48 \<le> n \<and> n < 58 \<or> 65 \<le> n \<and> n < 91 \<or> 97 \<le> n \<and> n < 123"
  have "list_all (\<lambda>n. char_of n \<in> set salt_letters) ([48..<58] @ [65..<91] @ [97..<123])"
    by code_simp
  then have "\<And>m. m \<in> set ([48..<58] @ [65..<91] @ [97..<123]) \<Longrightarrow> char_of m \<in> set salt_letters"
    unfolding list_all_iff by blast
  then show ?thesis using n by (simp only: set_append set_upt Un_iff atLeastLessThan_iff)
qed

lemma b64char_plain: "n < 64 \<Longrightarrow> json_plain (b64char n)"
proof -
  assume n: "n < 64"
  then consider "n < 26" | "26 \<le> n" "n < 52" | "52 \<le> n" "n < 62" | "n = 62" | "n = 63" by linarith
  then show ?thesis by cases (auto simp: json_plain_def b64char_def intro!: char_of_plain)
qed

lemma b64encode_plain: "list_all json_plain (b64encode b)"
proof -
  have "json_plain (CHR ''='')" by (simp add: json_plain_def)
  then show ?thesis by (induction b rule: b64encode.induct) (simp_all add: b64char_plain)
qed

lemma random_letters_Ret:
  "random_letters S k salt s = (Ret r, t) \<Longrightarrow> list_all json_plain salt \<Longrightarrow>
     length r = length salt + k \<and> list_all json_plain r \<and> (\<exists>w. t = s\<lparr>world := w\<rparr>)"
proof (induction k arbitrary: salt s)
  case 0
  then show ?case by (auto intro!: exI [of _ "world s"])
next
  case (Suc k)
  from Suc.prems(1) obtain n w where n: "n < length salt_letters"
    and rec: "random_letters S k (salt @ [salt_letters ! n]) (s\<lparr>world := w\<rparr>) = (Ret r, t)"
    by (auto simp: sysM_def split: prod.splits if_splits elim!: tryM_RetE)
  have "json_plain (salt_letters ! n)" using n by (simp add: json_plain_def)
  with Suc.IH [OF rec] Suc.prems(2) show ?case by auto
qed

lemma GenerateRandomSalt_Ret:
  "GenerateRandomSalt S s = (Ret r, t) \<Longrightarrow>
     length r = 32 \<and> list_all json_plain r \<and> (\<exists>w. t = s\<lparr>world := w\<rparr>)"
  using random_letters_Ret [of S 32 "[]" s r t] by (simp add: GenerateRandomSalt_def SaltLen_def)

lemma decode_wrapped:
  assumes "clib_ok C" "length salt = 32" "length n1 = 12" "length n2 = 12"
    and "pdKey = IDKey C (bytes_of_string pw) (bytes_of_string salt)" "bm_Salt md = salt"
    and "EncryptedEncKeyB64 md = b64encode (n1 @ GcmSeal C pdKey n1 (bytes_of_string (gz C (string_of_bytes k1))))"
    and "EncryptedHmacKeyB64 md = b64encode (n2 @ GcmSeal C pdKey n2 (bytes_of_string (gz C (string_of_bytes k2))))"
  shows "decode_metadata C pw md = Ret (Inr (md, k1, k2))"
proof -
  have "aes_key pdKey" using assms(1) by (simp add: assms(5) clib_okD)
  then show ?thesis using assms
    by (simp add: decode_metadata_def SaltLen_def DeriveKey_def base64.roundtrip DecryptBuffer_seal)
qed

context backup_env
begin

lemma ChangePassword_stores:
  assumes "clib_ok C" "ChangePassword S C J b k1 k2 pw s = (Ret (Inr ()), t)"
  obtains md where "objs (world t) b MetadataObjName = Some (md_marshal J md)"
    "decode_metadata C pw md = Ret (Inr (md, k1, k2))"
    "list_all json_plain (bm_Salt md @ EncryptedEncKeyB64 md @ EncryptedHmacKeyB64 md)"
proof -
  from assms(2) obtain salt s1 pdKey c1 s2 c2 s3 md
    where salt: "GenerateRandomSalt S s = (Ret salt, s1)"
      and key: "DeriveKey C salt pw = Inr pdKey"
      and c1: "EncryptBuffer S C pdKey k1 s1 = (Ret (Inr c1), s2)"
      and c2: "EncryptBuffer S C pdKey k2 s2 = (Ret (Inr c2), s3)"
      and md: "md = \<lparr>bm_Salt = salt, bm_Version = 1, EncryptedEncKeyB64 = b64encode c1,
              EncryptedHmacKeyB64 = b64encode c2\<rparr>"
      and wr: "writeBucketMetadataFile S C J b md s3 = (Ret (Inr ()), t)"
    by (auto simp: ChangePassword_def split: sum.splits elim!: bindM_RetE tryM_RetE)
  have st: "length salt = 32" "list_all json_plain salt" using GenerateRandomSalt_Ret [OF salt] by auto
  have pd: "pdKey = IDKey C (bytes_of_string pw) (bytes_of_string salt)"
    using key by (auto simp: DeriveKey_def split: if_splits)
  obtain n1 where n1: "length n1 = 12" "c1 = n1 @ GcmSeal C pdKey n1 (bytes_of_string (gz C (string_of_bytes k1)))"
    using c1 by (elim EncryptBuffer_RetE) (auto dest: rand_len)
  obtain n2 where n2: "length n2 = 12" "c2 = n2 @ GcmSeal C pdKey n2 (bytes_of_string (gz C (string_of_bytes k2)))"
    using c2 by (elim EncryptBuffer_RetE) (auto dest: rand_len)
  have "decode_metadata C pw md = Ret (Inr (md, k1, k2))"
    by (rule decode_wrapped [OF assms(1) st(1) n1(1) n2(1) pd]) (simp_all add: md n1(2) n2(2))
  moreover have "objs (world t) b MetadataObjName = Some (md_marshal J md)"
    using wr by (auto simp: writeBucketMetadataFile_def Let_def dest: Upload_ok)
  moreover have "list_all json_plain (bm_Salt md @ EncryptedEncKeyB64 md @ EncryptedHmacKeyB64 md)"
    using st b64encode_plain by (simp add: md)
  ultimately show thesis using that by blast
qed

lemma ChangePassword_read:
  assumes "clib_ok C" "jmeta_ok J" "ChangePassword S C J b k1 k2 pw s = (Ret (Inr ()), t)"
    and "DownloadObjToBuffer S b MetadataObjName t = (Ret (Inr buf), u)"
  shows "\<exists>md. readBucketMetadataFile S C J b pw t = (Ret (Inr (md, k1, k2)), u)"
proof -
  obtain md where md: "objs (world t) b MetadataObjName = Some (md_marshal J md)"
    "decode_metadata C pw md = Ret (Inr (md, k1, k2))"
    "list_all json_plain (bm_Salt md @ EncryptedEncKeyB64 md @ EncryptedHmacKeyB64 md)"
    using ChangePassword_stores [OF assms(1,3)] .
  have "buf = md_marshal J md" using Download_ok [OF assms(4)] md(1) by simp
  with md assms(2,4) show ?thesis
    by (auto simp: readBucketMetadataFile_def go_run jmeta_ok_def)
qed

end

text \<open>
  C23. Changing the password re-wraps the two data keys: after a successful \<^verbatim>\<open>ChangePassword\<close>, reading
  the metadata under the new password unwraps the same keys. The new salt and key-encryption key never
  reach the data keys, so no object has to be encrypted again.
\<close>

theorem change_password:
  assumes "backup_env S objs" "clib_ok C" "jmeta_ok J" "ChangePassword S C J b encKey hmacKey pw s = (Ret (Inr ()), t)"
    and "DownloadObjToBuffer S b MetadataObjName t = (Ret (Inr buf), u)"
  shows "\<exists>md. readBucketMetadataFile S C J b pw t = (Ret (Inr (md, encKey, hmacKey)), u)"
  by (rule backup_env.ChangePassword_read [OF assms])

context backup_env
begin

lemma create_keys_32:
  assumes ok: "clib_ok C" "jmeta_ok J" and run: "create_metadata S C J b pw s = (Ret (Inr (salt, ver, k1, k2)), t)"
  shows "length salt = 32 \<and> ver = 1 \<and> length k1 = 32 \<and> length k2 = 32"
proof -
  from run obtain slt s1 pdKey key1 s2 c1 s3 key2 s4 c2 s5 s6 bm where
      salt: "GenerateRandomSalt S s = (Ret slt, s1)"
    and key: "DeriveKey C slt pw = Inr pdKey"
    and r1: "sysM (RandRead S 32) s1 = (Ret (Inr key1), s2)"
    and c1: "EncryptBuffer S C pdKey key1 s2 = (Ret (Inr c1), s3)"
    and r2: "sysM (RandRead S 32) s3 = (Ret (Inr key2), s4)"
    and c2: "EncryptBuffer S C pdKey key2 s4 = (Ret (Inr c2), s5)"
    and wr: "writeBucketMetadataFile S C J b \<lparr>bm_Salt = slt, bm_Version = 1, EncryptedEncKeyB64 = b64encode c1,
              EncryptedHmacKeyB64 = b64encode c2\<rparr> s5 = (Ret (Inr ()), s6)"
    and rd: "readBucketMetadataFile S C J b pw s6 = (Ret (Inr (bm, k1, k2)), t)"
    and res: "salt = bm_Salt bm" "ver = bm_Version bm"
    by (auto simp: create_metadata_def split: sum.splits elim!: bindM_RetE tryM_RetE)
  define md where "md = \<lparr>bm_Salt = slt, bm_Version = 1, EncryptedEncKeyB64 = b64encode c1, EncryptedHmacKeyB64 = b64encode c2\<rparr>"
  have st: "length slt = 32" "list_all json_plain slt" using GenerateRandomSalt_Ret [OF salt] by auto
  have pd: "pdKey = IDKey C (bytes_of_string pw) (bytes_of_string slt)"
    using key by (auto simp: DeriveKey_def split: if_splits)
  obtain n1 where n1: "length n1 = 12" "c1 = n1 @ GcmSeal C pdKey n1 (bytes_of_string (gz C (string_of_bytes key1)))"
    using c1 by (elim EncryptBuffer_RetE) (auto dest: rand_len)
  obtain n2 where n2: "length n2 = 12" "c2 = n2 @ GcmSeal C pdKey n2 (bytes_of_string (gz C (string_of_bytes key2)))"
    using c2 by (elim EncryptBuffer_RetE) (auto dest: rand_len)
  have dec: "decode_metadata C pw md = Ret (Inr (md, key1, key2))"
    by (rule decode_wrapped [OF ok(1) st(1) n1(1) n2(1) pd]) (simp_all add: md_def n1(2) n2(2))
  have "list_all json_plain (bm_Salt md @ EncryptedEncKeyB64 md @ EncryptedHmacKeyB64 md)"
    using st b64encode_plain by (simp add: md_def)
  with ok(2) have unm: "md_unmarshal J (md_marshal J md) = Inr md" by (simp add: jmeta_ok_def)
  have stored: "objs (world s6) b MetadataObjName = Some (md_marshal J md)"
    using wr by (auto simp: writeBucketMetadataFile_def Let_def md_def dest: Upload_ok)
  from rd obtain buf where "DownloadObjToBuffer S b MetadataObjName s6 = (Ret (Inr buf), t)"
    and d: "(case md_unmarshal J buf of Inl e \<Rightarrow> retM (Inl e) | Inr bMdata \<Rightarrow> liftGo (decode_metadata C pw bMdata)) t
      = (Ret (Inr (bm, k1, k2)), t)"
    by (auto simp: readBucketMetadataFile_def split: sum.splits elim!: tryM_RetE)
  then have "buf = md_marshal J md" using Download_ok stored by fastforce
  with d unm dec have "bm = md" "k1 = key1" "k2 = key2" by simp_all
  moreover have "length key1 = 32" "length key2 = 32"
    using r1 r2 by (auto simp: sysM_def split: prod.splits dest: rand_len)
  ultimately show ?thesis using st res by (simp add: md_def)
qed

end

lemma GetOrCreate_keys:
  assumes "backup_env S objs" "clib_ok C" "jmeta_ok J"
    and run: "GetOrCreateBucketMetadata S C J b pw s = (Ret (Inr (salt, ver, encKey, hmacKey)), t)"
  shows "length encKey = 32 \<and> length hmacKey = 32 \<and> aes_key encKey"
proof -
  from run consider "length encKey = 32 \<and> length hmacKey = 32"
    | s' where "create_metadata S C J b pw s' = (Ret (Inr (salt, ver, encKey, hmacKey)), t)"
    unfolding GetOrCreateBucketMetadata_def Let_def
    by (auto elim!: tryM_RetE bindM_RetE split: if_splits option.splits)
  then show ?thesis
  proof cases
    case 2
    from backup_env.create_keys_32 [OF assms(1-3) this] show ?thesis by simp
  qed simp
qed

text \<open>
  C24. The keys \<^verbatim>\<open>GetOrCreateBucketMetadata\<close> returns, whether it found them or generated them, are 256
  bits long: what AES-256-GCM and AES-256-GCM-SIV need.
\<close>

theorem bucket_keys_256_bits:
  assumes "backup_env S objs" "clib_ok C" "jmeta_ok J"
    and run: "GetOrCreateBucketMetadata S C J b pw s = (Ret (Inr (salt, ver, encKey, hmacKey)), t)"
  shows "length encKey = 32 \<and> length hmacKey = 32 \<and> aes_key encKey"
  by (rule GetOrCreate_keys [OF assms])

end
