(* ===== verification/Calendar.thy ===== *)
theory Calendar
  imports Util
begin

section \<open>Snapshot names and time\<close>

text \<open>
  A snapshot is named by the second at which its backup began:
  \<^verbatim>\<open>time.Unix(t, 0).UTC().Format("2006-01-02_15.04.05")\<close>, and read back by
  \<^verbatim>\<open>util.GetUnixTimeFromSnapshotName\<close>. The Gregorian calendar, \<^verbatim>\<open>Format\<close> and \<^verbatim>\<open>Parse\<close> for this
  layout are modelled in full (including what \<^verbatim>\<open>Parse\<close> accepts beyond \<^verbatim>\<open>Format\<close>'s output: a
  one-digit hour, and a fraction after the seconds). The lemmas show that names determine
  their time and that the program's sorting of names is sorting by time.
\<close>

subsection \<open>The calendar\<close>

definition leap :: "nat \<Rightarrow> bool" where
  "leap y \<longleftrightarrow> 4 dvd y \<and> (\<not> 100 dvd y \<or> 400 dvd y)"

definition days_in_year :: "nat \<Rightarrow> nat" where
  "days_in_year y = (if leap y then 366 else 365)"

definition days_in_month :: "nat \<Rightarrow> nat \<Rightarrow> nat" where
  "days_in_month y m =
     (if m = 2 then (if leap y then 29 else 28)
      else if m = 4 \<or> m = 6 \<or> m = 9 \<or> m = 11 then 30 else 31)"

text \<open>Days from the first day of a year to a given day: find the year, then the month.\<close>

function year_of :: "nat \<Rightarrow> nat \<Rightarrow> nat \<times> nat" where
  "year_of y d = (if d < days_in_year y then (y, d) else year_of (y + 1) (d - days_in_year y))"
  by pat_completeness auto
termination
  by (relation "measure snd") (auto simp: days_in_year_def split: if_splits)

declare year_of.simps [simp del]

function month_of :: "nat \<Rightarrow> nat \<Rightarrow> nat \<Rightarrow> nat \<times> nat" where
  "month_of y m d = (if 12 \<le> m \<or> d < days_in_month y m then (m, d)
     else month_of y (m + 1) (d - days_in_month y m))"
  by pat_completeness auto
termination
  by (relation "measure (\<lambda>(y, m, d). 12 - m)") auto

declare month_of.simps [simp del]

definition civil :: "nat \<Rightarrow> nat \<times> nat \<times> nat" where
  "civil d = (case year_of 1970 d of (y, r) \<Rightarrow> case month_of y 1 r of (m, k) \<Rightarrow> (y, m, k + 1))"

text \<open>And back: days before a year, a month and a day, counted from 1970-01-01.\<close>

definition year_days :: "nat \<Rightarrow> int" where
  "year_days y = (let n = int y - 1 in 365 * int y + n div 4 - n div 100 + n div 400)"

fun month_days :: "nat \<Rightarrow> nat \<Rightarrow> nat" where
  "month_days y 0 = 0"
| "month_days y (Suc 0) = 0"
| "month_days y (Suc (Suc m)) = month_days y (Suc m) + days_in_month y (Suc m)"

definition day_number :: "nat \<Rightarrow> nat \<Rightarrow> nat \<Rightarrow> int" where
  "day_number y m d = year_days y - year_days 1970 + int (month_days y m) + int d - 1"

subsection \<open>Format\<close>

definition digit :: "nat \<Rightarrow> char" where
  "digit n = char_of (48 + n)"

definition pad2 :: "nat \<Rightarrow> string" where
  "pad2 n = [digit (n div 10), digit (n mod 10)]"

definition pad4 :: "nat \<Rightarrow> string" where
  "pad4 n = (if n < 10000 then pad2 (n div 100) @ pad2 (n mod 100) else show_nat n)"

definition format_date :: "nat \<times> nat \<times> nat \<Rightarrow> string" where
  "format_date = (\<lambda>(y, m, d). pad4 y @ ''-'' @ pad2 m @ ''-'' @ pad2 d)"

definition format_clock :: "nat \<Rightarrow> string" where
  "format_clock s = pad2 (s div 3600) @ ''.'' @ pad2 (s mod 3600 div 60) @ ''.'' @ pad2 (s mod 60)"

definition snapshotNameOf :: "int \<Rightarrow> string" where
  "snapshotNameOf unixtime =
     (let t = nat unixtime in
      format_date (civil (t div 86400)) @ ''_'' @ format_clock (t mod 86400))"

subsection \<open>Parse\<close>

fun digit_val :: "char \<Rightarrow> nat" where
  "digit_val c = of_char c - 48"

text \<open>\<^verbatim>\<open>getnum\<close>: two digits, or one when the field does not fix the width.\<close>

fun getnum :: "bool \<Rightarrow> string \<Rightarrow> (nat \<times> string) option" where
  "getnum fixed (a # b # s) =
     (if \<not> is_digit a then None
      else if \<not> is_digit b then (if fixed then None else Some (digit_val a, b # s))
      else Some (10 * digit_val a + digit_val b, s))"
| "getnum fixed [a] = (if is_digit a \<and> \<not> fixed then Some (digit_val a, []) else None)"
| "getnum fixed [] = None"

fun get4 :: "string \<Rightarrow> (nat \<times> string) option" where
  "get4 (a # b # c # d # s) =
     (if list_all is_digit [a, b, c, d]
      then Some (1000 * digit_val a + 100 * digit_val b + 10 * digit_val c + digit_val d, s)
      else None)"
| "get4 _ = None"

fun skip_char :: "char \<Rightarrow> string \<Rightarrow> string option" where
  "skip_char c (x # s) = (if x = c then Some s else None)"
| "skip_char c [] = None"

text \<open>After the seconds \<^verbatim>\<open>Parse\<close> takes a fraction the layout does not mention.\<close>

fun skip_fraction :: "string \<Rightarrow> string" where
  "skip_fraction (x # y # s) =
     (if (x = CHR ''.'' \<or> x = CHR '','') \<and> is_digit y then dropWhile is_digit s else x # y # s)"
| "skip_fraction s = s"

definition in_range :: "nat \<Rightarrow> nat \<Rightarrow> nat \<Rightarrow> unit option" where
  "in_range lo hi n = (if lo \<le> n \<and> n \<le> hi then Some () else None)"

definition parse_snapshot_name :: "string \<Rightarrow> int option" where
  "parse_snapshot_name s0 =
     Option.bind (get4 s0) (\<lambda>(y, s). Option.bind (skip_char CHR ''-'' s) (\<lambda>s.
     Option.bind (getnum True s) (\<lambda>(m, s). Option.bind (in_range 1 12 m) (\<lambda>_.
     Option.bind (skip_char CHR ''-'' s) (\<lambda>s.
     Option.bind (getnum True s) (\<lambda>(d, s). Option.bind (skip_char CHR ''_'' s) (\<lambda>s.
     Option.bind (getnum False s) (\<lambda>(h, s). Option.bind (in_range 0 23 h) (\<lambda>_.
     Option.bind (skip_char CHR ''.'' s) (\<lambda>s.
     Option.bind (getnum True s) (\<lambda>(mi, s). Option.bind (in_range 0 59 mi) (\<lambda>_.
     Option.bind (skip_char CHR ''.'' s) (\<lambda>s.
     Option.bind (getnum True s) (\<lambda>(se, s). Option.bind (in_range 0 59 se) (\<lambda>_.
     Option.bind (in_range 1 (days_in_month y m) d) (\<lambda>_.
     if skip_fraction s = []
     then Some (day_number y m d * 86400 + int (h * 3600 + mi * 60 + se))
     else None))))))))))))))))"

definition GetUnixTimeFromSnapshotName :: "string \<Rightarrow> int go" where
  "GetUnixTimeFromSnapshotName snapshotName =
     (case parse_snapshot_name snapshotName of None \<Rightarrow> Fatal | Some t \<Rightarrow> Ret t)"

subsection \<open>The calendar is a bijection\<close>

lemma year_days_Suc: "1 \<le> y \<Longrightarrow> year_days (Suc y) = year_days y + int (days_in_year y)"
proof -
  assume "1 \<le> y"
  have step: "(int y) div int k = (int y - 1) div int k + (if k dvd y then 1 else 0)" if "0 < k" for k
  proof (cases "k dvd y")
    case True
    then obtain q where "y = k * q" by (rule dvdE)
    with that have "(int y - 1) div int k = int q - 1"
      by (intro int_div_pos_eq [where r = "int k - 1"]) (auto simp: algebra_simps)
    with \<open>y = k * q\<close> that show ?thesis by simp
  next
    case False
    define q where "q = y div k"
    define r where "r = y mod k"
    have "y = k * q + r" "r < k" "0 < r"
      using that False by (auto simp: q_def r_def mod_greater_zero_iff_not_dvd)
    then have "(int y - 1) div int k = int q"
      by (intro int_div_pos_eq [where r = "int r - 1"]) auto
    moreover have "int y div int k = int q" by (simp add: q_def zdiv_int)
    ultimately show ?thesis using False by simp
  qed
  have cases: "(b \<Longrightarrow> a) \<Longrightarrow> (c \<Longrightarrow> b) \<Longrightarrow> int (if a \<and> (\<not> b \<or> c) then 366 else 365) =
      365 + (if a then 1 else 0) - (if b then 1 else 0) + (if c then 1 else 0)" for a b c
    by auto
  have "100 dvd y \<Longrightarrow> 4 dvd y" "400 dvd y \<Longrightarrow> 100 dvd y"
    using dvd_trans [of 4 100 y] dvd_trans [of 100 400 y] by simp_all
  then have leaps: "int (days_in_year y) = 365 + (if 4 dvd y then 1 else 0)
      - (if 100 dvd y then 1 else 0) + (if 400 dvd y then 1 else 0)"
    unfolding days_in_year_def leap_def by (rule cases)
  have "int y div 4 = (int y - 1) div 4 + (if 4 dvd y then 1 else 0)"
    "int y div 100 = (int y - 1) div 100 + (if 100 dvd y then 1 else 0)"
    "int y div 400 = (int y - 1) div 400 + (if 400 dvd y then 1 else 0)"
    using step [of 4] step [of 100] step [of 400] by simp_all
  then show ?thesis unfolding year_days_def Let_def leaps by simp
qed

lemma year_days_mono: "1 \<le> y \<Longrightarrow> y \<le> z \<Longrightarrow> year_days y \<le> year_days z"
proof (induction z)
  case (Suc z)
  then show ?case by (cases "y = Suc z") (auto simp: year_days_Suc)
qed simp

lemma year_of_days:
  "1 \<le> y \<Longrightarrow> year_of y d = (z, r) \<Longrightarrow>
     year_days z + int r = year_days y + int d \<and> r < days_in_year z \<and> y \<le> z"
proof (induction y d rule: year_of.induct)
  case (1 y d)
  show ?case
  proof (cases "d < days_in_year y")
    case True
    with 1(3) show ?thesis by (simp add: year_of.simps [of y d])
  next
    case False
    with 1(3) have "year_of (y + 1) (d - days_in_year y) = (z, r)"
      by (simp add: year_of.simps [of y d])
    from 1(1) [OF False _ this] False 1(2) show ?thesis by (simp add: year_days_Suc)
  qed
qed

lemma month_days_Suc: "1 \<le> m \<Longrightarrow> month_days y (Suc m) = month_days y m + days_in_month y m"
  by (cases m) auto

lemma month_days_13: "month_days y 13 = days_in_year y"
  by (simp add: eval_nat_numeral days_in_month_def days_in_year_def)

lemma month_days_mono: "1 \<le> m \<Longrightarrow> m \<le> n \<Longrightarrow> month_days y m \<le> month_days y n"
proof (induction n)
  case (Suc n)
  then show ?case by (cases "m = Suc n") (auto simp: month_days_Suc)
qed simp

lemma month_of_days:
  "1 \<le> m \<Longrightarrow> m \<le> 12 \<Longrightarrow> month_days y m + d < days_in_year y \<Longrightarrow> month_of y m d = (n, k) \<Longrightarrow>
     month_days y n + k = month_days y m + d \<and> k < days_in_month y n \<and> 1 \<le> n \<and> n \<le> 12"
proof (induction y m d rule: month_of.induct)
  case (1 y m d)
  show ?case
  proof (cases "12 \<le> m \<or> d < days_in_month y m")
    case True
    then have nk: "n = m" "k = d" using 1(5) by (simp_all add: month_of.simps [of y m d])
    moreover have "d < days_in_month y m"
    proof (cases "d < days_in_month y m")
      case False
      with True 1(3) have "m = 12" by simp
      moreover have "days_in_year y = month_days y 12 + days_in_month y 12"
        using month_days_13 [of y] month_days_Suc [of 12 y] by simp
      ultimately show ?thesis using 1(4) by simp
    qed
    ultimately show ?thesis using 1(2,3) by simp
  next
    case False
    with 1(5) have "month_of y (m + 1) (d - days_in_month y m) = (n, k)"
      by (simp add: month_of.simps [of y m d])
    from 1(1) [OF False _ _ _ this] False 1(2-4) show ?thesis by (simp add: month_days_Suc)
  qed
qed

definition civil_ok :: "nat \<times> nat \<times> nat \<Rightarrow> bool" where
  "civil_ok = (\<lambda>(y, m, k). 1 \<le> y \<and> 1 \<le> m \<and> m \<le> 12 \<and> 1 \<le> k \<and> k \<le> days_in_month y m)"

lemma civil_day_number:
  assumes "civil d = (y, m, k)"
  shows "day_number y m k = int d" "civil_ok (y, m, k)" "1970 \<le> y"
proof -
  obtain z r where z: "year_of 1970 d = (z, r)" by fastforce
  obtain n j where n: "month_of z 1 r = (n, j)" by fastforce
  have eq: "y = z" "m = n" "k = j + 1" using assms z n by (auto simp: civil_def)
  have yd: "year_days z + int r = year_days 1970 + int d" "r < days_in_year z" "1970 \<le> z"
    using year_of_days [OF _ z] by auto
  moreover have "month_days z n + j = r" "j < days_in_month z n" "1 \<le> n" "n \<le> 12"
    using month_of_days [OF _ _ _ n] yd by auto
  ultimately show "day_number y m k = int d" "civil_ok (y, m, k)" "1970 \<le> y"
    by (auto simp: eq day_number_def civil_ok_def)
qed

lemma day_in_year: "civil_ok (y, m, k) \<Longrightarrow> month_days y m + k \<le> days_in_year y"
  using month_days_mono [of "Suc m" 13 y] month_days_Suc [of m y]
  by (auto simp: civil_ok_def month_days_13)

lemma day_number_less:
  assumes "civil_ok (y, m, k)" "civil_ok (z, n, j)"
    and "y < z \<or> y = z \<and> (m < n \<or> m = n \<and> k < j)"
  shows "day_number y m k < day_number z n j"
proof -
  consider "y < z" | "y = z" "m < n" | "y = z" "m = n" "k < j" using assms(3) by blast
  then show ?thesis
  proof cases
    case 1
    then have "year_days (Suc y) \<le> year_days z" by (intro year_days_mono) simp_all
    then show ?thesis
      using day_in_year [OF assms(1)] assms(1,2) by (auto simp: day_number_def civil_ok_def year_days_Suc)
  next
    case 2
    then have "month_days y (Suc m) \<le> month_days y n" by (intro month_days_mono) simp_all
    then show ?thesis
      using 2 assms(1,2) by (auto simp: day_number_def civil_ok_def month_days_Suc)
  qed (simp add: day_number_def)
qed

lemma year_below_10000:
  assumes "civil d = (y, m, k)" "d < 2932897"
  shows "y < 10000"
proof (rule ccontr)
  assume "\<not> y < 10000"
  then have "year_days 10000 \<le> year_days y" by (intro year_days_mono) simp_all
  then have "int d \<ge> 2932897"
    using civil_day_number [OF assms(1)] by (simp add: day_number_def civil_ok_def year_days_def)
  with assms(2) show False by simp
qed

subsection \<open>Reading back a printed name\<close>

lemma digit_facts: "n < 10 \<Longrightarrow> is_digit (digit n) \<and> digit_val (digit n) = n"
  by (simp add: digit_def is_digit_def less_eq_char_def digit_val.simps)

lemma digit_is_digit [simp]: "n < 10 \<Longrightarrow> is_digit (digit n)"
  and digit_val_digit [simp]: "n < 10 \<Longrightarrow> digit_val (digit n) = n"
  using digit_facts by blast+

declare digit_val.simps [simp del]

lemma getnum_pad2: "n < 100 \<Longrightarrow> getnum b (pad2 n @ s) = Some (n, s)"
  by (simp add: pad2_def)

lemma get4_pad4: "n < 10000 \<Longrightarrow> get4 (pad4 n @ s) = Some (n, s)"
proof -
  assume n: "n < 10000"
  define a b where "a = n div 100" and "b = n mod 100"
  have "n = 100 * a + b" "a = 10 * (a div 10) + a mod 10" "b = 10 * (b div 10) + b mod 10"
    by (simp_all add: a_def b_def)
  then have "1000 * (a div 10) + 100 * (a mod 10) + 10 * (b div 10) + b mod 10 = n" by linarith
  moreover have "a < 100" "b < 100" using n by (simp_all add: a_def b_def less_mult_imp_div_less)
  ultimately show ?thesis
    using n by (simp add: pad4_def pad2_def a_def [symmetric] b_def [symmetric] less_mult_imp_div_less)
qed

lemma getnum_pad2_end: "n < 100 \<Longrightarrow> getnum b (pad2 n) = Some (n, [])"
  using getnum_pad2 [of n b "[]"] by simp

lemma skip_char_simp: "skip_char c (c # s) = Some s"
  by simp

lemma days_in_month_le: "days_in_month y m \<le> 31"
  by (simp add: days_in_month_def)

lemma clock_fields:
  fixes s :: nat
  assumes "s < 86400"
  shows "s div 3600 \<le> 23" "s mod 3600 div 60 \<le> 59" "s mod 60 \<le> 59"
    "s div 3600 * 3600 + s mod 3600 div 60 * 60 + s mod 60 = s"
proof -
  have "s div 3600 < 24" "s mod 3600 div 60 < 60"
    using assms by (simp_all add: less_mult_imp_div_less)
  then show "s div 3600 \<le> 23" "s mod 3600 div 60 \<le> 59" by simp_all
  have "s mod 60 < 60" by simp
  then show "s mod 60 \<le> 59" by linarith
  have "s div 3600 * 3600 + s mod 3600 = s" by simp
  moreover have "s mod 3600 div 60 * 60 + s mod 3600 mod 60 = s mod 3600" by (rule div_mult_mod_eq)
  moreover have "s mod 3600 mod 60 = s mod 60" by (simp add: mod_mod_cancel)
  ultimately show "s div 3600 * 3600 + s mod 3600 div 60 * 60 + s mod 60 = s" by linarith
qed

lemma parse_format:
  assumes ok: "civil_ok (y, m, d)" "y < 10000" and s: "s < 86400"
  shows "parse_snapshot_name (format_date (y, m, d) @ ''_'' @ format_clock s)
    = Some (day_number y m d * 86400 + int s)"
proof -
  have m: "1 \<le> m" "m \<le> 12" "1 \<le> d" "d \<le> days_in_month y m" "d < 100"
    using ok days_in_month_le [of y m] by (auto simp: civil_ok_def)
  define h mi se where "h = s div 3600" and "mi = s mod 3600 div 60" and "se = s mod 60"
  have cl: "h \<le> 23" "mi \<le> 59" "se \<le> 59" and tot: "h * 3600 + mi * 60 + se = s"
    using clock_fields [OF s] by (simp_all add: h_def mi_def se_def)
  have "parse_snapshot_name (format_date (y, m, d) @ ''_'' @ format_clock s)
      = Some (day_number y m d * 86400 + int (h * 3600 + mi * 60 + se))"
    using ok(2) m cl
    by (simp add: parse_snapshot_name_def format_date_def format_clock_def get4_pad4 getnum_pad2
        getnum_pad2_end skip_char_simp in_range_def h_def [symmetric] mi_def [symmetric]
        se_def [symmetric])
  then show ?thesis by (simp only: tot)
qed

lemma snapshotNameOf_parse:
  assumes "0 \<le> t" "t < 253402300800"
  shows "parse_snapshot_name (snapshotNameOf t) = Some t"
proof -
  obtain y m d where c: "civil (nat t div 86400) = (y, m, d)" by (metis prod_cases3)
  have "nat t div 86400 < 2932897" using assms by (simp add: nat_less_iff)
  then have "y < 10000" using year_below_10000 [OF c] by blast
  moreover have "day_number y m d * 86400 + int (nat t mod 86400) = t"
    using civil_day_number(1) [OF c] assms(1)
    by (metis div_mult_mod_eq int_nat_eq of_nat_add of_nat_mult of_nat_numeral)
  ultimately show ?thesis
    using parse_format [of y m d "nat t mod 86400"] civil_day_number [OF c] c
    by (simp add: snapshotNameOf_def)
qed

subsection \<open>Sorting names is sorting by time\<close>

lemma digit_less: "a < 10 \<Longrightarrow> b < 10 \<Longrightarrow> digit a < digit b \<longleftrightarrow> a < b"
  by (simp add: digit_def less_char_def)

lemma pad2_less: "a < b \<Longrightarrow> b < 100 \<Longrightarrow> pad2 a @ s < pad2 b @ t"
proof -
  assume ab: "a < b" "b < 100"
  then have "a div 10 \<le> b div 10" by (intro div_le_mono) simp
  moreover have "a div 10 = b div 10 \<Longrightarrow> a mod 10 < b mod 10"
    using ab by (metis add_less_cancel_left div_mult_mod_eq)
  ultimately show ?thesis
    using ab by (cases "a div 10 = b div 10") (auto simp: pad2_def digit_less)
qed

lemma append_less: "s < (t :: string) \<Longrightarrow> p @ s < p @ t"
  by (induction p) auto

lemma pad4_less: "a < b \<Longrightarrow> b < 10000 \<Longrightarrow> pad4 a @ s < pad4 b @ t"
proof -
  assume ab: "a < b" "b < 10000"
  then have "a div 100 \<le> b div 100" by (intro div_le_mono) simp
  moreover have "a div 100 = b div 100 \<Longrightarrow> a mod 100 < b mod 100"
    using ab by (metis add_less_cancel_left div_mult_mod_eq)
  ultimately show ?thesis
    using ab pad2_less [of "a div 100" "b div 100"] pad2_less [of "a mod 100" "b mod 100" s t]
    by (cases "a div 100 = b div 100") (auto simp: pad4_def intro!: append_less)
qed

lemma format_date_less:
  assumes "civil_ok (y, m, k)" "civil_ok (z, n, j)" "y < 10000" "z < 10000"
    and "y < z \<or> y = z \<and> (m < n \<or> m = n \<and> k < j)"
  shows "format_date (y, m, k) @ s < format_date (z, n, j) @ t"
proof -
  have "n < 100" "j < 100"
    using assms(2) days_in_month_le [of z n] by (auto simp: civil_ok_def)
  with assms(3-5) show ?thesis
    by (auto simp: format_date_def pad4_less pad2_less intro!: append_less)
qed

lemma format_clock_less:
  assumes "s < t" "t < 86400"
  shows "format_clock s < format_clock t"
proof -
  have lt: "t div 3600 < 100" "t mod 3600 div 60 < 100" "t mod 60 < 100"
    using clock_fields [OF assms(2)] by simp_all
  have "s < 86400" using assms by simp
  note f = clock_fields [OF this] clock_fields [OF assms(2)]
  have "s div 3600 < t div 3600 \<or> s div 3600 = t div 3600 \<and>
      (s mod 3600 div 60 < t mod 3600 div 60 \<or>
       s mod 3600 div 60 = t mod 3600 div 60 \<and> s mod 60 < t mod 60)"
    using assms(1) f by linarith
  then consider "s div 3600 < t div 3600"
    | "s div 3600 = t div 3600" "s mod 3600 div 60 < t mod 3600 div 60"
    | "s div 3600 = t div 3600" "s mod 3600 div 60 = t mod 3600 div 60" "s mod 60 < t mod 60"
    by blast
  then show ?thesis
  proof cases
    case 1
    then show ?thesis using lt by (simp add: format_clock_def pad2_less)
  next
    case 2
    then show ?thesis using lt by (auto simp: format_clock_def pad2_less intro!: append_less)
  next
    case 3
    then show ?thesis
      using lt pad2_less [of "s mod 60" "t mod 60" "[]" "[]"]
      by (auto simp: format_clock_def intro!: append_less)
  qed
qed

lemma snapshotNameOf_less:
  assumes "0 \<le> t" "t < u" "u < 253402300800"
  shows "snapshotNameOf t < snapshotNameOf u"
proof -
  obtain y m k where c: "civil (nat t div 86400) = (y, m, k)" by (metis prod_cases3)
  obtain z n j where d: "civil (nat u div 86400) = (z, n, j)" by (metis prod_cases3)
  have lt: "nat t div 86400 < 2932897" "nat u div 86400 < 2932897" using assms by (simp_all add: nat_less_iff)
  have years: "y < 10000" "z < 10000"
    using year_below_10000 [OF c] year_below_10000 [OF d] lt by auto
  have le: "nat t div 86400 \<le> nat u div 86400" using assms by (intro div_le_mono) simp
  show ?thesis
  proof (cases "nat t div 86400 = nat u div 86400")
    case True
    have "nat t < nat u" using assms by simp
    with True have "nat t mod 86400 < nat u mod 86400"
      by (metis add_less_cancel_left div_mult_mod_eq)
    then have "format_clock (nat t mod 86400) < format_clock (nat u mod 86400)"
      by (intro format_clock_less) simp_all
    with True show ?thesis by (auto simp: snapshotNameOf_def Let_def intro!: append_less)
  next
    case False
    with le have "day_number y m k < day_number z n j"
      using civil_day_number(1) [OF c] civil_day_number(1) [OF d] by simp
    then have "\<not> day_number z n j \<le> day_number y m k" by simp
    then have "y < z \<or> y = z \<and> (m < n \<or> m = n \<and> k < j)"
      using day_number_less [of z n j y m k] civil_day_number(2) [OF c] civil_day_number(2) [OF d]
      by (metis linorder_neqE_nat order.refl less_imp_le)
    then show ?thesis
      using format_date_less years civil_day_number(2) [OF c] civil_day_number(2) [OF d] c d
      by (simp add: snapshotNameOf_def)
  qed
qed

subsection \<open>Properties\<close>

interpretation snapshot_names: codec "\<lambda>t. 0 \<le> t \<and> t < 253402300800" snapshotNameOf parse_snapshot_name
  by unfold_locales (simp add: snapshotNameOf_parse)

text \<open>
  C38. A snapshot name reads back as the second it was made from, for every time from 1970 to the
  end of the year 9999.
\<close>

theorem snapshot_name_roundtrip:
  assumes "0 \<le> t" "t < 253402300800"
  shows "GetUnixTimeFromSnapshotName (snapshotNameOf t) = Ret t"
  using snapshot_names.roundtrip assms by (simp add: GetUnixTimeFromSnapshotName_def)

theorem snapshot_name_roundtrip_witness:
  "GetUnixTimeFromSnapshotName (snapshotNameOf 951782400) = Ret 951782400"
  using snapshot_name_roundtrip [of 951782400] by simp

text \<open>
  C39. The text order of snapshot names is the order of their times. The program sorts names with
  \<^verbatim>\<open>sort.Strings\<close> to find the most recent snapshot.
\<close>

theorem snapshot_name_order:
  assumes "0 \<le> t" "t < 253402300800" "0 \<le> u" "u < 253402300800"
  shows "snapshotNameOf t < snapshotNameOf u \<longleftrightarrow> t < u"
proof
  assume less: "snapshotNameOf t < snapshotNameOf u"
  show "t < u"
  proof (rule ccontr)
    assume "\<not> t < u"
    with less have "u < t" by (cases "t = u") auto
    with snapshotNameOf_less [of u t] assms less show False by auto
  qed
qed (use snapshotNameOf_less assms in blast)

theorem snapshot_name_order_witness:
  "snapshotNameOf 951782399 < snapshotNameOf 951782400"
  using snapshot_name_order [of 951782399 951782400] by simp

end
