(* ===== verification/Snapshots.thy ===== *)
theory Snapshots
  imports BucketMetadata Calendar
begin

section \<open>Snapshot indices (pkg/snapshots)\<close>

text \<open>
  \<^verbatim>\<open>get_grouped_snapshots.go\<close>, \<^verbatim>\<open>indices.go\<close>, \<^verbatim>\<open>snapshots.go\<close> and \<^verbatim>\<open>usage.go\<close>. An index object
  \<^verbatim>\<open>enc(backup)/@enc(snapshot)\<close> lists for every path of a snapshot the extents of the chunks that
  hold its content. Snapshots are deleted by deleting their index and then collecting the chunks no
  remaining index refers to.

  \<^verbatim>\<open>encoding/json\<close> is the parameter \<open>jidx\<close>; its law \<open>jidx_ok\<close> is for names that are valid UTF-8,
  since the package replaces other bytes. A Go map read back from JSON is the same map, not the
  same order.
\<close>

subsection \<open>Data\<close>

record ChunkExtent =
  ChunkName :: string
  ce_Offset :: int
  ce_Len :: int

record CloudRelPath =
  RelPath :: string
  ChunkExtents :: "ChunkExtent list"

record Snapshot =
  ss_EncryptedName :: string
  ss_DecryptedName :: string
  Datetime :: int
  RelPaths :: "(string \<times> CloudRelPath) list"

record BackupDir =
  bd_EncryptedName :: string
  bd_DecryptedName :: string
  Snapshots :: "(string \<times> Snapshot) list"

record jidx =
  crp_marshal :: "CloudRelPath \<Rightarrow> bytes"
  crp_unmarshal :: "bytes \<Rightarrow> CloudRelPath option"
  ss_marshal :: "Snapshot \<Rightarrow> bytes"
  ss_unmarshal :: "bytes \<Rightarrow> goerr + Snapshot"

definition ToJson :: "jidx \<Rightarrow> CloudRelPath \<Rightarrow> bytes" where
  "ToJson J crp = crp_marshal J crp"

definition NewCloudRelPathFromJson :: "jidx \<Rightarrow> bytes \<Rightarrow> CloudRelPath option" where
  "NewCloudRelPathFromJson J jsonBuf = crp_unmarshal J jsonBuf"

definition UnmarshalSnapshotObj :: "jidx \<Rightarrow> bytes \<Rightarrow> goerr + Snapshot" where
  "UnmarshalSnapshotObj J indexFileJsonBuf = ss_unmarshal J indexFileJsonBuf"

definition GetMostRecentSnapshot :: "BackupDir \<Rightarrow> Snapshot option" where
  "GetMostRecentSnapshot bd =
     (let snapshotKeys = sort (map_keys (Snapshots bd)) in
      if length snapshotKeys = 0 then None
      else map_of (Snapshots bd) (snapshotKeys ! (length snapshotKeys - 1)))"

text \<open>Looking up a missing key of a Go map gives the zero value.\<close>

definition no_backup_dir :: BackupDir where
  "no_backup_dir = \<lparr>bd_EncryptedName = [], bd_DecryptedName = [], Snapshots = []\<rparr>"

definition backup_dir :: "(string \<times> BackupDir) list \<Rightarrow> string \<Rightarrow> BackupDir" where
  "backup_dir g n = (case map_of g n of None \<Rightarrow> no_backup_dir | Some bd \<Rightarrow> bd)"

subsection \<open>Reading indices\<close>

definition decryptIndexFile :: "clib \<Rightarrow> bytes \<Rightarrow> bytes \<Rightarrow> (goerr + bytes) go" where
  "decryptIndexFile C key encBuf = DecryptBuffer C key encBuf"

definition GetSnapshotIndexFile :: "'w sys \<Rightarrow> clib \<Rightarrow> string \<Rightarrow> bytes \<Rightarrow> string
    \<Rightarrow> (('w, 'z) gst_scheme, goerr + bytes) prog" where
  "GetSnapshotIndexFile S C bucket key encObjName =
     tryM (DownloadObjToBuffer S bucket encObjName) (\<lambda>e. retM (Inl e))
       (\<lambda>buf. liftGo (decryptIndexFile C key buf))"

text \<open>The inner loop: every index object of one backup. A name that does not decrypt is skipped.\<close>

fun read_indices :: "'w sys \<Rightarrow> clib \<Rightarrow> jidx \<Rightarrow> string \<Rightarrow> bytes \<Rightarrow> string \<Rightarrow> string list
    \<Rightarrow> (string \<times> Snapshot) list \<Rightarrow> (('w, 'z) gst_scheme, goerr + (string \<times> Snapshot) list) prog" where
  "read_indices S C J bucket key encBackupName [] acc = retM (Inr acc)"
| "read_indices S C J bucket key encBackupName (encObjName # rest) acc =
     (let encSsName = TrimPrefix encObjName (encBackupName @ ''/@'') in
      tryM (liftGo (DecryptFilename C key encSsName))
        (\<lambda>e. read_indices S C J bucket key encBackupName rest acc)
        (\<lambda>ssName. tryM (GetSnapshotIndexFile S C bucket key encObjName) (\<lambda>e. retM (Inl e)) (\<lambda>buf.
           case UnmarshalSnapshotObj J buf of
             Inl e \<Rightarrow> retM (Inl e)
           | Inr ssObj \<Rightarrow>
               read_indices S C J bucket key encBackupName rest (map_put ssName ssObj acc))))"

fun group_backups :: "'w sys \<Rightarrow> clib \<Rightarrow> jidx \<Rightarrow> bytes \<Rightarrow> string \<Rightarrow> string list
    \<Rightarrow> (string \<times> BackupDir) list \<Rightarrow> (('w, 'z) gst_scheme, goerr + (string \<times> BackupDir) list) prog" where
  "group_backups S C J key bucket [] ret = retM (Inr ret)"
| "group_backups S C J key bucket (encBackupName # rest) ret =
     tryM (liftGo (DecryptFilename C key encBackupName)) (\<lambda>e. retM (Inl e)) (\<lambda>backupName.
     tryM (GetObjList S bucket (encBackupName @ ''/@'') False) (\<lambda>e. retM (Inl e)) (\<lambda>mObjs.
     tryM (read_indices S C J bucket key encBackupName (map_keys mObjs) []) (\<lambda>e. retM (Inl e)) (\<lambda>ss.
     group_backups S C J key bucket rest (map_put backupName
       \<lparr>bd_EncryptedName = encBackupName, bd_DecryptedName = backupName, Snapshots = ss\<rparr> ret))))"

text \<open>The extra pass that counts the indices when a progress callback is given.\<close>

fun count_indices :: "'w sys \<Rightarrow> string \<Rightarrow> string list \<Rightarrow> int \<Rightarrow> (('w, 'z) gst_scheme, goerr + int) prog" where
  "count_indices S bucket [] n = retM (Inr n)"
| "count_indices S bucket (encBackupName # rest) n =
     tryM (GetObjList S bucket (encBackupName @ ''/@'') False) (\<lambda>e. retM (Inl e))
       (\<lambda>m. count_indices S bucket rest (n + int (length m)))"

definition GetGroupedSnapshots :: "'w sys \<Rightarrow> clib \<Rightarrow> jidx \<Rightarrow> bytes \<Rightarrow> string \<Rightarrow> bool
    \<Rightarrow> (('w, 'z) gst_scheme, goerr + (string \<times> BackupDir) list) prog" where
  "GetGroupedSnapshots S C J key bucket progress =
     tryM (GetObjListTopLevel S bucket [''metadata'', ''chunks'']) (\<lambda>e. retM (Inl e)) (\<lambda>topLevelObjs.
     tryM (if progress then count_indices S bucket topLevelObjs 0 else retM (Inr 0))
       (\<lambda>e. retM (Inl e)) (\<lambda>_.
     group_backups S C J key bucket topLevelObjs []))"

subsection \<open>Writing indices\<close>

definition SerializeAndWriteSnapshotObj :: "'w sys \<Rightarrow> clib \<Rightarrow> jidx \<Rightarrow> Snapshot \<Rightarrow> bytes \<Rightarrow> string
    \<Rightarrow> string \<Rightarrow> string \<Rightarrow> (('w, 'z) gst_scheme, goerr + unit) prog" where
  "SerializeAndWriteSnapshotObj S C J snapshotObj key encryptedBackupDirName encryptedSnapshotName bucket =
     (let buf = ss_marshal J snapshotObj in
      tryM (EncryptBuffer S C key buf) (\<lambda>e. retM (Inl e)) (\<lambda>encBuf.
        let objName = encryptedBackupDirName @ ''/'' @ ''@'' @ encryptedSnapshotName in
        UploadObjFromBuffer S bucket objName encBuf (ComputeETag C encBuf)))"

text \<open>\<^verbatim>\<open>time.Time{}\<close> in Unix seconds: what a failed parse leaves in \<^verbatim>\<open>Datetime\<close>.\<close>

definition zero_time :: int where
  "zero_time = -62135596800"

text \<open>Collecting the journal's entries; a corrupt entry is a nil pointer, and dereferenced.\<close>

fun collect_entries :: "jidx \<Rightarrow> bytes option list \<Rightarrow> (string \<times> CloudRelPath) list
    \<Rightarrow> (string \<times> CloudRelPath) list go" where
  "collect_entries J [] m = Ret m"
| "collect_entries J (indexEntry # rest) m =
     (case indexEntry of
        None \<Rightarrow> collect_entries J rest m
      | Some b \<Rightarrow>
          if length b > 0 then (case NewCloudRelPathFromJson J b of
              None \<Rightarrow> Panic
            | Some crp \<Rightarrow> collect_entries J rest (map_put (RelPath crp) crp m))
          else collect_entries J rest m)"

definition WriteIndexFile :: "'w sys \<Rightarrow> clib \<Rightarrow> jidx \<Rightarrow> string \<Rightarrow> bytes \<Rightarrow> string \<Rightarrow> string
    \<Rightarrow> (('w, 'z) dst_scheme, goerr + unit) prog" where
  "WriteIndexFile S C J bucket key backupDirName snapshotName =
     (case EncryptFilename C key snapshotName of
        Inl e \<Rightarrow> retM (Inl e)
      | Inr encryptedSnapshotName \<Rightarrow> (case EncryptFilename C key backupDirName of
          Inl e \<Rightarrow> retM (Inl e)
        | Inr encryptedBackupDirName \<Rightarrow>
            let snapShotDateTime = (case parse_snapshot_name snapshotName of
                  None \<Rightarrow> zero_time | Some t \<Rightarrow> t) in
            tryM (dbM GetAllBackupJournalRowIndexEntries)
              (\<lambda>e. retM (Inl (GoErr ''error: writeIndexFile failed''))) (\<lambda>indexEntries.
            bindM (liftGo (collect_entries J indexEntries [])) (\<lambda>relPaths.
            SerializeAndWriteSnapshotObj S C J
              \<lparr>ss_EncryptedName = encryptedSnapshotName, ss_DecryptedName = snapshotName,
               Datetime = snapShotDateTime, RelPaths = relPaths\<rparr>
              key encryptedBackupDirName encryptedSnapshotName bucket))))"

subsection \<open>Garbage collection and deletion\<close>

fun count_ref :: "string \<Rightarrow> (string \<times> int) list \<Rightarrow> (string \<times> int) list" where
  "count_ref chunkName refs = (case map_of refs chunkName of
       Some v \<Rightarrow> map_put chunkName (v + 1) refs
     | None \<Rightarrow> map_put chunkName 1 refs)"

definition chunkRefCount :: "(string \<times> BackupDir) list \<Rightarrow> (string \<times> int) list" where
  "chunkRefCount g =
     fold (\<lambda>(_, bd). fold (\<lambda>(_, ss). fold (\<lambda>(_, crp). fold (\<lambda>ce. count_ref (ChunkName ce))
       (ChunkExtents crp)) (RelPaths ss)) (Snapshots bd)) g []"

fun gc_delete :: "'w sys \<Rightarrow> string \<Rightarrow> (string \<times> int) list \<Rightarrow> string list
    \<Rightarrow> (('w, 'z) gst_scheme, goerr + unit) prog" where
  "gc_delete S bucket refs [] = retM (Inr ())"
| "gc_delete S bucket refs (cloudChunkObjName # rest) =
     (let cloudChunkName = TrimPrefix cloudChunkObjName ''chunks/'' in
      if map_of refs cloudChunkName = None
      then tryM (DeleteObj S bucket cloudChunkObjName) (\<lambda>e. retM (Inl e))
             (\<lambda>_. gc_delete S bucket refs rest)
      else gc_delete S bucket refs rest)"

definition GCChunks :: "'w sys \<Rightarrow> clib \<Rightarrow> jidx \<Rightarrow> string \<Rightarrow> bytes \<Rightarrow> bool
    \<Rightarrow> (('w, 'z) gst_scheme, goerr + unit) prog" where
  "GCChunks S C J bucket key progress =
     tryM (GetGroupedSnapshots S C J key bucket progress) (\<lambda>e. retM (Inl e)) (\<lambda>groupedObjects.
     tryM (GetObjList S bucket ''chunks/'' False) (\<lambda>e. retM (Inl e)) (\<lambda>mCloudChunks.
     gc_delete S bucket (chunkRefCount groupedObjects) (map_keys mCloudChunks)))"

record SnapshotForDeletion =
  sd_BackupDirName :: string
  sd_SnapshotName :: string

fun delete_indices :: "'w sys \<Rightarrow> clib \<Rightarrow> bytes \<Rightarrow> SnapshotForDeletion list \<Rightarrow> string
    \<Rightarrow> (('w, 'z) gst_scheme, goerr + unit) prog" where
  "delete_indices S C key [] bucket = retM (Inr ())"
| "delete_indices S C key (deleteSnapshot # rest) bucket =
     (let snapshotName = sd_SnapshotName deleteSnapshot;
        backupDirName = sd_BackupDirName deleteSnapshot in
      case EncryptFilename C key snapshotName of
        Inl e \<Rightarrow> retM (Inl (GoErr (''error: DeleteSnapshot: could not encrypt snapshot name ('' @
          snapshotName @ ''): '' @ error_text e)))
      | Inr encryptedSnapshotName \<Rightarrow> (case EncryptFilename C key backupDirName of
          Inl e \<Rightarrow> retM (Inl (GoErr (''error: DeleteSnapshot: could not encrypt backup dir name ('' @
            backupDirName @ ''): '' @ error_text e)))
        | Inr encryptedBackupDirName \<Rightarrow>
            let indexObjName = encryptedBackupDirName @ ''/@'' @ encryptedSnapshotName in
            tryM (DeleteObj S bucket indexObjName)
              (\<lambda>e. retM (Inl (GoErr (''error: DeleteSnapshot: could not delete old snapshot'' @
                 [CHR 0x27] @ ''s index file ('' @ indexObjName @ ''): '' @ error_text e))))
              (\<lambda>_. delete_indices S C key rest bucket)))"

definition DeleteSnapshots :: "'w sys \<Rightarrow> clib \<Rightarrow> jidx \<Rightarrow> bytes \<Rightarrow> SnapshotForDeletion list \<Rightarrow> string
    \<Rightarrow> bool \<Rightarrow> (('w, 'z) gst_scheme, goerr + unit) prog" where
  "DeleteSnapshots S C J key deleteSnapshots bucket progress =
     tryM (delete_indices S C key deleteSnapshots bucket) (\<lambda>e. retM (Inl e)) (\<lambda>_.
     tryM (GCChunks S C J bucket key progress)
       (\<lambda>e. retM (Inl (GoErr (''error: DeleteSnapshot: could not garbage collect chunks: '' @ error_text e))))
       (\<lambda>_. retM (Inr ())))"

text \<open>The index \<^verbatim>\<open>snapshotKeys[len(snapshotKeys)-1]\<close> panics when the backup has no snapshot.\<close>

definition IsMostRecentSnapshotForBackup :: "(string \<times> BackupDir) list \<Rightarrow> string \<Rightarrow> string \<Rightarrow> bool go" where
  "IsMostRecentSnapshotForBackup groupedObjects backupDirName snapshotTimestamp =
     (let snapshotKeys = sort (map_keys (Snapshots (backup_dir groupedObjects backupDirName))) in
      if length snapshotKeys = 0 then Panic
      else Ret (snapshotTimestamp = snapshotKeys ! (length snapshotKeys - 1)))"

subsection \<open>Snapshot information and space\<close>

record SnapshotInfo =
  si_Name :: string
  RawSnapshotName :: string
  TimestampUnix :: int

fun snapshot_infos :: "clib \<Rightarrow> bytes \<Rightarrow> string \<Rightarrow> string list \<Rightarrow> SnapshotInfo list
    \<Rightarrow> (goerr + SnapshotInfo list) go" where
  "snapshot_infos C key backupName [] acc = Ret (Inr acc)"
| "snapshot_infos C key backupName (encSnapshotName0 # rest) acc =
     (let encSnapshotName = TrimPrefix encSnapshotName0 ''@'' in
      bindGo (DecryptFilename C key encSnapshotName) (\<lambda>r. case r of
        Inl e \<Rightarrow> Ret (Inl e)
      | Inr snapshotName \<Rightarrow>
          bindGo (GetUnixTimeFromSnapshotName snapshotName) (\<lambda>t.
          snapshot_infos C key backupName rest (acc @ [\<lparr>si_Name = snapshotName,
            RawSnapshotName = backupName @ ''/'' @ snapshotName, TimestampUnix = t\<rparr>]))))"

fun backup_infos :: "clib \<Rightarrow> bytes \<Rightarrow> (string \<times> string list) list \<Rightarrow> (string \<times> SnapshotInfo list) list
    \<Rightarrow> (goerr + (string \<times> SnapshotInfo list) list) go" where
  "backup_infos C key [] mRet = Ret (Inr mRet)"
| "backup_infos C key ((encBackupName, encNames) # rest) mRet =
     bindGo (DecryptFilename C key encBackupName) (\<lambda>r. case r of
       Inl e \<Rightarrow> Ret (Inl e)
     | Inr backupName \<Rightarrow> bindGo (snapshot_infos C key backupName encNames []) (\<lambda>r. case r of
         Inl e \<Rightarrow> Ret (Inl e)
       | Inr infos \<Rightarrow> backup_infos C key rest (map_put backupName (sort_key TimestampUnix infos) mRet)))"

definition GetAllSnapshotInfos :: "'w sys \<Rightarrow> clib \<Rightarrow> bytes \<Rightarrow> string
    \<Rightarrow> (('w, 'z) gst_scheme, goerr + (string \<times> SnapshotInfo list) list) prog" where
  "GetAllSnapshotInfos S C key bucket =
     tryM (GetObjListTopTwoLevels S bucket [''metadata'', ''chunks''] []) (\<lambda>e. retM (Inl e)) (\<lambda>m.
     liftGo (backup_infos C key m []))"

fun sum_indices :: "'w sys \<Rightarrow> string \<Rightarrow> string list \<Rightarrow> int \<Rightarrow> (('w, 'z) gst_scheme, goerr + int) prog" where
  "sum_indices S bucket [] n = retM (Inr n)"
| "sum_indices S bucket (encBackupName # rest) n =
     tryM (GetObjList S bucket (encBackupName @ ''/@'') False) (\<lambda>e. retM (Inl e))
       (\<lambda>m. sum_indices S bucket rest (n + sum_list (map snd m)))"

definition ComputeTotalCloudSpaceUsage :: "'w sys \<Rightarrow> string \<Rightarrow> (('w, 'z) gst_scheme, goerr + int) prog" where
  "ComputeTotalCloudSpaceUsage S bucket =
     tryM (GetObjList S bucket ''metadata'' False) (\<lambda>e. retM (Inl e)) (\<lambda>metadataFileMap.
     tryM (GetObjListTopLevel S bucket [''metadata'', ''chunks'']) (\<lambda>e. retM (Inl e)) (\<lambda>topLevelObjs.
     tryM (sum_indices S bucket topLevelObjs (sum_list (map snd metadataFileMap)))
       (\<lambda>e. retM (Inl e)) (\<lambda>sizeAccum.
     tryM (GetObjList S bucket ''chunks/'' False) (\<lambda>e. retM (Inl e)) (\<lambda>mCloudChunks.
     retM (Inr (sizeAccum + sum_list (map snd mCloudChunks)))))))"

subsection \<open>The most recent snapshot\<close>

text \<open>
  C35. \<^verbatim>\<open>GetMostRecentSnapshot\<close> picks the greatest name, and answers nil exactly when there is no snapshot;
  \<^verbatim>\<open>IsMostRecentSnapshotForBackup\<close> holds of that name only, and panics when the backup has no snapshot.
\<close>

theorem most_recent_snapshot:
  fixes g :: "(string \<times> BackupDir) list" and n :: string
  defines "ss \<equiv> Snapshots (backup_dir g n)"
  shows "(ss = [] \<longrightarrow> GetMostRecentSnapshot (backup_dir g n) = None \<and> IsMostRecentSnapshotForBackup g n ts = Panic) \<and>
    (ss \<noteq> [] \<longrightarrow> (\<exists>k \<in> set (map_keys ss). (\<forall>k' \<in> set (map_keys ss). k' \<le> k) \<and>
      GetMostRecentSnapshot (backup_dir g n) = map_of ss k \<and> map_of ss k \<noteq> None \<and>
      IsMostRecentSnapshotForBackup g n ts = Ret (ts = k)))"
proof (cases "ss = []")
  case False
  let ?ks = "sort (map_keys ss)"
  let ?k = "?ks ! (length ?ks - 1)"
  have set: "set ?ks = set (map_keys ss)" by simp
  have ne: "?ks \<noteq> []" using False set by (metis list.map_disc_iff set_empty)
  have k: "?k \<in> set ?ks" using ne by (intro nth_mem) (cases ?ks; simp)
  have max: "k' \<le> ?k" if "k' \<in> set ?ks" for k'
  proof -
    from that obtain i where "k' = ?ks ! i" "i < length ?ks" unfolding in_set_conv_nth by blast
    then show ?thesis using sorted_nth_mono [OF sorted_sort, of i "length ?ks - 1" "map_keys ss"] by simp
  qed
  have "map_of ss ?k \<noteq> None" using k unfolding set by (simp only: map_of_keys_iff simp_thms)
  moreover have "GetMostRecentSnapshot (backup_dir g n) = map_of ss ?k"
    "IsMostRecentSnapshotForBackup g n ts = Ret (ts = ?k)"
    using ne unfolding GetMostRecentSnapshot_def IsMostRecentSnapshotForBackup_def ss_def [symmetric] Let_def
    by (simp_all only: length_0_conv if_False)
  ultimately show ?thesis using False k max unfolding set by blast
qed (simp add: GetMostRecentSnapshot_def IsMostRecentSnapshotForBackup_def ss_def [symmetric])

theorem most_recent_snapshot_witness:
  "let s = \<lparr>ss_EncryptedName = [], ss_DecryptedName = [], Datetime = 0, RelPaths = []\<rparr>;
     ss = [(''2022-01-02'', s), (''2023-01-01'', s), (''2021-12-31'', s)];
     g = [(''Docs'', \<lparr>bd_EncryptedName = [], bd_DecryptedName = [], Snapshots = ss\<rparr>)]
   in \<exists>k \<in> set (map_keys ss). (\<forall>k' \<in> set (map_keys ss). k' \<le> k) \<and> IsMostRecentSnapshotForBackup g ''Docs'' ''x'' = Ret (''x'' = k)"
proof -
  define s where "s = \<lparr>ss_EncryptedName = [], ss_DecryptedName = [], Datetime = 0, RelPaths = []\<rparr>"
  define ss where "ss = [(''2022-01-02'', s), (''2023-01-01'', s), (''2021-12-31'', s)]"
  define g where "g = [(''Docs'', \<lparr>bd_EncryptedName = [], bd_DecryptedName = [], Snapshots = ss\<rparr>)]"
  have "Snapshots (backup_dir g ''Docs'') = ss" "ss \<noteq> []" by (simp_all add: backup_dir_def g_def ss_def)
  then have "\<exists>k \<in> set (map_keys ss). (\<forall>k' \<in> set (map_keys ss). k' \<le> k) \<and> IsMostRecentSnapshotForBackup g ''Docs'' ''x'' = Ret (''x'' = k)"
    using most_recent_snapshot [of g "''Docs''" "''x''"] by auto
  then show ?thesis unfolding Let_def s_def [symmetric] ss_def [symmetric] g_def [symmetric] .
qed

end
