(* ===== verification/ChunkPacker.thy ===== *)
theory ChunkPacker
  imports Serde Snapshots
begin

section \<open>Packing small entries into chunks (pkg/backup/chunk_packer.go)\<close>

text \<open>
  The engine of a backup: the state shared by the packer, the backup of one entry and the player of
  the journal. \<open>sdb\<close> is the in-memory database the engine works on, \<open>fdb\<close> the file it is persisted
  to. What \<^verbatim>\<open>newChunkPacker\<close> captures in the struct (client, bucket, key, ...) is the record \<open>benv\<close>.

  The goroutine that persists the database during an upload only reads the memory database and
  writes the file database, so the model runs it before the upload; when an upload fails the code
  does not wait for it.
\<close>

subsection \<open>Engine state\<close>

record 'w benv =
  eS :: "'w sys"
  eC :: clib
  eJ :: jidx
  eG :: gob
  eKey :: bytes
  eBucket :: string

record BackupStats =
  cntFiles :: int
  cntBytes :: int
  startTimeUnix :: int

record chunkPackerItem =
  cpi_relPath :: string
  cpi_Offset :: int
  cpi_Len :: int
  cpi_bjt :: BackupJournalTask

record 'w est = "'w dst" +
  fdb :: db
  lastPersisted :: int
  items :: "chunkPackerItem list"
  plaintextChunkBuf :: bytes
  posInPlaintextChunk :: int
  totalCntJournal :: int
  finishedCountJournal :: int
  stats :: "BackupStats option"

definition ChunkSize :: int where
  "ChunkSize = 134217728"

subsection \<open>Statistics (backup_stats.go)\<close>

definition NewBackupStats :: "int \<Rightarrow> BackupStats" where
  "NewBackupStats now = \<lparr>cntFiles = 0, cntBytes = 0, startTimeUnix = now\<rparr>"

definition AddFile :: "BackupStats \<Rightarrow> BackupStats" where
  "AddFile bs = bs\<lparr>cntFiles := cntFiles bs + 1\<rparr>"

definition AddBytes :: "int \<Rightarrow> BackupStats \<Rightarrow> BackupStats" where
  "AddBytes n bs = bs\<lparr>cntBytes := cntBytes bs + n\<rparr>"

definition AddBytesFromChunkExtents :: "ChunkExtent list \<Rightarrow> BackupStats \<Rightarrow> BackupStats" where
  "AddBytesFromChunkExtents chunkExtents bs = fold (\<lambda>ce. AddBytes (ce_Len ce)) chunkExtents bs"

definition statsM :: "(BackupStats \<Rightarrow> BackupStats) \<Rightarrow> (('w, 'z) est_scheme, unit) prog" where
  "statsM f = modifyM (\<lambda>s. s\<lparr>stats := map_option f (stats s)\<rparr>)"

subsection \<open>Helpers of the engine\<close>

definition generateRandomChunkName :: "'w sys \<Rightarrow> (('w, 'z) gst_scheme, string) prog" where
  "generateRandomChunkName S =
     tryM (sysM (RandRead S 32)) (\<lambda>e. liftGo Fatal) (\<lambda>randBytes. retM (b64encode randBytes))"

text \<open>\<^verbatim>\<open>makePersistMemDbToFile\<close>: the closure that copies the memory database over the file.\<close>

definition copy_db :: "(('w, 'z) est_scheme, unit) prog" where
  "copy_db = (\<lambda>s. case BackupTo (sdb s) (fdb s) of (r, d) \<Rightarrow> (r, s\<lparr>fdb := d\<rparr>))"

definition persistMemDbToFile :: "'w benv \<Rightarrow> bool \<Rightarrow> bool \<Rightarrow> (('w, 'z) est_scheme, unit) prog" where
  "persistMemDbToFile E goodTime forcePersist =
     bindM (nowM (eS E)) (\<lambda>now. bindM (getM lastPersisted) (\<lambda>lp.
     let secondsSinceLastPersist = now - lp; minPersistInterval = 5 * 60; maxPersistInterval = 10 * 60 in
     if forcePersist \<or> secondsSinceLastPersist > maxPersistInterval \<or>
        (secondsSinceLastPersist > minPersistInterval \<and> goodTime)
     then bindM copy_db (\<lambda>_. bindM (nowM (eS E)) (\<lambda>now'. modifyM (\<lambda>s. s\<lparr>lastPersisted := now'\<rparr>)))
     else retM ()))"

definition updateLastBackupTime :: "'w benv \<Rightarrow> int \<Rightarrow> (('w, 'z) dst_scheme, unit) prog" where
  "updateLastBackupTime E dirEntId =
     bindM (nowM (eS E)) (\<lambda>now. bindM (dbM (UpdateLastBackupTime dirEntId now)) (\<lambda>_. retM ()))"

text \<open>
  \<^verbatim>\<open>completeTask\<close> assigns both counters from \<^verbatim>\<open>GetBackupJournalCounts\<close>, which returns zeros with
  an error.
\<close>

definition completeTask :: "'w benv \<Rightarrow> BackupJournalTask \<Rightarrow> CloudRelPath option \<Rightarrow> (('w, 'z) est_scheme, bool) prog" where
  "completeTask E bjt crp =
     bindM (dbM (CompleteBackupJournalTask bjt (map_option (ToJson (eJ E)) crp))) (\<lambda>_.
     bindM (modifyM (\<lambda>s. s\<lparr>finishedCountJournal := finishedCountJournal s + 1\<rparr>)) (\<lambda>_.
     bindM (getM (\<lambda>s. finishedCountJournal s \<ge> totalCntJournal s)) (\<lambda>reached.
     if reached then
       bindM (dbM GetBackupJournalCounts) (\<lambda>r.
         let (f, t) = (case r of Inl _ \<Rightarrow> (0, 0) | Inr ft \<Rightarrow> ft) in
         bindM (modifyM (\<lambda>s. s\<lparr>finishedCountJournal := f, totalCntJournal := t\<rparr>)) (\<lambda>_.
         retM (f \<ge> t)))
     else retM False)))"

subsection \<open>The packer\<close>

definition newChunkPacker :: "('w, 'z) est_scheme \<Rightarrow> ('w, 'z) est_scheme" where
  "newChunkPacker s = s\<lparr>items := [], plaintextChunkBuf := [], posInPlaintextChunk := 0\<rparr>"

definition AddDirEntry :: "string \<Rightarrow> bytes \<Rightarrow> BackupJournalTask \<Rightarrow> (('w, 'z) est_scheme, bool) prog" where
  "AddDirEntry relPath buf bjt =
     bindM (getM posInPlaintextChunk) (\<lambda>pos.
     if int (length buf) + pos > ChunkSize then retM False
     else bindM (modifyM (\<lambda>s. s\<lparr>plaintextChunkBuf := plaintextChunkBuf s @ buf,
             posInPlaintextChunk := posInPlaintextChunk s + int (length buf),
             items := items s @ [\<lparr>cpi_relPath = relPath, cpi_Offset = pos, cpi_Len = int (length buf),
               cpi_bjt = bjt\<rparr>]\<rparr>)) (\<lambda>_.
          bindM (statsM (AddBytes (int (length buf)))) (\<lambda>_. retM True)))"

definition item_crp :: "string \<Rightarrow> chunkPackerItem \<Rightarrow> CloudRelPath" where
  "item_crp chunkName item = \<lparr>RelPath = cpi_relPath item, ChunkExtents =
     [\<lparr>ChunkName = chunkName, ce_Offset = cpi_Offset item, ce_Len = cpi_Len item\<rparr>]\<rparr>"

fun finalize_items :: "'w benv \<Rightarrow> string \<Rightarrow> chunkPackerItem list \<Rightarrow> bool \<Rightarrow> (('w, 'z) est_scheme, bool) prog" where
  "finalize_items E chunkName [] isJournalComplete = retM isJournalComplete"
| "finalize_items E chunkName (item # rest) isJournalComplete =
     bindM (updateLastBackupTime E (DirEntId (cpi_bjt item))) (\<lambda>_.
     bindM (completeTask E (cpi_bjt item) (Some (item_crp chunkName item))) (\<lambda>c.
     finalize_items E chunkName rest c))"

text \<open>The last part of \<^verbatim>\<open>Complete\<close>, after the upload.\<close>

definition finish_chunk :: "'w benv \<Rightarrow> string \<Rightarrow> (('w, 'z) est_scheme, bool) prog" where
  "finish_chunk E chunkName =
     bindM (getM items) (\<lambda>its.
     bindM (finalize_items E chunkName its False) (\<lambda>isJournalComplete.
     bindM (modifyM newChunkPacker) (\<lambda>_. retM isJournalComplete)))"

definition Complete :: "'w benv \<Rightarrow> (('w, 'z) est_scheme, bool) prog" where
  "Complete E =
     bindM (generateRandomChunkName (eS E)) (\<lambda>chunkName.
     bindM (getM plaintextChunkBuf) (\<lambda>buf.
     if length buf > 0 then
       tryM (EncryptBuffer (eS E) (eC E) (eKey E) buf) (\<lambda>e. liftGo Fatal) (\<lambda>ciphertextChunkBuf.
       bindM (persistMemDbToFile E True False) (\<lambda>_.
       tryM (UploadObjFromBuffer (eS E) (eBucket E) (''chunks/'' @ chunkName) ciphertextChunkBuf
              (ComputeETag (eC E) ciphertextChunkBuf))
         (\<lambda>e. retM False)
         (\<lambda>_. finish_chunk E chunkName)))
     else finish_chunk E chunkName))"

subsection \<open>The packer invariant\<close>

text \<open>The items partition the buffer, in order, and the position is its length.\<close>

fun contiguous :: "int \<Rightarrow> chunkPackerItem list \<Rightarrow> int \<Rightarrow> bool" where
  "contiguous pos [] end \<longleftrightarrow> pos = end"
| "contiguous pos (i # is) end \<longleftrightarrow> cpi_Offset i = pos \<and> 0 \<le> cpi_Len i \<and> contiguous (pos + cpi_Len i) is end"

definition packer_ok :: "('w, 'z) est_scheme \<Rightarrow> bool" where
  "packer_ok s \<longleftrightarrow> contiguous 0 (items s) (int (length (plaintextChunkBuf s))) \<and>
     posInPlaintextChunk s = int (length (plaintextChunkBuf s)) \<and> posInPlaintextChunk s \<le> ChunkSize"

lemma contiguous_append: "contiguous p (is @ js) e \<longleftrightarrow> (\<exists>m. contiguous p is m \<and> contiguous m js e)"
  by (induction p "is" e rule: contiguous.induct) auto

lemma contiguous_le: "contiguous p is e \<Longrightarrow> p \<le> e"
  by (induction p "is" e rule: contiguous.induct) auto

lemma contiguous_bounds:
  "contiguous p is e \<Longrightarrow> i \<in> set is \<Longrightarrow> p \<le> cpi_Offset i \<and> 0 \<le> cpi_Len i \<and> cpi_Offset i + cpi_Len i \<le> e"
proof (induction p "is" e rule: contiguous.induct)
  case (2 pos j js e)
  then show ?case using contiguous_le by fastforce
qed simp

lemma packer_ok_new [simp]: "packer_ok (newChunkPacker s)"
  by (simp add: packer_ok_def newChunkPacker_def ChunkSize_def)

lemma AddDirEntry_run:
  "AddDirEntry relPath buf bjt s =
     (if int (length buf) + posInPlaintextChunk s > ChunkSize then (Ret False, s)
      else (Ret True, s\<lparr>plaintextChunkBuf := plaintextChunkBuf s @ buf,
        posInPlaintextChunk := posInPlaintextChunk s + int (length buf),
        items := items s @ [\<lparr>cpi_relPath = relPath, cpi_Offset = posInPlaintextChunk s,
          cpi_Len = int (length buf), cpi_bjt = bjt\<rparr>],
        stats := map_option (AddBytes (int (length buf))) (stats s)\<rparr>))"
  by (simp add: AddDirEntry_def statsM_def)

lemma AddDirEntry_packer_ok: "preserves packer_ok (AddDirEntry relPath buf bjt)"
  by (rule preservesI) (auto simp: AddDirEntry_run packer_ok_def contiguous_append)

end
