(* ===== verification/Backup.thy ===== *)
theory Backup
  imports ChunkPacker
begin

section \<open>Backing up one entry (pkg/backup/backup.go)\<close>

text \<open>
  Small files, directories and symbolic links go to the chunk packer; a file of at least
  \<open>ChunkSize\<close> bytes is uploaded in chunks of its own, encrypted under consecutive nonces.
\<close>

subsection \<open>Nonces\<close>

text \<open>
  \<^verbatim>\<open>incrementNonce\<close> reads the 12 bytes as a big-endian number and adds one; \<^verbatim>\<open>FillBytes\<close> panics when
  the result needs 13 bytes.
\<close>

definition be_dec :: "bytes \<Rightarrow> nat" where
  "be_dec b = le_dec (rev b)"

definition be_enc :: "nat \<Rightarrow> nat \<Rightarrow> bytes" where
  "be_enc k n = rev (le_enc k n)"

definition incrementNonce :: "bytes \<Rightarrow> bytes go" where
  "incrementNonce nonce =
     (let z = be_dec nonce + 1 in if z < 256 ^ 12 then Ret (be_enc 12 z) else Panic)"

subsection \<open>Backup\<close>

definition getSymlinkOriginIfSymlink :: "'w sys \<Rightarrow> string \<Rightarrow> (('w, 'z) gst_scheme, goerr + string) prog" where
  "getSymlinkOriginIfSymlink S pathToInspect =
     tryM (sysM (Lstat S pathToInspect)) (\<lambda>e. retM (Inl e)) (\<lambda>fileInfo.
     if has_mode (fi_mode fileInfo) ModeSymlink
     then sysM (Readlink S pathToInspect)
     else retM (Inr []))"

text \<open>
  The loop over the reads of a large file. A read returns at most the buffer; the loop ends at the
  end of the file. The header goes in front of the first chunk only.
\<close>

fun backup_chunks :: "'w benv \<Rightarrow> bytes \<Rightarrow> readres list \<Rightarrow> nat \<Rightarrow> bytes \<Rightarrow> ChunkExtent list
    \<Rightarrow> (('w, 'z) gst_scheme, goerr + ChunkExtent list) prog" where
  "backup_chunks E buf [] i nonce chunkExtents = retM (Inr chunkExtents)"
| "backup_chunks E buf (ReadErr e # reads) i nonce chunkExtents = retM (Inl e)"
| "backup_chunks E buf (ReadData d # reads) i nonce chunkExtents =
     (let readBuf = (if i = 0 then buf @ d else d) in
      tryM (liftGo (EncryptBufferWithNonce (eC E) (eKey E) readBuf nonce)) (\<lambda>e. retM (Inl e))
        (\<lambda>ciphertextReadBuf.
      bindM (generateRandomChunkName (eS E)) (\<lambda>chunkName.
      let chunkExtents' = chunkExtents @ [\<lparr>ChunkName = chunkName, ce_Offset = 0, ce_Len = int (length readBuf)\<rparr>] in
      tryM (UploadObjFromBuffer (eS E) (eBucket E) (''chunks/'' @ chunkName) ciphertextReadBuf
             (ComputeETag (eC E) ciphertextReadBuf)) (\<lambda>e. retM (Inl e)) (\<lambda>_.
      bindM (liftGo (incrementNonce nonce)) (\<lambda>nonce'.
      backup_chunks E buf reads (i + 1) nonce' chunkExtents')))))"

definition backup_large :: "'w benv \<Rightarrow> string \<Rightarrow> bytes
    \<Rightarrow> (('w, 'z) gst_scheme, goerr + (ChunkExtent list \<times> bool)) prog" where
  "backup_large E absPath buf =
     tryM (sysM (RandRead (eS E) 12)) (\<lambda>e. retM (Inl e)) (\<lambda>nonce.
     tryM (sysM (OpenFile (eS E) absPath)) (\<lambda>e. retM (Inl e)) (\<lambda>f.
     tryM (backup_chunks E buf (gf_reads f (nat ChunkSize)) 0 nonce []) (\<lambda>e. retM (Inl e))
       (\<lambda>chunkExtents. retM (Inr (chunkExtents, False)))))"

text \<open>
  The small-entry branch. When the packer declines twice the code returns its variable \<^verbatim>\<open>err\<close>,
  which is nil at that point: the caller sees success with no extents.
\<close>

definition backup_small :: "'w benv \<Rightarrow> string \<Rightarrow> bytes \<Rightarrow> BackupJournalTask
    \<Rightarrow> (('w, 'z) est_scheme, goerr + (ChunkExtent list \<times> bool)) prog" where
  "backup_small E relPath buf bjt =
     bindM (AddDirEntry relPath buf bjt) (\<lambda>didSucceed.
     if didSucceed then retM (Inr ([], True))
     else bindM (Complete E) (\<lambda>_.
       bindM (AddDirEntry relPath buf bjt) (\<lambda>didSucceedNow.
       if didSucceedNow then retM (Inr ([], True)) else retM (Inr ([], False)))))"

definition mk_metadata :: "finfo \<Rightarrow> string \<Rightarrow> string \<Rightarrow> dirEntMetadata" where
  "mk_metadata info symlinkOrigin xattrs =
     \<lparr>IsDir = fi_isdir info, MTime = fi_mtime info, XAttrs = xattrs, md_Mode = fi_mode info,
      IsSymlink = (symlinkOrigin \<noteq> []), SymlinkOrigin = symlinkOrigin\<rparr>"

definition Backup :: "'w benv \<Rightarrow> string \<Rightarrow> string \<Rightarrow> BackupJournalTask
    \<Rightarrow> (('w, 'z) est_scheme, goerr + (ChunkExtent list \<times> bool)) prog" where
  "Backup E relPath backupDirPath0 bjt =
     (let backupDirPath = StripTrailingSlashes backupDirPath0; absPath = Join [backupDirPath, relPath] in
      tryM (sysM (Lstat (eS E) absPath)) (\<lambda>e. retM (Inl e)) (\<lambda>info.
      if has_mode (fi_mode info) ModeDevice then retM (Inl ErrDevice)
      else if has_mode (fi_mode info) ModeSocket then retM (Inl ErrSocket)
      else if has_mode (fi_mode info) ModeIrregular then retM (Inl ErrIrregular)
      else if has_mode (fi_mode info) ModeNamedPipe then retM (Inl ErrFifo)
      else
      tryM (getSymlinkOriginIfSymlink (eS E) absPath) (\<lambda>e. retM (Inl e)) (\<lambda>symlinkOrigin.
      bindM (serializeXAttrsToHex (eS E) absPath) (\<lambda>rx.
      let isSymlink = (symlinkOrigin \<noteq> []);
        xattrs = (case rx of Inl _ \<Rightarrow> [] | Inr x \<Rightarrow> x) in
      case serializeMetadataStruct (eG E) (mk_metadata info symlinkOrigin xattrs) of
        Inl e \<Rightarrow> retM (Inl e)
      | Inr buf \<Rightarrow>
          let size = fi_size info + int (length buf) in
          if fi_isdir info \<or> size < ChunkSize \<or> isSymlink then
            (if \<not> fi_isdir info \<and> \<not> isSymlink
             then tryM (AppendEntireFileToBuffer (eS E) absPath buf) (\<lambda>e. retM (Inl e))
                    (\<lambda>buf'. backup_small E relPath buf' bjt)
             else backup_small E relPath buf bjt)
          else backup_large E absPath buf))))"

end
