(* ===== verification/ChunkCache.thy ===== *)
theory ChunkCache
  imports Backup
begin

section \<open>The chunk cache of a restore (pkg/backup/chunk_cache.go)\<close>

text \<open>
  Chunks that were downloaded are kept on disk, up to a maximum size, and decrypted in memory. The
  package variables \<^verbatim>\<open>MaxCacheSizeOnDisk\<close> and \<^verbatim>\<open>CacheDirectory\<close> are part of the state. The loop
  that makes room may not end; \<open>Attempts\<close> bounds the rounds observed.
\<close>

record CachedChunk =
  cc_absPath :: string
  cc_size :: int
  lastUsedUnixTime :: int
  cc_plaintext :: bytes
  cc_nonce :: bytes

record CacheStatistics =
  cs_hits :: int
  cs_total :: int
  totalChunkDownloads :: int
  totalChunkDownloadsBytes :: int
  totalMemoryUseBytes :: int
  evictedChunks :: "string list"
  redownloadedChunks :: "string list"
  redownloadedChunksBytes :: int

record DirChmodQueueItem =
  dcq_AbsPath :: string
  FinalMode :: "32 word"

record 'w rst = "'w gst" +
  chunks :: "(string \<times> CachedChunk) list"
  cstats :: CacheStatistics
  MaxCacheSizeOnDisk :: int
  CacheDirectory :: string
  dirChmodQueue :: "DirChmodQueueItem list"

record 'w renv =
  rS :: "'w sys"
  rC :: clib
  rG :: gob
  rKey :: bytes
  rBucket :: string
  r_uid :: int
  r_gid :: int

definition no_stats :: CacheStatistics where
  "no_stats = \<lparr>cs_hits = 0, cs_total = 0, totalChunkDownloads = 0, totalChunkDownloadsBytes = 0,
     totalMemoryUseBytes = 0, evictedChunks = [], redownloadedChunks = [], redownloadedChunksBytes = 0\<rparr>"

definition cstatsM :: "(CacheStatistics \<Rightarrow> CacheStatistics) \<Rightarrow> (('w, 'z) rst_scheme, unit) prog" where
  "cstatsM f = modifyM (\<lambda>s. s\<lparr>cstats := f (cstats s)\<rparr>)"

subsection \<open>Filling the cache from disk\<close>

definition removeCachedChunk :: "'w renv \<Rightarrow> string \<Rightarrow> (('w, 'z) rst_scheme, unit) prog" where
  "removeCachedChunk E objName =
     bindM (getM CacheDirectory) (\<lambda>dir.
     bindM (sysM (RemoveFile (rS E) (join2 dir objName))) (\<lambda>_. retM ()))"

definition readEntireFile :: "'w renv \<Rightarrow> string \<Rightarrow> (('w, 'z) rst_scheme, goerr + bytes) prog" where
  "readEntireFile E objName =
     bindM (getM CacheDirectory) (\<lambda>dir. let path = join2 dir objName in
     tryM (sysM (OpenFile (rS E) path)) (\<lambda>e. retM (Inl e)) (\<lambda>f.
     tryM (sysM (Stat (rS E) path)) (\<lambda>e. retM (Inl e)) (\<lambda>fInfo.
     let size = fi_size fInfo in
     if size < 0 then liftGo Panic
     else case read_once f (nat size) of
       Inl e \<Rightarrow> retM (Inl e)
     | Inr ret \<Rightarrow>
         if int (length ret) < size
         then retM (Inl (GoErr (''error: readEntireFile: failed to read expected '' @ show_int size @
           '' bytes (only read '' @ show_nat (length ret) @ '')'')))
         else retM (Inr ret))))"

text \<open>The callback of the walk over the cache directory.\<close>

definition load_chunk :: "'w renv \<Rightarrow> ('w, 'z) rst_scheme walkfn" where
  "load_chunk E path dirent err =
     (case err of Some _ \<Rightarrow> retM WSkipDir | None \<Rightarrow>
      (case dirent of None \<Rightarrow> liftGo Panic | Some d \<Rightarrow>
       (case dt_info d of
          Inl e \<Rightarrow> retM (WErr e)
        | Inr finfo \<Rightarrow>
            bindM (getM CacheDirectory) (\<lambda>dir.
            let size = fi_size finfo; objName = Base path in
            if size > 0 \<and> objName \<noteq> [] \<and> objName \<noteq> Base dir then
              tryM (readEntireFile E objName) (\<lambda>e. retM (WErr e)) (\<lambda>ciphertextChunkBuf.
              bindM (liftGo (DecryptBufferReturningNonce (rC E) (rKey E) ciphertextChunkBuf)) (\<lambda>r. case r of
                Inl e \<Rightarrow> bindM (removeCachedChunk E objName) (\<lambda>_. retM WNil)
              | Inr (plaintextBuf, nonce) \<Rightarrow>
                  bindM (nowM (rS E)) (\<lambda>now.
                  bindM (modifyM (\<lambda>s. s\<lparr>chunks := map_put objName
                      \<lparr>cc_absPath = join2 dir objName, cc_size = size, lastUsedUnixTime = now,
                       cc_plaintext = plaintextBuf, cc_nonce = nonce\<rparr> (chunks s)\<rparr>)) (\<lambda>_.
                  bindM (cstatsM (\<lambda>c. c\<lparr>totalMemoryUseBytes := totalMemoryUseBytes c + int (length plaintextBuf)\<rparr>))
                    (\<lambda>_. retM WNil)))))
            else retM WNil))))"

text \<open>\<open>False\<close> when neither cache directory could be made.\<close>

definition make_cache_dir :: "'w renv \<Rightarrow> string \<Rightarrow> (('w, 'z) rst_scheme, bool) prog" where
  "make_cache_dir E cachesDirPath =
     (if cachesDirPath \<noteq> [] then
        let chunkCachesDirPath = join2 cachesDirPath ''Chunks'' in
        tryM (MkdirAllWithUidGidMode (rS E) chunkCachesDirPath mode_0755 (r_uid E) (r_gid E))
          (\<lambda>e. bindM (getM CacheDirectory) (\<lambda>dir.
               tryM (MkdirAllWithUidGidMode (rS E) dir mode_0755 (r_uid E) (r_gid E))
                 (\<lambda>e. retM False) (\<lambda>_. retM True)))
          (\<lambda>_. bindM (modifyM (\<lambda>s. s\<lparr>CacheDirectory := chunkCachesDirPath\<rparr>)) (\<lambda>_. retM True))
      else retM True)"

definition NewChunkCache :: "'w renv \<Rightarrow> string \<Rightarrow> int \<Rightarrow> (('w, 'z) rst_scheme, unit) prog" where
  "NewChunkCache E cachesDirPath maxChunkCacheSizeMb =
     bindM (modifyM (\<lambda>s. s\<lparr>MaxCacheSizeOnDisk :=
         (if maxChunkCacheSizeMb > 0 then maxChunkCacheSizeMb * 1024 * 1024 else MaxCacheSizeOnDisk s),
         chunks := [], cstats := no_stats\<rparr>)) (\<lambda>_.
     bindM (make_cache_dir E cachesDirPath) (\<lambda>ok.
     if ok then
       bindM (getM CacheDirectory) (\<lambda>dir.
       bindM (WalkDir (rS E) join2 dir (load_chunk E)) (\<lambda>_. retM ()))
     else retM ()))"

subsection \<open>Making room\<close>

definition isObjCached :: "('w, 'z) rst_scheme \<Rightarrow> string \<Rightarrow> bool" where
  "isObjCached s objName \<longleftrightarrow> map_of (chunks s) objName \<noteq> None"

definition totalSizeOnDisk :: "('w, 'z) rst_scheme \<Rightarrow> int" where
  "totalSizeOnDisk s = fold (\<lambda>(_, c) accum. accum + cc_size c) (chunks s) 0"

definition lru_pick :: "int \<Rightarrow> (string \<times> CachedChunk) list \<Rightarrow> string \<times> int" where
  "lru_pick now cs = fold (\<lambda>(objName, c) (lruObjName, lruUnixTime).
     if lastUsedUnixTime c < lruUnixTime then (objName, lastUsedUnixTime c)
     else (lruObjName, lruUnixTime)) cs ([], now)"

definition evictLeastRecentlyUsed :: "'w renv \<Rightarrow> (('w, 'z) rst_scheme, unit) prog" where
  "evictLeastRecentlyUsed E =
     bindM (nowM (rS E)) (\<lambda>now. bindM (getM chunks) (\<lambda>cs. bindM (getM CacheDirectory) (\<lambda>dir.
     let lruObjName = fst (lru_pick now cs) in
     if lruObjName \<noteq> [] then
       bindM (cstatsM (\<lambda>c. c\<lparr>evictedChunks := AppendIfNotPresent (evictedChunks c) lruObjName\<rparr>)) (\<lambda>_.
       bindM (sysM (RemoveFile (rS E) (join2 dir lruObjName))) (\<lambda>_.
       bindM (cstatsM (\<lambda>c. c\<lparr>totalMemoryUseBytes := totalMemoryUseBytes c -
           int (case map_of cs lruObjName of None \<Rightarrow> 0 | Some x \<Rightarrow> length (cc_plaintext x))\<rparr>)) (\<lambda>_.
       modifyM (\<lambda>s. s\<lparr>chunks := map_del lruObjName (chunks s)\<rparr>))))
     else retM ())))"

fun evict_loop :: "nat \<Rightarrow> 'w renv \<Rightarrow> int \<Rightarrow> (('w, 'z) rst_scheme, unit) prog" where
  "evict_loop 0 E len = liftGo Spin"
| "evict_loop (Suc n) E len =
     bindM (getM (\<lambda>s. totalSizeOnDisk s + len > MaxCacheSizeOnDisk s)) (\<lambda>full.
     if full then bindM (evictLeastRecentlyUsed E) (\<lambda>_. evict_loop n E len) else retM ())"

subsection \<open>Saving and fetching\<close>

definition mode_0600 :: "32 word" where
  "mode_0600 = 384"

definition saveObjToCache :: "'w renv \<Rightarrow> string \<Rightarrow> bytes \<Rightarrow> (('w, 'z) rst_scheme, unit) prog" where
  "saveObjToCache E objName0 ciphertextBuf =
     bindM (getM CacheDirectory) (\<lambda>dir.
     let objName = TrimPrefix objName0 ''chunks/''; path = join2 dir objName in
     bindM (evict_loop (Attempts (rS E)) E (int (length ciphertextBuf))) (\<lambda>_.
     tryM (sysM (CreateFile (rS E) path)) (\<lambda>e. retM ()) (\<lambda>_.
     tryM (sysM (Chown (rS E) path (r_uid E) (r_gid E))) (\<lambda>e. retM ()) (\<lambda>_.
     tryM (sysM (Chmod (rS E) path mode_0600)) (\<lambda>e. retM ()) (\<lambda>_.
     tryM (sysM (WriteFile (rS E) path ciphertextBuf)) (\<lambda>e. retM ()) (\<lambda>_.
     bindM (cstatsM (\<lambda>c. c\<lparr>totalChunkDownloadsBytes := totalChunkDownloadsBytes c + int (length ciphertextBuf)\<rparr>)) (\<lambda>_.
     tryM (liftGo (DecryptBufferReturningNonce (rC E) (rKey E) ciphertextBuf)) (\<lambda>e. retM ())
       (\<lambda>(plaintextBuf, nonce).
     bindM (nowM (rS E)) (\<lambda>now.
     bindM (modifyM (\<lambda>s. s\<lparr>chunks := map_put objName
         \<lparr>cc_absPath = path, cc_size = int (length ciphertextBuf), lastUsedUnixTime = now,
          cc_plaintext = plaintextBuf, cc_nonce = nonce\<rparr> (chunks s)\<rparr>)) (\<lambda>_.
     cstatsM (\<lambda>c. c\<lparr>totalMemoryUseBytes := totalMemoryUseBytes c + int (length plaintextBuf)\<rparr>)))))))))))"

fun isPreviouslyEvicted :: "string list \<Rightarrow> string \<Rightarrow> bool" where
  "isPreviouslyEvicted [] chunkName = False"
| "isPreviouslyEvicted (el # els) chunkName = (if el = chunkName then True else isPreviouslyEvicted els chunkName)"

text \<open>The zero value of a missing map entry is a chunk with empty plaintext and nonce.\<close>

definition cached :: "('w, 'z) rst_scheme \<Rightarrow> string \<Rightarrow> bytes \<times> bytes" where
  "cached s n = (case map_of (chunks s) n of None \<Rightarrow> ([], []) | Some c \<Rightarrow> (cc_plaintext c, cc_nonce c))"

definition take_extent :: "string \<Rightarrow> int \<Rightarrow> int \<Rightarrow> (('w, 'z) rst_scheme, goerr + (bytes \<times> bytes)) prog" where
  "take_extent chunkName offset lenBytes =
     bindM (getM (\<lambda>s. cached s chunkName)) (\<lambda>(plaintextChunkBuf, nonce).
     bindM (liftGo (slice plaintextChunkBuf offset (offset + lenBytes))) (\<lambda>extent.
     retM (Inr (extent, nonce))))"

definition FetchExtentIntoBuffer :: "'w renv \<Rightarrow> string \<Rightarrow> int \<Rightarrow> int
    \<Rightarrow> (('w, 'z) rst_scheme, goerr + (bytes \<times> bytes)) prog" where
  "FetchExtentIntoBuffer E objectName offset lenBytes =
     (let chunkName = TrimPrefix objectName ''chunks/'' in
      bindM (cstatsM (\<lambda>c. c\<lparr>cs_total := cs_total c + 1\<rparr>)) (\<lambda>_.
      bindM (getM (\<lambda>s. isObjCached s chunkName)) (\<lambda>hit.
      if hit then bindM (cstatsM (\<lambda>c. c\<lparr>cs_hits := cs_hits c + 1\<rparr>)) (\<lambda>_. take_extent chunkName offset lenBytes)
      else
        tryM (DownloadObjToBuffer (rS E) (rBucket E) objectName) (\<lambda>e. retM (Inl e)) (\<lambda>ciphertextChunkBuf.
        bindM (cstatsM (\<lambda>c. c\<lparr>totalChunkDownloads := totalChunkDownloads c + 1\<rparr>)) (\<lambda>_.
        bindM (cstatsM (\<lambda>c. if isPreviouslyEvicted (evictedChunks c) objectName
            then c\<lparr>redownloadedChunks := AppendIfNotPresent (redownloadedChunks c) objectName,
                   redownloadedChunksBytes := redownloadedChunksBytes c + int (length ciphertextChunkBuf)\<rparr>
            else c)) (\<lambda>_.
        bindM (saveObjToCache E chunkName ciphertextChunkBuf) (\<lambda>_.
        take_extent chunkName offset lenBytes)))))))"

end
