(* ===== verification/Restore.thy ===== *)
theory Restore
  imports ChunkCache
begin

section \<open>Restoring entries (pkg/backup/restore.go)\<close>

text \<open>
  \<^verbatim>\<open>RestoreDirEntry\<close> fetches the first extent of an entry, reads its header and recreates the
  symbolic link, the directory or the file; a file's remaining chunks follow, with a check (whose
  failure is only logged) that their nonces are consecutive.
\<close>

definition createFullPath :: "'w sys \<Rightarrow> string \<Rightarrow> string \<Rightarrow> string \<Rightarrow> string \<Rightarrow> 32 word \<Rightarrow> int \<Rightarrow> int
    \<Rightarrow> (('w, 'z) gst_scheme, goerr + unit) prog" where
  "createFullPath S basePath backupRootDirName snapshotName relPath mode uid gid =
     (let joinedDirs = Join [basePath, backupRootDirName, snapshotName, relPath] in
      tryM (bindM (sysM (Stat S joinedDirs)) (\<lambda>r. case r of
          Inl e \<Rightarrow> if e = ErrNotExist then sysM (MkdirAll S joinedDirs mode) else liftGo Panic
        | Inr info \<Rightarrow>
            if and (fi_mode info) 0x0000ffff \<noteq> mode then sysM (Chmod S joinedDirs mode)
            else retM (Inr ())))
        (\<lambda>e. retM (Inl e)) (\<lambda>_.
      if uid \<noteq> -1 \<and> gid \<noteq> -1 then
        bindM (sysM (Chown S basePath uid gid)) (\<lambda>_.
        bindM (sysM (Chown S (Join [basePath, backupRootDirName]) uid gid)) (\<lambda>_.
        bindM (sysM (Chown S (Join [basePath, backupRootDirName, snapshotName]) uid gid)) (\<lambda>_.
        bindM (sysM (Chown S (Join [basePath, backupRootDirName, snapshotName, relPath]) uid gid)) (\<lambda>_.
        retM (Inr ())))))
      else retM (Inr ())))"

definition isNonceOneMoreThanPrev :: "bytes \<Rightarrow> bytes \<Rightarrow> bool" where
  "isNonceOneMoreThanPrev nonce prevNonce \<longleftrightarrow> be_dec prevNonce + 1 = be_dec nonce"

text \<open>The remaining chunks of a file. The result tells whether every nonce followed its
  predecessor; the code logs the opposite and goes on.\<close>

fun restore_chunks :: "'w renv \<Rightarrow> string \<Rightarrow> ChunkExtent list \<Rightarrow> bytes \<Rightarrow> bool \<Rightarrow> (('w, 'z) rst_scheme, bool) prog" where
  "restore_chunks E filenameAbsPath [] prevNonce inOrder = retM inOrder"
| "restore_chunks E filenameAbsPath (chunkExtent # rest) prevNonce inOrder =
     tryM (FetchExtentIntoBuffer E (''chunks/'' @ ChunkName chunkExtent) (ce_Offset chunkExtent) (ce_Len chunkExtent))
       (\<lambda>e. liftGo Fatal) (\<lambda>(plaintextBuf, nonce).
     tryM (sysM (WriteFile (rS E) filenameAbsPath plaintextBuf)) (\<lambda>e. liftGo Fatal) (\<lambda>_.
     restore_chunks E filenameAbsPath rest nonce (inOrder \<and> isNonceOneMoreThanPrev nonce prevNonce)))"

definition restore_symlink :: "'w renv \<Rightarrow> string \<Rightarrow> string \<Rightarrow> string \<Rightarrow> string \<Rightarrow> dirEntMetadata
    \<Rightarrow> (('w, 'z) rst_scheme, goerr + unit) prog" where
  "restore_symlink E into rootDirName snapshotName relPath md =
     (let (dir, linkName) = PathSplit relPath in
      tryM (createFullPath (rS E) into rootDirName snapshotName dir mode_0755 (r_uid E) (r_gid E))
        (\<lambda>e. retM (Inl e)) (\<lambda>_.
      bindM (sysM (Symlink (rS E) (SymlinkOrigin md) (Join [into, rootDirName, snapshotName, dir, linkName])))
        (\<lambda>_. retM (Inr ()))))"

definition restore_dir :: "'w renv \<Rightarrow> string \<Rightarrow> string \<Rightarrow> string \<Rightarrow> string \<Rightarrow> dirEntMetadata
    \<Rightarrow> (('w, 'z) rst_scheme, goerr + unit) prog" where
  "restore_dir E into rootDirName snapshotName relPath md =
     (let dirFullPath = Join [into, rootDirName, snapshotName, relPath] in
      tryM (createFullPath (rS E) into rootDirName snapshotName relPath mode_0755 (r_uid E) (r_gid E))
        (\<lambda>e. retM (Inl e)) (\<lambda>_.
      bindM (modifyM (\<lambda>s. s\<lparr>dirChmodQueue := dirChmodQueue s @
          [\<lparr>dcq_AbsPath = dirFullPath, FinalMode = md_Mode md\<rparr>]\<rparr>)) (\<lambda>_.
      deserializeAndSetXAttrs (rS E) dirFullPath (XAttrs md))))"

definition restore_file :: "'w renv \<Rightarrow> string \<Rightarrow> string \<Rightarrow> string \<Rightarrow> string \<Rightarrow> dirEntMetadata \<Rightarrow> bytes
    \<Rightarrow> ChunkExtent list \<Rightarrow> bytes \<Rightarrow> (('w, 'z) rst_scheme, goerr + unit) prog" where
  "restore_file E into rootDirName snapshotName relPath md fileContents moreExtents prevNonce =
     (let (dir, filename) = PathSplit relPath;
        filenameAbsPath = Join [into, rootDirName, snapshotName, dir, filename] in
      tryM (createFullPath (rS E) into rootDirName snapshotName dir mode_0755 (r_uid E) (r_gid E))
        (\<lambda>e. retM (Inl e)) (\<lambda>_.
      tryM (sysM (CreateFile (rS E) filenameAbsPath)) (\<lambda>e. liftGo Fatal) (\<lambda>_.
      tryM (sysM (Chmod (rS E) filenameAbsPath (md_Mode md))) (\<lambda>e. liftGo Fatal) (\<lambda>_.
      tryM (sysM (WriteFile (rS E) filenameAbsPath fileContents)) (\<lambda>e. liftGo Fatal) (\<lambda>_.
      bindM (restore_chunks E filenameAbsPath moreExtents prevNonce True) (\<lambda>_.
      tryM (deserializeAndSetXAttrs (rS E) filenameAbsPath (XAttrs md)) (\<lambda>e. retM (Inl e)) (\<lambda>_.
      sysM (Chown (rS E) filenameAbsPath (r_uid E) (r_gid E)))))))))"

definition RestoreDirEntry :: "'w renv \<Rightarrow> string \<Rightarrow> CloudRelPath \<Rightarrow> string \<Rightarrow> string \<Rightarrow> string
    \<Rightarrow> (('w, 'z) rst_scheme, goerr + unit) prog" where
  "RestoreDirEntry E restoreIntoDirPath0 crp rootDirName snapshotName relPath =
     (let into = StripTrailingSlashes restoreIntoDirPath0 in
      case ChunkExtents crp of
        [] \<Rightarrow> retM (Inl (GoErr (''error: crp.ChunkExtents has no elements on '' @ [CHR 0x27] @ relPath @ [CHR 0x27])))
      | ce # remaining \<Rightarrow>
          tryM (FetchExtentIntoBuffer E (''chunks/'' @ ChunkName ce) (ce_Offset ce) (ce_Len ce))
            (\<lambda>e. liftGo Fatal) (\<lambda>(plaintextBuf, prevNonce).
          tryM (liftGo (deserializeMetadataStruct (rG E) plaintextBuf)) (\<lambda>e. retM (Inl e)) (\<lambda>(md, fileContents).
          if IsSymlink md then restore_symlink E into rootDirName snapshotName relPath md
          else if IsDir md then restore_dir E into rootDirName snapshotName relPath md
          else restore_file E into rootDirName snapshotName relPath md fileContents remaining prevNonce)))"

subsection \<open>Choosing what to restore\<close>

definition FilterRelPaths :: "Snapshot \<Rightarrow> string list \<Rightarrow> string list \<Rightarrow> (string \<times> CloudRelPath) list" where
  "FilterRelPaths snapshotObj specificRelPaths selectedRelPathPrefixes =
     fold (\<lambda>(relPath, crp) ret.
       if length specificRelPaths = 0 \<and> length selectedRelPathPrefixes = 0 then map_put relPath crp ret
       else if length specificRelPaths > 0 then
         fold (\<lambda>srp ret. if relPath = srp then map_put relPath crp ret else ret) specificRelPaths ret
       else
         fold (\<lambda>p ret. if HasPrefix relPath p then map_put relPath crp ret else ret) selectedRelPathPrefixes ret)
       (RelPaths snapshotObj) []"

definition selects :: "string list \<Rightarrow> string list \<Rightarrow> string \<Rightarrow> bool" where
  "selects spec pre p \<longleftrightarrow> (if spec = [] \<and> pre = [] then True
     else if spec \<noteq> [] then p \<in> set spec else \<exists>q \<in> set pre. HasPrefix p q)"

lemma fold_put_if:
  "map_of (fold (\<lambda>q ret. if c q then map_put k v ret else ret) qs m) =
     (if \<exists>q \<in> set qs. c q then (map_of m)(k \<mapsto> v) else map_of m)"
  by (induction qs arbitrary: m) auto

lemma FilterRelPaths_lookup:
  assumes "distinct (map_keys (RelPaths ss))"
  shows "map_of (FilterRelPaths ss spec pre) p =
    (if selects spec pre p then map_of (RelPaths ss) p else None)"
proof -
  define step where "step = (\<lambda>(relPath, crp) ret.
       if length spec = 0 \<and> length pre = 0 then map_put relPath crp ret
       else if length spec > 0 then
         fold (\<lambda>srp ret. if relPath = srp then map_put relPath crp ret else ret) spec ret
       else fold (\<lambda>p ret. if HasPrefix relPath p then map_put relPath crp ret else ret) pre (ret :: (string \<times> CloudRelPath) list))"
  have step: "map_of (step (k, v) m) = (if selects spec pre k then (map_of m)(k \<mapsto> v) else map_of m)" for k v m
    by (auto simp: step_def selects_def fold_put_if)
  have "distinct (map_keys xs) \<Longrightarrow> map_of (fold step xs m) p =
      (if selects spec pre p \<and> p \<in> set (map_keys xs) then map_of xs p else map_of m p)" for xs m
  proof (induction xs arbitrary: m)
    case (Cons x xs)
    obtain k v where x: "x = (k, v)" by fastforce
    from Cons.prems x have "k \<notin> set (map_keys xs)" by auto
    then show ?case using Cons x by (auto simp: step)
  qed simp
  from this [OF assms, of "[]"] show ?thesis
    unfolding FilterRelPaths_def step_def [symmetric]
    using map_of_eq_None_iff [of "RelPaths ss" p] by (auto split: if_splits)
qed

text \<open>
  What is restored: without a selection everything, with exact paths exactly the entries of these
  paths, otherwise the entries with one of the prefixes; each under its path, with its extents.
\<close>

theorem FilterRelPaths_selects:
  assumes "distinct (map_keys (RelPaths ss))"
  shows "map_of (FilterRelPaths ss spec pre) p = (if selects spec pre p then map_of (RelPaths ss) p else None)"
  by (rule FilterRelPaths_lookup [OF assms])

theorem FilterRelPaths_selects_witness:
  "map_of (FilterRelPaths \<lparr>ss_EncryptedName = [], ss_DecryptedName = [], Datetime = 0,
     RelPaths = [(''a/b'', \<lparr>RelPath = ''a/b'', ChunkExtents = []\<rparr>), (''c'', \<lparr>RelPath = ''c'', ChunkExtents = []\<rparr>)]\<rparr> [] [''a/''])
     ''a/b'' = Some \<lparr>RelPath = ''a/b'', ChunkExtents = []\<rparr>"
  using FilterRelPaths_selects [of "\<lparr>ss_EncryptedName = [], ss_DecryptedName = [], Datetime = 0,
     RelPaths = [(''a/b'', \<lparr>RelPath = ''a/b'', ChunkExtents = []\<rparr>), (''c'', \<lparr>RelPath = ''c'', ChunkExtents = []\<rparr>)]\<rparr>" "[]" "[''a/'']" "''a/b''"]
  by (simp add: selects_def HasPrefix_def)

end
