(* ===== verification/Mem_Codec.thy ===== *)
theory Mem_Codec
  imports Restore
begin

section \<open>Stand-ins for the serialisation libraries\<close>

text \<open>
  A small self-delimiting binary format, and with it concrete instances of the parameters for
  \<^verbatim>\<open>encoding/json\<close> and \<^verbatim>\<open>encoding/gob\<close>. They show that the laws assumed of those packages can hold
  and let the program run on concrete data. They model no part of the repository.
\<close>

locale stream_codec =
  fixes enc :: "'a \<Rightarrow> bytes" and dec :: "bytes \<Rightarrow> ('a \<times> bytes) option"
  assumes dec_enc: "dec (enc x @ r) = Some (x, r)"
begin

lemma dec_enc_end: "dec (enc x) = Some (x, [])"
  using dec_enc [of x "[]"] by simp

end

fun digits256 :: "nat \<Rightarrow> bytes" where
  "digits256 n = (if n = 0 then [] else of_nat (n mod 256) # digits256 (n div 256))"

declare digits256.simps [simp del]

definition enc_nat :: "nat \<Rightarrow> bytes" where
  "enc_nat n = (let d = digits256 n in replicate (length d) 1 @ [0] @ d)"

fun unary :: "bytes \<Rightarrow> (nat \<times> bytes) option" where
  "unary [] = None"
| "unary (b # r) = (if b = 0 then Some (0, r) else map_option (\<lambda>(n, r). (Suc n, r)) (unary r))"

definition dec_nat :: "bytes \<Rightarrow> (nat \<times> bytes) option" where
  "dec_nat b = Option.bind (unary b) (\<lambda>(k, r). if length r < k then None else Some (le_dec (take k r), drop k r))"

lemma le_dec_digits: "le_dec (digits256 n) = n"
proof (induction n rule: digits256.induct)
  case (1 n)
  show ?case
  proof (cases "n = 0")
    case False
    then have "le_dec (digits256 n) = unat (of_nat (n mod 256) :: byte) + 256 * (n div 256)"
      using 1 by (simp add: digits256.simps [of n])
    moreover have "unat (of_nat (n mod 256) :: byte) = n mod 256" by (simp add: unat_of_nat)
    ultimately show ?thesis by simp
  qed (simp add: digits256.simps)
qed

lemma unary_replicate: "unary (replicate k 1 @ 0 # r) = Some (k, r)"
  by (induction k) auto

interpretation natc: stream_codec enc_nat dec_nat
  by unfold_locales (simp add: dec_nat_def enc_nat_def Let_def unary_replicate le_dec_digits)

definition enc_int :: "int \<Rightarrow> bytes" where
  "enc_int i = (if i < 0 then 1 else 0) # enc_nat (nat (abs i))"

definition dec_int :: "bytes \<Rightarrow> (int \<times> bytes) option" where
  "dec_int b = (case b of [] \<Rightarrow> None | s # r \<Rightarrow>
     map_option (\<lambda>(n, r). (if s = 1 then - int n else int n, r)) (dec_nat r))"

interpretation intc: stream_codec enc_int dec_int
  by unfold_locales (simp add: enc_int_def dec_int_def natc.dec_enc)

definition enc_string :: "string \<Rightarrow> bytes" where
  "enc_string s = enc_nat (length s) @ bytes_of_string s"

definition dec_string :: "bytes \<Rightarrow> (string \<times> bytes) option" where
  "dec_string b = Option.bind (dec_nat b) (\<lambda>(k, r).
     if length r < k then None else Some (string_of_bytes (take k r), drop k r))"

interpretation stringc: stream_codec enc_string dec_string
  by unfold_locales (simp add: enc_string_def dec_string_def natc.dec_enc)

fun dec_many :: "(bytes \<Rightarrow> ('a \<times> bytes) option) \<Rightarrow> nat \<Rightarrow> bytes \<Rightarrow> ('a list \<times> bytes) option" where
  "dec_many d 0 b = Some ([], b)"
| "dec_many d (Suc n) b = Option.bind (d b) (\<lambda>(x, r). map_option (\<lambda>(xs, r). (x # xs, r)) (dec_many d n r))"

definition enc_list :: "('a \<Rightarrow> bytes) \<Rightarrow> 'a list \<Rightarrow> bytes" where
  "enc_list e xs = enc_nat (length xs) @ concat (map e xs)"

definition dec_list :: "(bytes \<Rightarrow> ('a \<times> bytes) option) \<Rightarrow> bytes \<Rightarrow> ('a list \<times> bytes) option" where
  "dec_list d b = Option.bind (dec_nat b) (\<lambda>(k, r). dec_many d k r)"

context stream_codec
begin

lemma dec_many_enc: "dec_many dec (length xs) (concat (map enc xs) @ r) = Some (xs, r)"
  by (induction xs) (simp_all add: dec_enc)

lemma dec_list_enc: "dec_list dec (enc_list enc xs @ r) = Some (xs, r)"
  by (simp add: dec_list_def enc_list_def natc.dec_enc dec_many_enc)

end

subsection \<open>Index entries\<close>

definition enc_ce :: "ChunkExtent \<Rightarrow> bytes" where
  "enc_ce c = enc_string (ChunkName c) @ enc_int (ce_Offset c) @ enc_int (ce_Len c)"

definition dec_ce :: "bytes \<Rightarrow> (ChunkExtent \<times> bytes) option" where
  "dec_ce b = Option.bind (dec_string b) (\<lambda>(n, r). Option.bind (dec_int r) (\<lambda>(i, r).
     map_option (\<lambda>(l, r). (\<lparr>ChunkName = n, ce_Offset = i, ce_Len = l\<rparr>, r)) (dec_int r)))"

interpretation cec: stream_codec enc_ce dec_ce
  by unfold_locales (simp add: enc_ce_def dec_ce_def stringc.dec_enc intc.dec_enc)

definition enc_crp :: "CloudRelPath \<Rightarrow> bytes" where
  "enc_crp c = enc_string (RelPath c) @ enc_list enc_ce (ChunkExtents c)"

definition dec_crp :: "bytes \<Rightarrow> (CloudRelPath \<times> bytes) option" where
  "dec_crp b = Option.bind (dec_string b) (\<lambda>(n, r).
     map_option (\<lambda>(l, r). (\<lparr>RelPath = n, ChunkExtents = l\<rparr>, r)) (dec_list dec_ce r))"

interpretation crpc: stream_codec enc_crp dec_crp
  by unfold_locales (simp add: enc_crp_def dec_crp_def stringc.dec_enc cec.dec_list_enc)

definition enc_entry :: "string \<times> CloudRelPath \<Rightarrow> bytes" where
  "enc_entry e = enc_string (fst e) @ enc_crp (snd e)"

definition dec_entry :: "bytes \<Rightarrow> ((string \<times> CloudRelPath) \<times> bytes) option" where
  "dec_entry b = Option.bind (dec_string b) (\<lambda>(n, r). map_option (\<lambda>(c, r). ((n, c), r)) (dec_crp r))"

interpretation entryc: stream_codec enc_entry dec_entry
  by unfold_locales (simp add: enc_entry_def dec_entry_def stringc.dec_enc crpc.dec_enc)

definition enc_ss :: "Snapshot \<Rightarrow> bytes" where
  "enc_ss s = enc_string (ss_EncryptedName s) @ enc_string (ss_DecryptedName s) @ enc_int (Datetime s) @
     enc_list enc_entry (RelPaths s)"

definition dec_ss :: "bytes \<Rightarrow> (Snapshot \<times> bytes) option" where
  "dec_ss b = Option.bind (dec_string b) (\<lambda>(e, r). Option.bind (dec_string r) (\<lambda>(d, r).
     Option.bind (dec_int r) (\<lambda>(t, r). map_option (\<lambda>(l, r).
       (\<lparr>ss_EncryptedName = e, ss_DecryptedName = d, Datetime = t, RelPaths = l\<rparr>, r)) (dec_list dec_entry r))))"

interpretation ssc: stream_codec enc_ss dec_ss
  by unfold_locales (simp add: enc_ss_def dec_ss_def stringc.dec_enc intc.dec_enc entryc.dec_list_enc)

definition mem_jidx :: jidx where
  "mem_jidx = \<lparr>crp_marshal = enc_crp, crp_unmarshal = (\<lambda>b. map_option fst (dec_crp b)),
     ss_marshal = enc_ss,
     ss_unmarshal = (\<lambda>b. case dec_ss b of None \<Rightarrow> Inl (GoErr ''unexpected end of JSON input'') | Some (s, _) \<Rightarrow> Inr s)\<rparr>"

subsection \<open>Headers and bucket metadata\<close>

definition enc_md :: "dirEntMetadata \<Rightarrow> bytes" where
  "enc_md m = enc_nat (if IsDir m then 1 else 0) @ enc_int (MTime m) @ enc_string (XAttrs m) @
     enc_nat (unat (md_Mode m)) @ enc_nat (if IsSymlink m then 1 else 0) @ enc_string (SymlinkOrigin m)"

definition dec_md :: "bytes \<Rightarrow> (dirEntMetadata \<times> bytes) option" where
  "dec_md b = Option.bind (dec_nat b) (\<lambda>(d, r). Option.bind (dec_int r) (\<lambda>(t, r).
     Option.bind (dec_string r) (\<lambda>(x, r). Option.bind (dec_nat r) (\<lambda>(m, r).
     Option.bind (dec_nat r) (\<lambda>(l, r). map_option (\<lambda>(o1, r).
       (\<lparr>IsDir = (d = 1), MTime = t, XAttrs = x, md_Mode = of_nat m, IsSymlink = (l = 1), SymlinkOrigin = o1\<rparr>, r))
       (dec_string r))))))"

interpretation mdc: stream_codec enc_md dec_md
  by unfold_locales (simp add: enc_md_def dec_md_def stringc.dec_enc intc.dec_enc natc.dec_enc)

definition mem_gob :: gob where
  "mem_gob = \<lparr>gob_enc = (\<lambda>m. Inr (enc_md m)),
     gob_dec = (\<lambda>b. case dec_md b of None \<Rightarrow> Inl (GoErr ''EOF'') | Some (m, _) \<Rightarrow> Inr m)\<rparr>"

lemma mem_gob_ok: "gob_ok mem_gob"
  by (auto simp: gob_ok_def mem_gob_def mdc.dec_enc)

definition mem_jmeta :: jmeta where
  "mem_jmeta = \<lparr>md_marshal = (\<lambda>m. enc_string (bm_Salt m) @ enc_int (bm_Version m) @
       enc_string (EncryptedEncKeyB64 m) @ enc_string (EncryptedHmacKeyB64 m)),
     md_unmarshal = (\<lambda>b. case Option.bind (dec_string b) (\<lambda>(s, r). Option.bind (dec_int r) (\<lambda>(v, r).
         Option.bind (dec_string r) (\<lambda>(e, r). map_option (\<lambda>(h, r). \<lparr>bm_Salt = s, bm_Version = v,
           EncryptedEncKeyB64 = e, EncryptedHmacKeyB64 = h\<rparr>) (dec_string r)))) of
       None \<Rightarrow> Inl (GoErr ''unexpected end of JSON input'') | Some m \<Rightarrow> Inr m)\<rparr>"

lemma mem_jmeta_ok: "jmeta_ok mem_jmeta"
  by (simp add: jmeta_ok_def mem_jmeta_def stringc.dec_enc stringc.dec_enc_end intc.dec_enc)

end
