(* ===== verification/Snapshots_GC.thy ===== *)
theory Snapshots_GC
  imports Snapshots
begin

section \<open>Garbage collection keeps what is referenced\<close>

text \<open>
  Listing and reading indices change no object; the collector deletes exactly the unreferenced
  chunks; and in a bucket with the program's naming every index is read, so that every chunk that
  a remaining snapshot needs survives.
\<close>

subsection \<open>References\<close>

definition chunk_refs :: "(string \<times> BackupDir) list \<Rightarrow> string set" where
  "chunk_refs g = (\<Union>(_, bd) \<in> set g. \<Union>(_, ss) \<in> set (Snapshots bd). \<Union>(_, crp) \<in> set (RelPaths ss).
     ChunkName ` set (ChunkExtents crp))"

lemma dom_count_ref: "dom (map_of (count_ref c refs)) = insert c (dom (map_of refs))"
  by (auto split: option.splits)

lemma dom_fold_refs:
  assumes "\<And>x m. dom (map_of (f x m)) = A x \<union> dom (map_of m)"
  shows "dom (map_of (fold f xs m)) = (\<Union>x \<in> set xs. A x) \<union> dom (map_of m)"
  by (induction xs arbitrary: m) (auto simp: assms)

lemma dom_chunkRefCount: "dom (map_of (chunkRefCount g)) = chunk_refs g"
proof -
  have 1: "dom (map_of (fold (\<lambda>ce. count_ref (ChunkName ce)) ces m)) = ChunkName ` set ces \<union> dom (map_of m)"
    for ces m
    by (subst dom_fold_refs [where A = "\<lambda>ce. {ChunkName ce}"]) (auto simp only: dom_count_ref)
  have 2: "dom (map_of (fold (\<lambda>(_, crp). fold (\<lambda>ce. count_ref (ChunkName ce)) (ChunkExtents crp)) rps m))
      = (\<Union>(_, crp) \<in> set rps. ChunkName ` set (ChunkExtents crp)) \<union> dom (map_of m)" for rps :: "(string \<times> CloudRelPath) list" and m
    by (subst dom_fold_refs [where A = "\<lambda>(_, crp). ChunkName ` set (ChunkExtents crp)"]) (auto simp only: 1 split: prod.splits)
  have 3: "dom (map_of (fold (\<lambda>(_, ss). fold (\<lambda>(_, crp). fold (\<lambda>ce. count_ref (ChunkName ce))
      (ChunkExtents crp)) (RelPaths ss)) sss m)) = (\<Union>(_, ss) \<in> set sss. \<Union>(_, crp) \<in> set (RelPaths ss).
      ChunkName ` set (ChunkExtents crp)) \<union> dom (map_of m)" for sss :: "(string \<times> Snapshot) list" and m
    by (subst dom_fold_refs [where A = "\<lambda>(_, ss). \<Union>(_, crp) \<in> set (RelPaths ss). ChunkName ` set (ChunkExtents crp)"])
      (auto simp only: 2 split: prod.splits)
  show ?thesis unfolding chunkRefCount_def chunk_refs_def
    by (subst dom_fold_refs [where A = "\<lambda>(_, bd). \<Union>(_, ss) \<in> set (Snapshots bd). \<Union>(_, crp) \<in> set (RelPaths ss).
        ChunkName ` set (ChunkExtents crp)"]) (auto simp only: 3 map_of.simps dom_empty split: prod.splits)
qed

subsection \<open>Reading changes no object\<close>

context object_store
begin

lemmas store_frames = get_frame list_frame time_frame rand_frame rand_int_frame

lemma frame_GetObjList: "preserves (\<lambda>s. objs (world s) = z) (GetObjList S b p r)"
  unfolding GetObjList_def by (intro preserves_tryM frame_sysM preserves_retM store_frames)

lemma frame_Download: "preserves (\<lambda>s. objs (world s) = z) (DownloadObjToBuffer S b n)"
  unfolding DownloadObjToBuffer_def
  by (intro preserves_tryM preserves_bindM frame_sysM preserves_retM preserves_modifyM store_frames) simp_all

lemma frame_TopLevel: "preserves (\<lambda>s. objs (world s) = z) (GetObjListTopLevel S b ex)"
  unfolding GetObjListTopLevel_def by (intro preserves_tryM frame_sysM preserves_retM store_frames)

lemma frame_IndexFile: "preserves (\<lambda>s. objs (world s) = z) (GetSnapshotIndexFile S C b key n)"
  unfolding GetSnapshotIndexFile_def by (intro preserves_tryM frame_Download preserves_retM preserves_liftGo)

lemma frame_read_indices: "preserves (\<lambda>s. objs (world s) = z) (read_indices S C J b key e ns acc)"
  by (induction ns arbitrary: acc)
    (auto simp: Let_def intro!: preserves_tryM frame_IndexFile split: sum.splits)

lemma frame_group_backups: "preserves (\<lambda>s. objs (world s) = z) (group_backups S C J key b es ret)"
  by (induction es arbitrary: ret)
    (auto intro!: preserves_tryM frame_GetObjList frame_read_indices)

lemma frame_count_indices: "preserves (\<lambda>s. objs (world s) = z) (count_indices S b es n)"
  by (induction es arbitrary: n) (auto intro!: preserves_tryM frame_GetObjList)

lemma frame_GetGroupedSnapshots: "preserves (\<lambda>s. objs (world s) = z) (GetGroupedSnapshots S C J key b pr)"
  unfolding GetGroupedSnapshots_def
  by (auto intro!: preserves_tryM frame_TopLevel frame_group_backups frame_count_indices)

subsection \<open>What is deleted\<close>

lemma gc_delete_keeps:
  "gc_delete S b refs ns s = (r, t) \<Longrightarrow>
     b' \<noteq> b \<or> n \<notin> set ns \<or> map_of refs (TrimPrefix n ''chunks/'') \<noteq> None \<Longrightarrow>
     objs (world t) b' n = objs (world s) b' n"
proof (induction ns arbitrary: s)
  case (Cons m ns)
  obtain r1 s1 where del: "DeleteObj S b m s = (r1, s1)" by fastforce
  show ?case
  proof (cases "map_of refs (TrimPrefix m ''chunks/'') = None")
    case False
    with Cons.prems(1) have "gc_delete S b refs ns s = (r, t)" by (simp add: Let_def)
    from Cons.IH [OF this] Cons.prems(2) show ?thesis by auto
  next
    case True
    with Cons.prems(2) have "(b', n) \<noteq> (b, m)" by auto
    from DeleteObj_other [OF del this] have fr: "objs (world s1) b' n = objs (world s) b' n" .
    show ?thesis
    proof (cases "\<exists>u. r1 = Ret (Inr u)")
      case ok: True
      with Cons.prems(1) True del have "gc_delete S b refs ns s1 = (r, t)"
        by (auto simp: Let_def tryM_def bindM_def)
      from Cons.IH [OF this] Cons.prems(2) fr show ?thesis by auto
    next
      case False
      with Cons.prems(1) True del have tr: "t = s1"
        by (auto simp: Let_def tryM_def bindM_def split: go.splits sum.splits)
      with fr show ?thesis by simp
    qed
  qed
qed simp

lemma gc_delete_removes:
  "gc_delete S b refs ns s = (Ret (Inr u), t) \<Longrightarrow> n \<in> set ns \<Longrightarrow>
     map_of refs (TrimPrefix n ''chunks/'') = None \<Longrightarrow> objs (world t) b n = None"
proof (induction ns arbitrary: s)
  case (Cons m ns)
  show ?case
  proof (cases "map_of refs (TrimPrefix m ''chunks/'') = None")
    case False
    with Cons show ?thesis by (auto simp: Let_def)
  next
    case True
    with Cons.prems(1) obtain u1 s1 where del: "DeleteObj S b m s = (Ret (Inr u1), s1)"
      and rest: "gc_delete S b refs ns s1 = (Ret (Inr u), t)"
      by (auto simp: Let_def elim!: tryM_RetE)
    show ?thesis
    proof (cases "n \<in> set ns")
      case False
      with Cons.prems(2) have "n = m" by simp
      with DeleteObj_ok [OF del] have "objs (world s1) b n = None" by simp
      moreover have "objs (world t) b n = objs (world s1) b n"
        using gc_delete_keeps [OF rest] False by blast
      ultimately show ?thesis by simp
    qed (use Cons.IH [OF rest] Cons.prems(3) in simp)
  qed
qed simp

lemma GCChunks_cases:
  assumes "GCChunks S C J b key pr s = (r, t)"
  obtains (nothing) "objs (world t) = objs (world s)" "\<And>u. r \<noteq> Ret (Inr u)"
    | (collected) g s1 m s2 where "GetGroupedSnapshots S C J key b pr s = (Ret (Inr g), s1)"
        "GetObjList S b ''chunks/'' False s1 = (Ret (Inr m), s2)"
        "objs (world s1) = objs (world s)" "objs (world s2) = objs (world s)"
        "gc_delete S b (chunkRefCount g) (map_keys m) s2 = (r, t)"
proof -
  obtain r1 s1 where g: "GetGroupedSnapshots S C J key b pr s = (r1, s1)" by fastforce
  have o1: "objs (world s1) = objs (world s)" using preservesD' [OF frame_GetGroupedSnapshots g] by simp
  obtain r2 s2 where l: "GetObjList S b ''chunks/'' False s1 = (r2, s2)" by fastforce
  have o2: "objs (world s2) = objs (world s)" using preservesD' [OF frame_GetObjList l] o1 by simp
  show thesis
  proof (cases "\<exists>x. r1 = Ret (Inr x)")
    case True
    then obtain x where x: "r1 = Ret (Inr x)" by blast
    show thesis
    proof (cases "\<exists>y. r2 = Ret (Inr y)")
      case True
      with x assms g l o1 o2 collected show thesis by (auto simp: GCChunks_def tryM_def bindM_def)
    next
      case False
      with x assms g l have tr: "t = s2 \<and> (\<forall>u. r \<noteq> Ret (Inr u))"
        by (auto simp: GCChunks_def tryM_def bindM_def split: go.splits sum.splits)
      show thesis by (rule nothing) (use tr o2 in auto)
    qed
  next
    case False
    with assms g have tr: "t = s1 \<and> (\<forall>u. r \<noteq> Ret (Inr u))"
      by (auto simp: GCChunks_def tryM_def bindM_def split: go.splits sum.splits)
    show thesis by (rule nothing) (use tr o1 in auto)
  qed
qed

subsection \<open>Every index is read\<close>

text \<open>The names the program gives to the objects of a bucket.\<close>

end

definition index_obj :: "clib \<Rightarrow> bytes \<Rightarrow> string \<Rightarrow> string \<Rightarrow> string \<Rightarrow> bool" where
  "index_obj C key bk ss n \<longleftrightarrow> (\<exists>e1 e2. EncryptFilename C key bk = Inr e1 \<and>
     EncryptFilename C key ss = Inr e2 \<and> n = e1 @ ''/@'' @ e2)"

definition backup_name_ok :: "clib \<Rightarrow> bytes \<Rightarrow> string \<Rightarrow> bool" where
  "backup_name_ok C key bk \<longleftrightarrow> (\<forall>e. EncryptFilename C key bk = Inr e \<longrightarrow>
     \<not> HasPrefix e ''metadata'' \<and> \<not> HasPrefix e ''chunks'')"

definition bucket_names_ok :: "clib \<Rightarrow> bytes \<Rightarrow> (string \<Rightarrow> bytes option) \<Rightarrow> bool" where
  "bucket_names_ok C key f \<longleftrightarrow> (\<forall>n. f n \<noteq> None \<longrightarrow> n = MetadataObjName \<or>
     (\<exists>c. n = ''chunks/'' @ c \<and> CHR ''/'' \<notin> set c) \<or>
     (\<exists>bk ss. index_obj C key bk ss n \<and> backup_name_ok C key bk))"

lemma upto_slash_append: "CHR ''/'' \<notin> set e \<Longrightarrow> upto_slash (e @ CHR ''/'' # r) = e @ ''/''"
  by (induction e) auto

lemma upto_slash_none: "CHR ''/'' \<notin> set e \<Longrightarrow> upto_slash e = e"
  by (induction e) auto

lemma StripTrailingSlashes_component:
  "e \<noteq> [] \<Longrightarrow> CHR ''/'' \<notin> set e \<Longrightarrow> StripTrailingSlashes (e @ ''/'') = e"
proof -
  assume e: "e \<noteq> []" "CHR ''/'' \<notin> set e"
  then have "dropWhile (\<lambda>c. c = CHR ''/'') (rev e) = rev e"
    by (cases e rule: rev_cases) auto
  with e show ?thesis by (auto simp: StripTrailingSlashes_def strip_trailing_eq append_eq_Cons_conv)
qed

lemma HasPrefix_slash: "CHR ''/'' \<notin> set p \<Longrightarrow> HasPrefix (e @ CHR ''/'' # r) p \<longleftrightarrow> HasPrefix e p"
proof (induction p arbitrary: e)
  case (Cons c p)
  then show ?case by (cases e) (auto simp: HasPrefix_def)
qed simp

lemma skip_prefix_iff: "skip_prefix ps k \<longleftrightarrow> (\<exists>p \<in> set ps. HasPrefix k p)"
proof -
  have "fold (\<lambda>p skip. if HasPrefix k p then True else skip) ps z \<longleftrightarrow> z \<or> (\<exists>p \<in> set ps. HasPrefix k p)" for z
    by (induction ps arbitrary: z) auto
  then show ?thesis by (simp add: skip_prefix_def)
qed

definition has_snapshot :: "(string \<times> BackupDir) list \<Rightarrow> string \<Rightarrow> string \<Rightarrow> Snapshot \<Rightarrow> bool" where
  "has_snapshot g bk ss snap \<longleftrightarrow> (\<exists>bd. map_of g bk = Some bd \<and> map_of (Snapshots bd) ss = Some snap)"

locale keyed_store = object_store +
  fixes C :: clib and J :: jidx and key :: bytes
  assumes clib: "clib_ok C" and key32: "length key = 32"
begin

lemma enc_component: "EncryptFilename C key n = Inr e \<Longrightarrow> e \<noteq> [] \<and> CHR ''/'' \<notin> set e"
  using EncryptFilename_component [OF clib key32] by blast

lemma dec_enc: "EncryptFilename C key n = Inr e \<Longrightarrow> DecryptFilename C key e = Ret (Inr n)"
  using DecryptFilename_Encrypt [OF clib key32] by blast

lemma list_key_index:
  assumes "EncryptFilename C key bk = Inr e1" "EncryptFilename C key ss = Inr e2"
  shows "list_key [] False (e1 @ ''/@'' @ e2) = e1 @ ''/''"
    "list_key (e1 @ ''/@'') False (e1 @ ''/@'' @ e2) = e1 @ ''/@'' @ e2"
  using enc_component [OF assms(1)] enc_component [OF assms(2)] upto_slash_append [of e1 "CHR ''@'' # e2"]
  by (simp_all add: list_key_def upto_slash_none)

text \<open>The top level shows exactly the backups.\<close>

lemma TopLevel_names:
  assumes ok: "bucket_names_ok C key (objs (world s) b)"
    and run: "GetObjListTopLevel S b [''metadata'', ''chunks''] s = (Ret (Inr l), t)"
  shows "set l = {e. \<exists>bk ss n. EncryptFilename C key bk = Inr e \<and> backup_name_ok C key bk \<and>
    index_obj C key bk ss n \<and> objs (world s) b n \<noteq> None}"
proof -
  from run obtain os w where os: "ListObjects S b [] False (world s) = (Inr os, w)"
    and l: "l = map StripTrailingSlashes (filter (\<lambda>k. \<not> skip_prefix [''metadata'', ''chunks''] k) (map fst os))"
    by (auto simp: GetObjListTopLevel_def sysM_def split: prod.splits elim!: tryM_RetE)
  let ?N = "{n. objs (world s) b n \<noteq> None}"
  have keys: "set (map fst os) = list_key [] False ` ?N" using list_ok [OF os] by auto
  have idx: "skip_prefix [''metadata'', ''chunks''] (list_key [] False n) = False \<and>
      StripTrailingSlashes (list_key [] False n) = e1"
    if "EncryptFilename C key bk = Inr e1" "EncryptFilename C key ss = Inr e2" "n = e1 @ ''/@'' @ e2"
      "backup_name_ok C key bk" for n bk ss e1 e2
    using that enc_component [OF that(1)] list_key_index [OF that(1,2)]
    by (auto simp: skip_prefix_iff backup_name_ok_def StripTrailingSlashes_component
        HasPrefix_slash [of _ e1 "[]"])
  have other: "skip_prefix [''metadata'', ''chunks''] (list_key [] False n)"
    if "n = MetadataObjName \<or> (\<exists>c. n = ''chunks/'' @ c)" for n
    using that by (auto simp: skip_prefix_iff list_key_def MetadataObjName_def HasPrefix_def)
  show ?thesis
  proof (intro set_eqI iffI)
    fix e assume "e \<in> set l"
    then obtain n where n: "objs (world s) b n \<noteq> None" "e = StripTrailingSlashes (list_key [] False n)"
      "\<not> skip_prefix [''metadata'', ''chunks''] (list_key [] False n)" using l keys by auto
    from ok n(1) have "n = MetadataObjName \<or> (\<exists>c. n = ''chunks/'' @ c) \<or>
        (\<exists>bk ss. index_obj C key bk ss n \<and> backup_name_ok C key bk)"
      unfolding bucket_names_ok_def by blast
    with other n(3) obtain bk ss where i: "index_obj C key bk ss n" "backup_name_ok C key bk" by blast
    then obtain e1 e2 where e: "EncryptFilename C key bk = Inr e1" "EncryptFilename C key ss = Inr e2"
      "n = e1 @ ''/@'' @ e2" by (auto simp: index_obj_def)
    have "e = e1" using idx [OF e i(2)] n(2) by simp
    with i e n(1) show "e \<in> {e. \<exists>bk ss n. EncryptFilename C key bk = Inr e \<and> backup_name_ok C key bk \<and>
        index_obj C key bk ss n \<and> objs (world s) b n \<noteq> None}"
      by blast
  next
    fix e assume "e \<in> {e. \<exists>bk ss n. EncryptFilename C key bk = Inr e \<and> backup_name_ok C key bk \<and>
        index_obj C key bk ss n \<and> objs (world s) b n \<noteq> None}"
    then obtain bk ss n e2 where i: "EncryptFilename C key bk = Inr e" "backup_name_ok C key bk"
      "EncryptFilename C key ss = Inr e2" "n = e @ ''/@'' @ e2" "objs (world s) b n \<noteq> None"
      by (auto simp: index_obj_def)
    with idx [OF i(1,3,4,2)] keys l show "e \<in> set l" by (force simp: image_iff)
  qed
qed

lemma IndexFile_Ret:
  assumes "GetSnapshotIndexFile S C b key n s = (Ret (Inr j), t)"
  shows "\<exists>x. objs (world s) b n = Some x \<and> DecryptBuffer C key x = Ret (Inr j)"
  using assms by (auto simp: GetSnapshotIndexFile_def decryptIndexFile_def elim!: tryM_RetE dest: Download_ok)

lemma read_indices_has:
  assumes enc: "EncryptFilename C key ss = Inr e2"
    and idx: "z b (e1 @ ''/@'' @ e2) = Some x" "DecryptBuffer C key x = Ret (Inr j)" "ss_unmarshal J j = Inr snap"
  shows "read_indices S C J b key e1 ns acc s = (Ret (Inr out), t) \<Longrightarrow> objs (world s) = z \<Longrightarrow>
     (\<And>n. n \<in> set ns \<Longrightarrow> \<exists>ss' e2'. EncryptFilename C key ss' = Inr e2' \<and> n = e1 @ ''/@'' @ e2') \<Longrightarrow>
     e1 @ ''/@'' @ e2 \<in> set ns \<or> map_of acc ss = Some snap \<Longrightarrow> map_of out ss = Some snap"
proof (induction ns arbitrary: acc s)
  case (Cons n ns)
  obtain ss' e2' where n: "EncryptFilename C key ss' = Inr e2'" "n = e1 @ ''/@'' @ e2'"
    using Cons.prems(3) [of n] by auto
  have trim: "TrimPrefix n (e1 @ ''/@'') = e2'" using TrimPrefix_append [of "e1 @ ''/@''" e2'] n(2) by simp
  from Cons.prems(1) obtain j' s1 ssObj where
    ix: "GetSnapshotIndexFile S C b key n s = (Ret (Inr j'), s1)" "ss_unmarshal J j' = Inr ssObj"
    and rest: "read_indices S C J b key e1 ns (map_put ss' ssObj acc) s1 = (Ret (Inr out), t)"
    by (auto simp: Let_def trim dec_enc [OF n(1)] UnmarshalSnapshotObj_def elim!: tryM_RetE split: sum.splits)
  have z1: "objs (world s1) = z" using preservesD' [OF frame_IndexFile ix(1)] Cons.prems(2) by simp
  show ?case
  proof (cases "ss' = ss")
    case True
    then have "n = e1 @ ''/@'' @ e2" using n enc by simp
    with IndexFile_Ret [OF ix(1)] idx Cons.prems(2) ix(2) have "ssObj = snap" by auto
    with True show ?thesis using Cons.IH [OF rest z1] Cons.prems(3) by simp
  next
    case False
    have "e2' \<noteq> e2" using False dec_enc [OF n(1)] dec_enc [OF enc] by auto
    with n have "n \<noteq> e1 @ ''/@'' @ e2" by simp
    with False Cons.prems(4) show ?thesis using Cons.IH [OF rest z1] Cons.prems(3) by auto
  qed
qed simp

lemma index_list:
  assumes ok: "bucket_names_ok C key (objs (world s) b)" and e1: "EncryptFilename C key bk = Inr e1"
    and bk: "backup_name_ok C key bk"
    and run: "GetObjList S b (e1 @ ''/@'') False s = (Ret (Inr m), t)"
  shows "set (map_keys m) = {n. objs (world s) b n \<noteq> None \<and>
    (\<exists>ss' e2'. EncryptFilename C key ss' = Inr e2' \<and> n = e1 @ ''/@'' @ e2')}"
proof -
  let ?p = "e1 @ ''/@''"
  have form: "\<exists>ss' e2'. EncryptFilename C key ss' = Inr e2' \<and> n = ?p @ e2'"
    if n: "objs (world s) b n \<noteq> None" "HasPrefix n ?p" for n
  proof -
    obtain r where r: "n = e1 @ ''/@'' @ r" using n(2) by (auto simp: HasPrefix_iff)
    have no: "HasPrefix n p \<longleftrightarrow> HasPrefix e1 p" if "CHR ''/'' \<notin> set p" for p
      using HasPrefix_slash [OF that, of e1 "CHR ''@'' # r"] r by simp
    have "n \<noteq> MetadataObjName" "\<not> (\<exists>c. n = ''chunks/'' @ c)"
    proof -
      show "n \<noteq> MetadataObjName"
        using no [of "''metadata''"] bk e1 by (auto simp: MetadataObjName_def backup_name_ok_def HasPrefix_def)
      have "\<not> HasPrefix n ''chunks''" using no [of "''chunks''"] bk e1 by (auto simp: backup_name_ok_def)
      then show "\<not> (\<exists>c. n = ''chunks/'' @ c)" by (auto simp: HasPrefix_def)
    qed
    then obtain bk' ss' where "index_obj C key bk' ss' n"
      using ok n(1) unfolding bucket_names_ok_def by blast
    then obtain e1' e2' where i: "EncryptFilename C key bk' = Inr e1'" "EncryptFilename C key ss' = Inr e2'"
      "n = e1' @ ''/@'' @ e2'" by (auto simp: index_obj_def)
    have "takeWhile (\<lambda>c. c \<noteq> CHR ''/'') (f @ CHR ''/'' # r) = f" if "CHR ''/'' \<notin> set f" for f r
      using that by (subst takeWhile_append2) auto
    then have "e1' = e1" using i(3) r enc_component [OF i(1)] enc_component [OF e1]
      by (metis append_Cons append_Nil)
    with i r show ?thesis by auto
  qed
  have "set (map_keys m) = list_key ?p False ` {n. objs (world s) b n \<noteq> None \<and> HasPrefix n ?p}"
    using GetObjList_ok [OF run] by simp
  also have "\<dots> = {n. objs (world s) b n \<noteq> None \<and>
      (\<exists>ss' e2'. EncryptFilename C key ss' = Inr e2' \<and> n = e1 @ ''/@'' @ e2')}"
  proof (intro set_eqI iffI)
    fix k assume "k \<in> list_key ?p False ` {n. objs (world s) b n \<noteq> None \<and> HasPrefix n ?p}"
    then obtain n where n: "k = list_key ?p False n" "objs (world s) b n \<noteq> None" "HasPrefix n ?p" by blast
    obtain ss' e2' where i: "EncryptFilename C key ss' = Inr e2'" "n = e1 @ ''/@'' @ e2'"
      using form [OF n(2,3)] by auto
    with list_key_index(2) [OF e1 i(1)] n have "k = n" by simp
    with i n(2) show "k \<in> {n. objs (world s) b n \<noteq> None \<and>
      (\<exists>ss' e2'. EncryptFilename C key ss' = Inr e2' \<and> n = e1 @ ''/@'' @ e2')}" by blast
  next
    fix n assume "n \<in> {n. objs (world s) b n \<noteq> None \<and>
      (\<exists>ss' e2'. EncryptFilename C key ss' = Inr e2' \<and> n = e1 @ ''/@'' @ e2')}"
    then obtain ss' e2' where i: "objs (world s) b n \<noteq> None" "EncryptFilename C key ss' = Inr e2'"
      "n = e1 @ ''/@'' @ e2'" by blast
    have "HasPrefix n ?p" using i(3) HasPrefix_append [of ?p e2'] by simp
    with i list_key_index(2) [OF e1 i(2)]
    show "n \<in> list_key ?p False ` {n. objs (world s) b n \<noteq> None \<and> HasPrefix n ?p}"
      by (intro image_eqI [of _ _ n]) auto
  qed
  finally show ?thesis .
qed

lemma group_backups_has:
  assumes ok: "bucket_names_ok C key (z b)"
    and e1: "EncryptFilename C key bk = Inr e1" and enc: "EncryptFilename C key ss = Inr e2"
    and idx: "z b (e1 @ ''/@'' @ e2) = Some x" "DecryptBuffer C key x = Ret (Inr j)" "ss_unmarshal J j = Inr snap"
  shows "group_backups S C J key b es ret s = (Ret (Inr g), t) \<Longrightarrow> objs (world s) = z \<Longrightarrow>
     (\<And>e. e \<in> set es \<Longrightarrow> \<exists>bk'. EncryptFilename C key bk' = Inr e \<and> backup_name_ok C key bk') \<Longrightarrow>
     e1 \<in> set es \<or> has_snapshot ret bk ss snap \<Longrightarrow> has_snapshot g bk ss snap"
proof (induction es arbitrary: ret s)
  case (Cons e es)
  obtain bk' where e: "EncryptFilename C key bk' = Inr e" "backup_name_ok C key bk'"
    using Cons.prems(3) [of e] by auto
  from Cons.prems(1) obtain m s1 sss s2 where
    l: "GetObjList S b (e @ ''/@'') False s = (Ret (Inr m), s1)"
    and rd: "read_indices S C J b key e (map_keys m) [] s1 = (Ret (Inr sss), s2)"
    and rest: "group_backups S C J key b es (map_put bk' \<lparr>bd_EncryptedName = e, bd_DecryptedName = bk',
        Snapshots = sss\<rparr> ret) s2 = (Ret (Inr g), t)"
    by (auto simp: dec_enc [OF e(1)] elim!: tryM_RetE)
  have z1: "objs (world s1) = z" using preservesD' [OF frame_GetObjList l] Cons.prems(2) by simp
  have z2: "objs (world s2) = z" using preservesD' [OF frame_read_indices rd] z1 by simp
  note ih = Cons.IH [OF rest z2]
  show ?case
  proof (cases "bk' = bk")
    case True
    then have "e = e1" using e e1 by simp
    have "map_of sss ss = Some snap"
    proof (rule read_indices_has [OF enc idx _ z1])
      show "read_indices S C J b key e1 (map_keys m) [] s1 = (Ret (Inr sss), s2)" using rd \<open>e = e1\<close> by simp
      have keys: "set (map_keys m) = {n. objs (world s) b n \<noteq> None \<and>
          (\<exists>ss' e2'. EncryptFilename C key ss' = Inr e2' \<and> n = e1 @ ''/@'' @ e2')}"
        using index_list [OF _ e(1,2) l] ok Cons.prems(2) \<open>e = e1\<close> by simp
      then show "\<exists>ss' e2'. EncryptFilename C key ss' = Inr e2' \<and> n = e1 @ ''/@'' @ e2'"
        if "n \<in> set (map_keys m)" for n using that by auto
      show "e1 @ ''/@'' @ e2 \<in> set (map_keys m) \<or> map_of [] ss = Some snap"
        using keys enc idx(1) Cons.prems(2) by auto
    qed
    with True show ?thesis using ih Cons.prems(3) by (simp add: has_snapshot_def)
  next
    case False
    then have "e \<noteq> e1" using dec_enc [OF e(1)] dec_enc [OF e1] by auto
    with False Cons.prems(3,4) show ?thesis using ih by (auto simp: has_snapshot_def)
  qed
qed simp

lemma GetGroupedSnapshots_has:
  assumes "bucket_names_ok C key (objs (world s) b)" "index_obj C key bk ss n" "backup_name_ok C key bk"
    and "objs (world s) b n = Some x" "DecryptBuffer C key x = Ret (Inr j)" "ss_unmarshal J j = Inr snap"
    and "GetGroupedSnapshots S C J key b pr s = (Ret (Inr g), t)"
  shows "has_snapshot g bk ss snap"
proof -
  obtain e1 e2 where e: "EncryptFilename C key bk = Inr e1" "EncryptFilename C key ss = Inr e2"
    "n = e1 @ ''/@'' @ e2" using assms(2) by (auto simp: index_obj_def)
  from assms(7) obtain l s1 cnt s2 where
    tl: "GetObjListTopLevel S b [''metadata'', ''chunks''] s = (Ret (Inr l), s1)"
    and cn: "(if pr then count_indices S b l 0 else retM (Inr 0)) s1 = (Ret (Inr cnt), s2)"
    and gb: "group_backups S C J key b l [] s2 = (Ret (Inr g), t)"
    by (auto simp: GetGroupedSnapshots_def elim!: tryM_RetE split: if_splits)
  have z1: "objs (world s1) = objs (world s)" using preservesD' [OF frame_TopLevel tl] by simp
  have "preserves (\<lambda>u. objs (world u) = objs (world s)) (if pr then count_indices S b l 0 else retM (Inr 0))"
    by (auto intro!: frame_count_indices)
  from preservesD' [OF this cn z1] have z2: "objs (world s2) = objs (world s)" .
  note names = TopLevel_names [OF assms(1) tl]
  show ?thesis
  proof (rule group_backups_has [OF assms(1) e(1,2) _ assms(5,6) gb z2])
    show "objs (world s) b (e1 @ ''/@'' @ e2) = Some x" using assms(4) e(3) by simp
    show "\<exists>bk'. EncryptFilename C key bk' = Inr e' \<and> backup_name_ok C key bk'" if "e' \<in> set l" for e'
      using that names by auto
    show "e1 \<in> set l \<or> has_snapshot [] bk ss snap"
      using names assms(2,3,4) e(1) by auto
  qed
qed

text \<open>The collector cannot take a chunk away from a snapshot that is still indexed.\<close>

lemma GCChunks_keeps:
  assumes "bucket_names_ok C key (objs (world s) b)" "index_obj C key bk ss n" "backup_name_ok C key bk"
    and "objs (world s) b n = Some x" "DecryptBuffer C key x = Ret (Inr j)" "ss_unmarshal J j = Inr snap"
    and "(p, crp) \<in> set (RelPaths snap)" "ce \<in> set (ChunkExtents crp)"
    and "GCChunks S C J b key pr s = (r, t)"
  shows "objs (world t) b (''chunks/'' @ ChunkName ce) = objs (world s) b (''chunks/'' @ ChunkName ce)"
  using assms(9)
proof (cases rule: GCChunks_cases)
  case (collected g s1 m s2)
  have "has_snapshot g bk ss snap" using GetGroupedSnapshots_has [OF assms(1-6) collected(1)] .
  then have "ChunkName ce \<in> chunk_refs g"
    using assms(7,8) by (fastforce simp: has_snapshot_def chunk_refs_def dest: map_of_SomeD)
  then have "map_of (chunkRefCount g) (ChunkName ce) \<noteq> None"
    using dom_chunkRefCount [of g] by (auto simp: dom_def)
  moreover have "TrimPrefix (''chunks/'' @ ChunkName ce) ''chunks/'' = ChunkName ce"
    by (rule TrimPrefix_append)
  ultimately show ?thesis
    using gc_delete_keeps [OF collected(5), of b "''chunks/'' @ ChunkName ce"] collected(4) by simp
qed simp

end

subsection \<open>Garbage collection is safe and complete\<close>

context object_store
begin

lemma GCChunks_removes:
  assumes "GCChunks S C J b key pr s = (Ret (Inr u), t)"
    and "GetGroupedSnapshots S C J key b pr s = (Ret (Inr g), s1)"
    and "c \<notin> chunk_refs g" "CHR ''/'' \<notin> set c"
  shows "objs (world t) b (''chunks/'' @ c) = None"
  using assms(1)
proof (cases rule: GCChunks_cases)
  case (collected g' s1' m s2)
  then have g': "g' = g" using assms(2) by simp
  have none: "map_of (chunkRefCount g) c = None"
    using assms(3) dom_chunkRefCount [of g] by (auto simp: dom_def)
  have trim: "TrimPrefix (''chunks/'' @ c) ''chunks/'' = c" by (rule TrimPrefix_append)
  show ?thesis
  proof (cases "''chunks/'' @ c \<in> set (map_keys m)")
    case True
    then show ?thesis using gc_delete_removes [OF collected(5)] none trim g' by simp
  next
    case False
    have "objs (world s) b (''chunks/'' @ c) = None"
    proof (rule ccontr)
      assume "objs (world s) b (''chunks/'' @ c) \<noteq> None"
      moreover have "list_key ''chunks/'' False (''chunks/'' @ c) = ''chunks/'' @ c"
        using assms(4) by (simp add: list_key_def upto_slash_none)
      ultimately have "''chunks/'' @ c \<in> list_key ''chunks/'' False `
          {n. objs (world s1') b n \<noteq> None \<and> HasPrefix n ''chunks/''}"
        using collected(3) by (intro image_eqI [of _ _ "''chunks/'' @ c"]) (simp_all add: HasPrefix_def)
      with GetObjList_ok [OF collected(2)] False show False by (metis set_map)
    qed
    moreover have "objs (world t) b (''chunks/'' @ c) = objs (world s2) b (''chunks/'' @ c)"
      by (rule gc_delete_keeps [OF collected(5)]) (use False in blast)
    ultimately show ?thesis using collected(4) by simp
  qed
qed simp

end

text \<open>
  C7. No chunk that a readable index refers to is deleted: if an index object decrypts and parses to a
  snapshot with the extent \<open>ce\<close>, the object of its chunk is the same after \<^verbatim>\<open>GCChunks\<close>, however it ends.
  This takes that the names in the bucket are those the program makes, and that the encrypted name of the
  backup does not start with \<^verbatim>\<open>chunks\<close> or \<^verbatim>\<open>metadata\<close>.
\<close>

theorem gc_keeps_referenced:
  assumes "keyed_store S objs C key" "bucket_names_ok C key (objs (world s) b)"
    and "index_obj C key bk ss n" "backup_name_ok C key bk"
    and "objs (world s) b n = Some x" "DecryptBuffer C key x = Ret (Inr j)" "ss_unmarshal J j = Inr snap"
    and "(p, crp) \<in> set (RelPaths snap)" "ce \<in> set (ChunkExtents crp)"
    and "GCChunks S C J b key pr s = (r, t)"
  shows "objs (world t) b (''chunks/'' @ ChunkName ce) = objs (world s) b (''chunks/'' @ ChunkName ce)"
  by (rule keyed_store.GCChunks_keeps [OF assms])

text \<open>
  C8. Every chunk that no index refers to is gone after a successful \<^verbatim>\<open>GCChunks\<close>.
\<close>

theorem gc_removes_unreferenced:
  assumes "object_store S objs" "GCChunks S C J b key pr s = (Ret (Inr u), t)"
    and "GetGroupedSnapshots S C J key b pr s = (Ret (Inr g), s1)"
    and "c \<notin> chunk_refs g" "CHR ''/'' \<notin> set c"
  shows "objs (world t) b (''chunks/'' @ c) = None"
  by (rule object_store.GCChunks_removes [OF assms])

end
