(* ===== verification/Prune.thy ===== *)
theory Prune
  imports Snapshots
begin

section \<open>Which snapshots to keep (pkg/snapshots/prune.go)\<close>

text \<open>
  Pruning keeps every snapshot of the last day and, of four older ranges, the oldest and the newest
  one. The code reads the clock anew for every comparison; the model takes one \<open>now\<close> for the whole
  computation. The lemmas compare the loop with a declarative description.
\<close>

record TimeRangeSecondsAgo =
  tr_From :: int
  BackTo :: int

definition TimeIsWithin :: "TimeRangeSecondsAgo \<Rightarrow> int \<Rightarrow> int \<Rightarrow> bool" where
  "TimeIsWithin tr now unixTimestamp \<longleftrightarrow>
     unixTimestamp \<le> now - tr_From tr \<and> unixTimestamp > now - BackTo tr"

definition getOrderedSliceWithin :: "TimeRangeSecondsAgo \<Rightarrow> int \<Rightarrow> SnapshotInfo list \<Rightarrow> SnapshotInfo list" where
  "getOrderedSliceWithin tr now ssiFullSet =
     sort_key TimestampUnix (filter (\<lambda>ssi. TimeIsWithin tr now (TimestampUnix ssi)) ssiFullSet)"

definition IsOldestWithin :: "TimeRangeSecondsAgo \<Rightarrow> int \<Rightarrow> int \<Rightarrow> SnapshotInfo list \<Rightarrow> bool" where
  "IsOldestWithin tr now unixTimestamp ssiFullSet =
     (let orderedSlice = getOrderedSliceWithin tr now ssiFullSet in
      if length orderedSlice = 0 then False
      else TimestampUnix (orderedSlice ! 0) = unixTimestamp)"

definition IsNewestWithin :: "TimeRangeSecondsAgo \<Rightarrow> int \<Rightarrow> int \<Rightarrow> SnapshotInfo list \<Rightarrow> bool" where
  "IsNewestWithin tr now unixTimestamp ssiFullSet =
     (let orderedSlice = getOrderedSliceWithin tr now ssiFullSet in
      if length orderedSlice = 0 then False
      else TimestampUnix (orderedSlice ! (length orderedSlice - 1)) = unixTimestamp)"

definition OneHourInSec :: int where "OneHourInSec = 60 * 60"
definition OneDayInSec :: int where "OneDayInSec = 24 * OneHourInSec"
definition ThreeDaysInSec :: int where "ThreeDaysInSec = 3 * OneDayInSec"
definition OneWeekInSec :: int where "OneWeekInSec = 7 * OneDayInSec"
definition OneMonthInSec :: int where "OneMonthInSec = 30 * OneDayInSec"
definition OneYearInSec :: int where "OneYearInSec = 12 * OneMonthInSec"

definition KeepEverything :: TimeRangeSecondsAgo where
  "KeepEverything = \<lparr>tr_From = 0, BackTo = OneDayInSec\<rparr>"

definition KeepOldestNewest :: "TimeRangeSecondsAgo list" where
  "KeepOldestNewest =
     [\<lparr>tr_From = OneDayInSec, BackTo = ThreeDaysInSec\<rparr>,
      \<lparr>tr_From = ThreeDaysInSec, BackTo = OneWeekInSec\<rparr>,
      \<lparr>tr_From = OneWeekInSec, BackTo = OneMonthInSec\<rparr>,
      \<lparr>tr_From = OneMonthInSec, BackTo = OneYearInSec\<rparr>]"

text \<open>The inner loop; both \<^verbatim>\<open>continue\<close> statements go on with the next range.\<close>

fun keep_ranges :: "int \<Rightarrow> SnapshotInfo list \<Rightarrow> SnapshotInfo \<Rightarrow> TimeRangeSecondsAgo list
    \<Rightarrow> SnapshotInfo list \<Rightarrow> SnapshotInfo list" where
  "keep_ranges now snapshotInfos ss [] keeps = keeps"
| "keep_ranges now snapshotInfos ss (agoRange # rest) keeps =
     (if IsOldestWithin agoRange now (TimestampUnix ss) snapshotInfos
      then keep_ranges now snapshotInfos ss rest (keeps @ [ss])
      else if IsNewestWithin agoRange now (TimestampUnix ss) snapshotInfos
      then keep_ranges now snapshotInfos ss rest (keeps @ [ss])
      else keep_ranges now snapshotInfos ss rest keeps)"

fun keeps_loop :: "int \<Rightarrow> SnapshotInfo list \<Rightarrow> SnapshotInfo list \<Rightarrow> SnapshotInfo list \<Rightarrow> SnapshotInfo list" where
  "keeps_loop now snapshotInfos [] keeps = keeps"
| "keeps_loop now snapshotInfos (ss # rest) keeps =
     (if TimeIsWithin KeepEverything now (TimestampUnix ss)
      then keeps_loop now snapshotInfos rest (keeps @ [ss])
      else keeps_loop now snapshotInfos rest (keep_ranges now snapshotInfos ss KeepOldestNewest keeps))"

definition GetPruneKeepsList :: "int \<Rightarrow> SnapshotInfo list \<Rightarrow> SnapshotInfo list" where
  "GetPruneKeepsList now snapshotInfos = keeps_loop now snapshotInfos snapshotInfos []"

fun KeepsContains :: "int \<Rightarrow> SnapshotInfo list \<Rightarrow> bool" where
  "KeepsContains searchTimestamp [] = False"
| "KeepsContains searchTimestamp (k # keeps) =
     (if TimestampUnix k = searchTimestamp then True else KeepsContains searchTimestamp keeps)"

subsection \<open>Declarative description\<close>

lemmas range_defs = OneHourInSec_def OneDayInSec_def ThreeDaysInSec_def OneWeekInSec_def
  OneMonthInSec_def OneYearInSec_def KeepEverything_def KeepOldestNewest_def

lemma KeepsContains_iff: "KeepsContains t keeps \<longleftrightarrow> t \<in> TimestampUnix ` set keeps"
  by (induction keeps) auto

definition within :: "TimeRangeSecondsAgo \<Rightarrow> int \<Rightarrow> SnapshotInfo list \<Rightarrow> int set" where
  "within tr now ssis = TimestampUnix ` {ssi \<in> set ssis. TimeIsWithin tr now (TimestampUnix ssi)}"

lemma within_subset: "within tr now ssis \<subseteq> TimestampUnix ` set ssis"
  by (auto simp: within_def)

lemma set_ordered: "TimestampUnix ` set (getOrderedSliceWithin tr now ssis) = within tr now ssis"
  by (auto simp: getOrderedSliceWithin_def within_def)

lemma sorted_ordered: "sorted (map TimestampUnix (getOrderedSliceWithin tr now ssis))"
  by (simp add: getOrderedSliceWithin_def)

lemma sorted_hd_Min: "sorted xs \<Longrightarrow> xs \<noteq> [] \<Longrightarrow> xs ! 0 = Min (set xs)"
  by (cases xs) (auto intro!: Min_eqI [symmetric])

lemma sorted_last_Max: "sorted xs \<Longrightarrow> xs \<noteq> [] \<Longrightarrow> xs ! (length xs - 1) = Max (set xs)"
  by (cases xs rule: rev_cases) (auto simp: sorted_append nth_append intro!: Max_eqI [symmetric])

lemma IsOldestWithin_iff:
  "IsOldestWithin tr now t ssis \<longleftrightarrow> within tr now ssis \<noteq> {} \<and> t = Min (within tr now ssis)"
proof -
  let ?l = "getOrderedSliceWithin tr now ssis"
  have "?l \<noteq> [] \<Longrightarrow> TimestampUnix (?l ! 0) = Min (within tr now ssis)"
    using sorted_hd_Min [OF sorted_ordered, of tr now ssis] by (simp add: set_ordered)
  moreover have "?l = [] \<longleftrightarrow> within tr now ssis = {}" by (simp flip: set_ordered)
  ultimately show ?thesis by (auto simp: IsOldestWithin_def Let_def)
qed

lemma IsNewestWithin_iff:
  "IsNewestWithin tr now t ssis \<longleftrightarrow> within tr now ssis \<noteq> {} \<and> t = Max (within tr now ssis)"
proof -
  let ?l = "getOrderedSliceWithin tr now ssis"
  have "?l \<noteq> [] \<Longrightarrow> TimestampUnix (?l ! (length ?l - 1)) = Max (within tr now ssis)"
    using sorted_last_Max [OF sorted_ordered, of tr now ssis] by (simp add: set_ordered)
  moreover have "?l = [] \<longleftrightarrow> within tr now ssis = {}" by (simp flip: set_ordered)
  ultimately show ?thesis by (auto simp: IsNewestWithin_def Let_def)
qed

definition extreme :: "TimeRangeSecondsAgo \<Rightarrow> int \<Rightarrow> SnapshotInfo list \<Rightarrow> int \<Rightarrow> bool" where
  "extreme tr now ssis t \<longleftrightarrow> within tr now ssis \<noteq> {} \<and>
     (t = Min (within tr now ssis) \<or> t = Max (within tr now ssis))"

lemma keep_ranges_eq:
  "keep_ranges now ssis ss trs keeps =
     keeps @ replicate (length (filter (\<lambda>tr. extreme tr now ssis (TimestampUnix ss)) trs)) ss"
proof (induction trs arbitrary: keeps)
  case (Cons tr trs)
  then show ?case
    by (auto simp: IsOldestWithin_iff IsNewestWithin_iff extreme_def replicate_app_Cons_same)
qed simp

lemma extreme_within: "extreme tr now ssis t \<Longrightarrow> TimeIsWithin tr now t"
proof -
  assume "extreme tr now ssis t"
  moreover have "finite (within tr now ssis)" by (simp add: within_def)
  ultimately have "t \<in> within tr now ssis"
    using Min_in Max_in unfolding extreme_def by metis
  then show ?thesis by (auto simp: within_def)
qed

text \<open>The ranges do not overlap, so a snapshot is taken at most once.\<close>

lemma ranges_disjoint:
  "length (filter (\<lambda>tr. extreme tr now ssis t) KeepOldestNewest) =
     (if \<exists>tr \<in> set KeepOldestNewest. extreme tr now ssis t then 1 else 0)"
proof -
  let ?e = "\<lambda>tr. extreme tr now ssis t"
  have w: "?e tr \<Longrightarrow> TimeIsWithin tr now t" for tr by (rule extreme_within)
  show ?thesis
    by (auto simp: KeepOldestNewest_def split: if_splits;
        drule w; drule w; simp add: TimeIsWithin_def range_defs)
qed

lemma range_cover:
  assumes "t \<le> now - 86400" "now - 360 * 86400 < t"
  shows "\<exists>tr \<in> set KeepOldestNewest. TimeIsWithin tr now t"
proof -
  consider "now - 3 * 86400 < t" | "t \<le> now - 3 * 86400" "now - 7 * 86400 < t"
    | "t \<le> now - 7 * 86400" "now - 30 * 86400 < t" | "t \<le> now - 30 * 86400"
    by linarith
  then show ?thesis
    using assms by cases (simp_all add: TimeIsWithin_def range_defs)
qed

definition kept :: "int \<Rightarrow> SnapshotInfo list \<Rightarrow> SnapshotInfo \<Rightarrow> bool" where
  "kept now ssis ss \<longleftrightarrow> TimeIsWithin KeepEverything now (TimestampUnix ss) \<or>
     (\<exists>tr \<in> set KeepOldestNewest. extreme tr now ssis (TimestampUnix ss))"

lemma keeps_loop_eq: "keeps_loop now ssis xs keeps = keeps @ filter (kept now ssis) xs"
proof (induction xs arbitrary: keeps)
  case (Cons ss xs)
  show ?case
  proof (cases "TimeIsWithin KeepEverything now (TimestampUnix ss)")
    case True
    with Cons show ?thesis by (simp add: kept_def)
  next
    case False
    with Cons show ?thesis by (simp add: kept_def keep_ranges_eq ranges_disjoint)
  qed
qed simp

lemma GetPruneKeepsList_eq: "GetPruneKeepsList now ssis = filter (kept now ssis) ssis"
  by (simp add: GetPruneKeepsList_def keeps_loop_eq)

subsection \<open>Properties\<close>

text \<open>
  C25. \<^verbatim>\<open>GetPruneKeepsList\<close> keeps, in order and without repetition, exactly the snapshots of the last
  24 hours and those whose time is the oldest or the newest within 1-3, 3-7, 7-30 or 30-360 days.
\<close>

theorem prune_keeps:
  "GetPruneKeepsList now ssis = filter (\<lambda>ss. let t = TimestampUnix ss; day = 86400;
      range = (\<lambda>a b. TimestampUnix ` {x \<in> set ssis. now - b * day < TimestampUnix x \<and> TimestampUnix x \<le> now - a * day}) in
      now - day < t \<and> t \<le> now \<or>
      (\<exists>(a, b) \<in> {(1, 3), (3, 7), (7, 30), (30, 360)}. range a b \<noteq> {} \<and> (t = Min (range a b) \<or> t = Max (range a b)))) ssis"
proof -
  have "within \<lparr>tr_From = a * 86400, BackTo = b * 86400\<rparr> now ssis =
      TimestampUnix ` {x \<in> set ssis. now - b * 86400 < TimestampUnix x \<and> TimestampUnix x \<le> now - a * 86400}" for a b
    by (auto simp: within_def TimeIsWithin_def)
  from this [of 1 3] this [of 3 7] this [of 7 30] this [of 30 360] show ?thesis
    unfolding GetPruneKeepsList_eq
    by (intro filter_cong refl)
      (simp add: kept_def extreme_def range_defs TimeIsWithin_def Let_def conj_commute)
qed

text \<open>
  C26. As long as one snapshot is between 0 and 360 days old, pruning keeps at least one; a snapshot
  that is older than 360 days, or dated in the future, is never kept.
\<close>

theorem prune_never_empty:
  assumes "ss \<in> set ssis"
  shows "(now - 360 * 86400 < TimestampUnix ss \<and> TimestampUnix ss \<le> now \<longrightarrow> GetPruneKeepsList now ssis \<noteq> []) \<and>
    (TimestampUnix ss \<le> now - 360 * 86400 \<or> now < TimestampUnix ss \<longrightarrow> ss \<notin> set (GetPruneKeepsList now ssis))"
proof (intro conjI impI)
  assume age: "now - 360 * 86400 < TimestampUnix ss \<and> TimestampUnix ss \<le> now"
  show "GetPruneKeepsList now ssis \<noteq> []"
  proof (cases "now - 86400 < TimestampUnix ss")
    case True
    then have "kept now ssis ss" using age by (simp add: kept_def TimeIsWithin_def range_defs)
    with assms show ?thesis by (auto simp: GetPruneKeepsList_eq filter_empty_conv)
  next
    case False
    then have "TimestampUnix ss \<le> now - 86400" by simp
    from range_cover [OF this] age obtain tr
      where tr: "tr \<in> set KeepOldestNewest" "TimeIsWithin tr now (TimestampUnix ss)" by blast
    then have "TimestampUnix ss \<in> within tr now ssis" using assms by (auto simp: within_def)
    moreover have "finite (within tr now ssis)" by (simp add: within_def)
    ultimately have ne: "within tr now ssis \<noteq> {}" and "Min (within tr now ssis) \<in> within tr now ssis"
      by (auto intro: Min_in)
    then obtain m where "m \<in> set ssis" "TimestampUnix m = Min (within tr now ssis)"
      using within_subset [of tr now ssis] by fastforce
    with ne tr have "m \<in> set (GetPruneKeepsList now ssis)"
      by (auto simp: GetPruneKeepsList_eq kept_def extreme_def)
    then show ?thesis by auto
  qed
next
  assume out: "TimestampUnix ss \<le> now - 360 * 86400 \<or> now < TimestampUnix ss"
  have "\<not> TimeIsWithin tr now (TimestampUnix ss)" if "tr \<in> set KeepOldestNewest \<union> {KeepEverything}" for tr
    using that out by (auto simp: TimeIsWithin_def range_defs)
  then show "ss \<notin> set (GetPruneKeepsList now ssis)"
    by (auto simp: GetPruneKeepsList_eq kept_def dest: extreme_within)
qed

theorem prune_never_empty_witness:
  "GetPruneKeepsList 1700000000
     [\<lparr>si_Name = ''a'', RawSnapshotName = ''b/a'', TimestampUnix = 1699000000\<rparr>] \<noteq> []"
  using prune_never_empty [of "\<lparr>si_Name = ''a'', RawSnapshotName = ''b/a'', TimestampUnix = 1699000000\<rparr>"
      "[\<lparr>si_Name = ''a'', RawSnapshotName = ''b/a'', TimestampUnix = 1699000000\<rparr>]" 1700000000]
  by simp

end
