(* ===== verification/Mem_World.thy ===== *)
theory Mem_World
  imports Mem_Codec Snapshots_GC Prune
begin

section \<open>An in-memory environment\<close>

text \<open>
  One concrete environment: an object store, a clock, a random source and a flat file system kept
  in lists, and stand-ins for the libraries that obey the laws assumed of them. It shows that the
  assumptions of the development can hold together, and it runs the program on concrete inputs.
  It models no part of the repository.
\<close>

subsection \<open>Libraries\<close>

definition mem_tag :: "bytes \<Rightarrow> bytes" where
  "mem_tag k = take 16 (k @ replicate 16 0)"

definition mem_clib :: clib where
  "mem_clib = \<lparr>SivKeyErr = (\<lambda>k. if length k = 32 then None else Some (GoErr ''siv: bad key length'')),
     SivSeal = (\<lambda>k n x. mem_tag k @ x),
     SivOpen = (\<lambda>k n c. if take 16 c = mem_tag k then Some (drop 16 c) else None),
     GcmSeal = (\<lambda>k n x. mem_tag k @ x),
     GcmOpen = (\<lambda>k n c. if take 16 c = mem_tag k then Some (drop 16 c) else None),
     Gzip = (\<lambda>x. 0x1f # x),
     Gunzip = (\<lambda>x. case x of [] \<Rightarrow> None | b # r \<Rightarrow> if b = 0x1f then Some r else None),
     IDKey = (\<lambda>p s. take 32 (p @ s @ replicate 32 0)),
     Md5 = (\<lambda>x. take 16 (x @ replicate 16 0))\<rparr>"

lemma length_mem_tag [simp]: "length (mem_tag k) = 16"
  by (simp add: mem_tag_def)

lemma mem_clib_ok: "clib_ok mem_clib"
  by (simp add: clib_ok_def mem_clib_def) linarith

subsection \<open>The world\<close>

record mfile =
  mf_info :: finfo
  mf_data :: bytes
  mf_link :: string
  mf_xattrs :: "(string \<times> bytes) list"

record mw =
  mw_objs :: "((string \<times> string) \<times> bytes) list"
  mw_time :: int
  mw_rand :: nat
  mw_files :: "(string \<times> mfile) list"
  mw_down :: nat

definition mw0 :: mw where
  "mw0 = \<lparr>mw_objs = [], mw_time = 1700000000, mw_rand = 0, mw_files = [], mw_down = 0\<rparr>"

definition mem_objs :: "mw \<Rightarrow> string \<Rightarrow> string \<Rightarrow> bytes option" where
  "mem_objs w b n = map_of (mw_objs w) (b, n)"

definition mem_unreachable :: goerr where
  "mem_unreachable = GoErr ''dial tcp: connect: network is unreachable''"

definition mem_put :: "string \<Rightarrow> string \<Rightarrow> bytes \<Rightarrow> (mw, string) op" where
  "mem_put b n x w = (if mw_down w > 0 then (Inl mem_unreachable, w\<lparr>mw_down := mw_down w - 1\<rparr>)
     else (Inr (ComputeETag mem_clib x), w\<lparr>mw_objs := map_put (b, n) x (mw_objs w)\<rparr>))"

definition mem_get :: "string \<Rightarrow> string \<Rightarrow> (mw, bytes) op" where
  "mem_get b n w = (case mem_objs w b n of
       None \<Rightarrow> (Inl (GoErr ''The specified key does not exist.''), w)
     | Some x \<Rightarrow> (Inr x, w))"

definition mem_list :: "string \<Rightarrow> string \<Rightarrow> bool \<Rightarrow> (mw, (string \<times> int) list) op" where
  "mem_list b p r w = (Inr (map (\<lambda>k. (k, case mem_objs w b k of None \<Rightarrow> 0 | Some x \<Rightarrow> int (length x)))
     (remdups (map (list_key p r) (filter (\<lambda>n. HasPrefix n p)
       (map snd (filter (\<lambda>bn. fst bn = b) (map_keys (mw_objs w)))))))), w)"

definition mem_remove :: "string \<Rightarrow> string \<Rightarrow> (mw, unit) op" where
  "mem_remove b n w = (Inr (), w\<lparr>mw_objs := map_del (b, n) (mw_objs w)\<rparr>)"

definition mem_copy :: "string \<Rightarrow> string \<Rightarrow> string \<Rightarrow> (mw, unit) op" where
  "mem_copy b src dst w = (case mem_objs w b src of
       None \<Rightarrow> (Inl (GoErr ''The specified key does not exist.''), w)
     | Some x \<Rightarrow> (Inr (), w\<lparr>mw_objs := map_put (b, dst) x (mw_objs w)\<rparr>))"

definition with_file :: "string \<Rightarrow> (mfile \<Rightarrow> 'a) \<Rightarrow> (mw, 'a) op" where
  "with_file p f w = (case map_of (mw_files w) p of None \<Rightarrow> (Inl ErrNotExist, w) | Some m \<Rightarrow> (Inr (f m), w))"

definition upd_file :: "string \<Rightarrow> (mfile \<Rightarrow> mfile) \<Rightarrow> (mw, unit) op" where
  "upd_file p f w = (case map_of (mw_files w) p of None \<Rightarrow> (Inl ErrNotExist, w)
     | Some m \<Rightarrow> (Inr (), w\<lparr>mw_files := map_put p (f m) (mw_files w)\<rparr>))"

definition new_file :: "finfo \<Rightarrow> mfile" where
  "new_file i = \<lparr>mf_info = i, mf_data = [], mf_link = [], mf_xattrs = []\<rparr>"

definition put_file :: "string \<Rightarrow> mfile \<Rightarrow> (mw, unit) op" where
  "put_file p m w = (Inr (), w\<lparr>mw_files := map_put p m (mw_files w)\<rparr>)"

definition plain_info :: "32 word \<Rightarrow> int \<Rightarrow> finfo" where
  "plain_info m n = \<lparr>fi_mode = m, fi_mtime = 1699999999, fi_size = n\<rparr>"

fun read_parts :: "nat \<Rightarrow> bytes \<Rightarrow> readres list" where
  "read_parts n d = (if d = [] then [] else map ReadData (parts (min n 8) d))"

definition mem_tree :: "string \<Rightarrow> (mw, dtree) op" where
  "mem_tree root w = (case map_of (mw_files w) root of
       None \<Rightarrow> (Inl ErrNotExist, w)
     | Some m \<Rightarrow> (Inr (DNode (Base root) True (Inr (mf_info m)) None
         (map (\<lambda>(p, f). DNode (Base p) (fi_isdir (mf_info f)) (Inr (mf_info f)) None [])
           (filter (\<lambda>(p, _). p \<noteq> root \<and> Dir p = root) (mw_files w)))), w))"

definition mem_sys :: "mw sys" where
  "mem_sys = \<lparr>PutObject = mem_put, GetObject = mem_get, ListObjects = mem_list, RemoveObject = mem_remove,
     CopyObject = mem_copy,
     ListBucketNames = (\<lambda>w. (Inr (remdups (map (fst \<circ> fst) (mw_objs w))), w)),
     CreateBucket = (\<lambda>b r w. (Inr (), w)),
     TimeNow = (\<lambda>w. (mw_time w, w\<lparr>mw_time := mw_time w + 1\<rparr>)),
     Sleep = (\<lambda>n w. w\<lparr>mw_time := mw_time w + int n\<rparr>),
     LocalDate = (\<lambda>t. take 10 (snapshotNameOf t)),
     MonthsBack = (\<lambda>now n. take 10 (snapshotNameOf (now - n * 2592000))),
     Attempts = 10,
     RandRead = (\<lambda>n w. (Inr (replicate n (of_nat (mw_rand w))), w\<lparr>mw_rand := mw_rand w + 1\<rparr>)),
     RandInt = (\<lambda>k w. if k = 0 then (Inl (GoErr ''argument to Int is <= 0''), w)
       else (Inr (mw_rand w mod k), w\<lparr>mw_rand := mw_rand w + 1\<rparr>)),
     DicewareGenerate = (\<lambda>n w. (Inr (replicate n ''word''), w)),
     UserCurrent = (\<lambda>w. (Inr (''user'', ''/home/user''), w)),
     UserLookup = (\<lambda>u w. (Inr (''1000'', ''1000''), w)),
     Lstat = (\<lambda>p. with_file p mf_info), Stat = (\<lambda>p. with_file p mf_info),
     Readlink = (\<lambda>p. with_file p mf_link),
     WalkTree = mem_tree,
     OpenFile = (\<lambda>p. with_file p (\<lambda>m. \<lparr>gf_size = Inr (int (length (mf_data m))),
       gf_reads = (\<lambda>n. read_parts n (mf_data m))\<rparr>)),
     XattrList = (\<lambda>p. with_file p (\<lambda>m. map_keys (mf_xattrs m))),
     XattrGet = (\<lambda>p k. with_file p (\<lambda>m. case map_of (mf_xattrs m) k of None \<Rightarrow> [] | Some v \<Rightarrow> v)),
     XattrSet = (\<lambda>p k v. upd_file p (\<lambda>m. m\<lparr>mf_xattrs := map_put k v (mf_xattrs m)\<rparr>)),
     Mkdir = (\<lambda>p m. put_file p (new_file (plain_info (or ModeDir m) 0))),
     MkdirAll = (\<lambda>p m. put_file p (new_file (plain_info (or ModeDir m) 0))),
     Chmod = (\<lambda>p m. upd_file p (\<lambda>f. f\<lparr>mf_info := (mf_info f)\<lparr>fi_mode := m\<rparr>\<rparr>)),
     Chown = (\<lambda>p u g w. (Inr (), w)),
     Symlink = (\<lambda>tgt p. put_file p ((new_file (plain_info ModeSymlink 0))\<lparr>mf_link := tgt\<rparr>)),
     CreateFile = (\<lambda>p. put_file p (new_file (plain_info 420 0))),
     WriteFile = (\<lambda>p d. upd_file p (\<lambda>f. f\<lparr>mf_data := mf_data f @ d\<rparr>)),
     RemoveFile = (\<lambda>p w. (Inr (), w\<lparr>mw_files := map_del p (mw_files w)\<rparr>))\<rparr>"

subsection \<open>The laws hold\<close>

lemma mem_objs_put: "mem_objs (w\<lparr>mw_objs := map_put (b, n) x (mw_objs w)\<rparr>) =
    (mem_objs w)(b := (mem_objs w b)(n \<mapsto> x))"
  by (auto simp: mem_objs_def fun_eq_iff)

lemma mem_objs_del: "mem_objs (w\<lparr>mw_objs := map_del (b, n) (mw_objs w)\<rparr>) =
    (mem_objs w)(b := (mem_objs w b)(n := None))"
  by (auto simp: mem_objs_def fun_eq_iff)

lemma mem_objs_frame [simp]:
  "mem_objs (w\<lparr>mw_time := t\<rparr>) = mem_objs w" "mem_objs (w\<lparr>mw_rand := r\<rparr>) = mem_objs w"
  "mem_objs (w\<lparr>mw_down := k\<rparr>) = mem_objs w"
  by (simp_all add: mem_objs_def fun_eq_iff)

lemma mem_keys: "n \<in> set (map snd (filter (\<lambda>bn. fst bn = b) (map_keys (mw_objs w)))) \<longleftrightarrow> mem_objs w b n \<noteq> None"
proof -
  have "mem_objs w b n \<noteq> None \<longleftrightarrow> (b, n) \<in> set (map_keys (mw_objs w))"
    unfolding mem_objs_def by (rule map_of_keys_iff)
  then show ?thesis by (auto simp: image_iff)
qed

interpretation mem: backup_env mem_sys mem_objs
proof
  fix b p r w l w'
  assume "ListObjects mem_sys b p r w = (Inr l, w')"
  then have l: "l = map (\<lambda>k. (k, case mem_objs w b k of None \<Rightarrow> 0 | Some x \<Rightarrow> int (length x)))
     (remdups (map (list_key p r) (filter (\<lambda>n. HasPrefix n p)
       (map snd (filter (\<lambda>bn. fst bn = b) (map_keys (mw_objs w)))))))"
    by (auto simp add: mem_sys_def mem_list_def)
  have "fst ` set l = list_key p r ` {n \<in> set (map snd (filter (\<lambda>bn. fst bn = b) (map_keys (mw_objs w)))).
      HasPrefix n p}" unfolding l by force
  then show "fst ` set l = list_key p r ` {n. mem_objs w b n \<noteq> None \<and> HasPrefix n p}"
    unfolding mem_keys .
qed (auto simp: mem_sys_def mem_put_def mem_get_def mem_list_def mem_remove_def mem_objs_put mem_objs_del with_file_def
    split: if_splits option.splits)

definition mem_content :: "mw \<Rightarrow> string \<Rightarrow> bytes option" where
  "mem_content w p = map_option mf_data (map_of (mw_files w) p)"

lemma mem_content_put [simp]:
  "mem_content (w\<lparr>mw_files := map_put p m (mw_files w)\<rparr>) q = (if q = p then Some (mf_data m) else mem_content w q)"
  by (auto simp: mem_content_def)

lemma mem_content_del [simp]:
  "mem_content (w\<lparr>mw_files := map_del p (mw_files w)\<rparr>) q = (if q = p then None else mem_content w q)"
  by (auto simp: mem_content_def)

lemma mem_content_time [simp]: "mem_content (w\<lparr>mw_time := t\<rparr>) = mem_content w"
  by (simp add: mem_content_def fun_eq_iff)

lemma mem_objs_files [simp]: "mem_objs (w\<lparr>mw_files := f\<rparr>) = mem_objs w"
  by (simp add: mem_objs_def fun_eq_iff)

lemma mem_upd_file:
  "mem_objs (snd (upd_file p f w)) = mem_objs w"
  "q \<noteq> p \<Longrightarrow> mem_content (snd (upd_file p f w)) q = mem_content w q"
  "(\<And>m. mf_data (f m) = mf_data m) \<Longrightarrow> mem_content (snd (upd_file p f w)) q = mem_content w q"
  by (auto simp: upd_file_def mem_content_def split: option.splits)

interpretation memf: restore_env mem_sys mem_objs mem_content
proof unfold_locales
  fix p d w u w' c
  assume "WriteFile mem_sys p d w = (Inr u, w')" "mem_content w p = Some c"
  then show "mem_content w' p = Some (c @ d)"
    by (auto simp: mem_sys_def upd_file_def mem_content_def split: option.splits)
qed (auto simp: mem_sys_def put_file_def new_file_def mem_upd_file with_file_def mem_get_def split: option.splits)

definition mem_xattrs :: "mw \<Rightarrow> string \<Rightarrow> string \<Rightarrow> bytes option" where
  "mem_xattrs w p = (case map_of (mw_files w) p of None \<Rightarrow> Map.empty | Some m \<Rightarrow> map_of (mf_xattrs m))"

interpretation memx: xattr_store mem_sys mem_xattrs
proof
  fix p w ns w'
  assume "XattrList mem_sys p w = (Inr ns, w')"
  then obtain m where "map_of (mw_files w) p = Some m" "ns = map_keys (mf_xattrs m)" "w' = w"
    by (auto simp: mem_sys_def with_file_def split: option.splits)
  then show "set ns = dom (mem_xattrs w p) \<and> mem_xattrs w' = mem_xattrs w"
    by (simp add: mem_xattrs_def dom_map_of_conv_image_fst)
next
  fix p k w v w'
  assume "XattrGet mem_sys p k w = (Inr v, w')" "k \<in> dom (mem_xattrs w p)"
  then show "mem_xattrs w p k = Some v \<and> mem_xattrs w' = mem_xattrs w"
    by (auto simp: mem_sys_def with_file_def mem_xattrs_def domIff split: option.splits)
next
  fix p k v w u w'
  assume "XattrSet mem_sys p k v w = (Inr u, w')"
  then obtain m where "map_of (mw_files w) p = Some m"
    "w' = w\<lparr>mw_files := map_put p (m\<lparr>mf_xattrs := map_put k v (mf_xattrs m)\<rparr>) (mw_files w)\<rparr>"
    by (auto simp: mem_sys_def upd_file_def split: option.splits)
  then show "mem_xattrs w' = (mem_xattrs w)(p := (mem_xattrs w p)(k \<mapsto> v))"
    by (auto simp: mem_xattrs_def fun_eq_iff)
qed

definition mem_key :: bytes where
  "mem_key = replicate 32 7"

interpretation memk: keyed_store mem_sys mem_objs mem_clib mem_jidx mem_key
  by unfold_locales (simp_all add: mem_clib_ok mem_key_def)

definition mem_state :: "mw gst" where
  "mem_state = \<lparr>world = mw0, uploadBytes = 0, downloadBytes = 0\<rparr>"

end
