(* ===== verification/Glob.thy ===== *)
theory Glob
  imports Filepath
begin

section \<open>Shell patterns of the Go standard library\<close>

text \<open>
  \<^verbatim>\<open>filepath.Match\<close> (on Unix), which the exclusion rules of \<^verbatim>\<open>pkg/fstraverse\<close> call: the pattern is
  cut at its stars into chunks, and each chunk is matched at the first position it can be. \<^verbatim>\<open>?\<close> and
  classes read one UTF-8 character; a malformed pattern is an error (\<open>None\<close>).
\<close>

subsection \<open>Characters\<close>

text \<open>\<^verbatim>\<open>utf8.DecodeRuneInString\<close>: the character and its width; an invalid byte is \<^verbatim>\<open>RuneError\<close> of width 1.\<close>

definition RuneError :: nat where
  "RuneError = 0xFFFD"

definition cont :: "char \<Rightarrow> nat option" where
  "cont c = (let n = of_char c in if 0x80 \<le> n \<and> n < 0xC0 then Some (n - 0x80) else None)"

fun conts :: "char list \<Rightarrow> nat \<Rightarrow> nat option" where
  "conts [] a = Some a"
| "conts (c # cs) a = (case cont c of None \<Rightarrow> None | Some n \<Rightarrow> conts cs (a * 64 + n))"

definition multi_byte :: "nat \<Rightarrow> nat \<Rightarrow> nat \<Rightarrow> string \<Rightarrow> nat \<times> nat" where
  "multi_byte k lead least s =
     (if length s < k then (RuneError, 1)
      else case conts (take k s) lead of
        None \<Rightarrow> (RuneError, 1)
      | Some r \<Rightarrow> if r < least \<or> 0xD800 \<le> r \<and> r < 0xE000 \<or> 0x10FFFF < r then (RuneError, 1) else (r, Suc k))"

fun DecodeRune :: "string \<Rightarrow> nat \<times> nat" where
  "DecodeRune [] = (RuneError, 0)"
| "DecodeRune (c # s) =
     (let n = of_char c in
      if n < 0x80 then (n, 1)
      else if 0xC0 \<le> n \<and> n < 0xE0 then multi_byte 1 (n - 0xC0) 0x80 s
      else if 0xE0 \<le> n \<and> n < 0xF0 then multi_byte 2 (n - 0xE0) 0x800 s
      else if 0xF0 \<le> n \<and> n < 0xF8 then multi_byte 3 (n - 0xF0) 0x10000 s
      else (RuneError, 1))"

lemma DecodeRune_width: "snd (DecodeRune (c # s)) > 0"
  by (simp add: Let_def multi_byte_def split: option.splits)

subsection \<open>Chunks\<close>

fun scan :: "bool \<Rightarrow> string \<Rightarrow> string \<times> string" where
  "scan inrange [] = ([], [])"
| "scan inrange (c # p) =
     (if c = CHR 0x5C then (case p of [] \<Rightarrow> ([c], [])
        | d # p' \<Rightarrow> (case scan inrange p' of (a, r) \<Rightarrow> (c # d # a, r)))
      else if c = CHR ''*'' \<and> \<not> inrange then ([], c # p)
      else (case scan (if c = CHR ''['' then True else if c = CHR '']'' then False else inrange) p of
              (a, r) \<Rightarrow> (c # a, r)))"

definition scanChunk :: "string \<Rightarrow> bool \<times> string \<times> string" where
  "scanChunk p = (let q = dropWhile (\<lambda>c. c = CHR ''*'') p in (q \<noteq> p, scan False q))"

text \<open>\<^verbatim>\<open>getEsc\<close>: one character of a class. \<open>None\<close> is \<^verbatim>\<open>ErrBadPattern\<close>.\<close>

definition getEsc :: "string \<Rightarrow> (nat \<times> string) option" where
  "getEsc chunk =
     (case chunk of [] \<Rightarrow> None
      | c # cs \<Rightarrow>
          if c = CHR ''-'' \<or> c = CHR '']'' then None
          else let ch = (if c = CHR 0x5C then cs else chunk) in
            if ch = [] then None
            else (case DecodeRune ch of (r, n) \<Rightarrow>
              if r = RuneError \<and> n = 1 then None
              else let nchunk = drop n ch in if nchunk = [] then None else Some (r, nchunk)))"

lemma getEsc_shorter: "getEsc ch = Some (r, rest) \<Longrightarrow> length rest < length ch"
proof -
  assume g: "getEsc ch = Some (r, rest)"
  then obtain c cs where ch: "ch = c # cs" by (auto simp: getEsc_def split: list.splits)
  define d where "d = (if c = CHR 0x5C then cs else ch)"
  have "d \<noteq> []" and r: "rest = drop (snd (DecodeRune d)) d"
    using g unfolding ch d_def by (auto simp: getEsc_def Let_def split: if_splits prod.splits)
  then obtain x xs where "d = x # xs" by (cases d) auto
  with r DecodeRune_width [of x xs] have "length rest < length d" by simp
  also have "length d \<le> length ch" by (simp add: d_def ch)
  finally show ?thesis .
qed

text \<open>
  The ranges of a class, up to the closing bracket: whether one of them holds the character, and the
  rest of the pattern. The first character may be a bracket.
\<close>

function class_ranges :: "nat \<Rightarrow> bool \<Rightarrow> bool \<Rightarrow> string \<Rightarrow> (bool \<times> string) option" where
  "class_ranges r seen m chunk =
     (if seen \<and> chunk \<noteq> [] \<and> hd chunk = CHR '']'' then Some (m, tl chunk)
      else case getEsc chunk of
        None \<Rightarrow> None
      | Some (lo, c1) \<Rightarrow>
          if hd c1 = CHR ''-'' then (case getEsc (tl c1) of
              None \<Rightarrow> None
            | Some (hi, c2) \<Rightarrow> class_ranges r True (m \<or> lo \<le> r \<and> r \<le> hi) c2)
          else class_ranges r True (m \<or> lo = r) c1)"
  by pat_completeness auto
termination
proof (relation "measure (\<lambda>(r, seen, m, chunk). length chunk)")
  fix r seen m chunk x lo c1 y hi c2
  assume "getEsc chunk = Some x" "(lo, c1) = x" "getEsc (tl c1) = Some y" "(hi, c2) = y"
  then have "length c1 < length chunk" "length c2 < length (tl c1)" by (auto dest: getEsc_shorter)
  then show "((r, True, m \<or> lo \<le> r \<and> r \<le> hi, c2), (r, seen, m, chunk))
      \<in> measure (\<lambda>(r, seen, m, chunk). length chunk)" by simp
qed (auto dest: getEsc_shorter)

declare class_ranges.simps [simp del]

lemma class_ranges_shorter: "class_ranges r seen m ch = Some (b, rest) \<Longrightarrow> length rest < length ch"
proof (induction r seen m ch rule: class_ranges.induct)
  case (1 r seen m ch)
  show ?case
  proof (cases "seen \<and> ch \<noteq> [] \<and> hd ch = CHR '']''")
    case True
    with 1(3) have "rest = tl ch" by (simp add: class_ranges.simps [of r True m ch])
    with True show ?thesis by simp
  next
    case False
    with 1(3) obtain lo c1 where g: "getEsc ch = Some (lo, c1)"
      by (auto simp: class_ranges.simps [of r seen m ch] split: option.splits)
    have c1: "length c1 < length ch" by (rule getEsc_shorter [OF g])
    show ?thesis
    proof (cases "hd c1 = CHR ''-''")
      case True
      with 1(3) False g obtain hi c2 where h: "getEsc (tl c1) = Some (hi, c2)"
        and "class_ranges r True (m \<or> lo \<le> r \<and> r \<le> hi) c2 = Some (b, rest)"
        by (auto simp: class_ranges.simps [of r seen m ch] split: option.splits)
      with 1(1) [OF False g refl True h refl] getEsc_shorter [OF h] c1 show ?thesis by simp
    next
      case no: False
      with 1(3) False g have "class_ranges r True (m \<or> lo = r) c1 = Some (b, rest)"
        by (simp add: class_ranges.simps [of r seen m ch])
      with 1(2) [OF False g refl no] c1 show ?thesis by simp
    qed
  qed
qed

text \<open>
  \<^verbatim>\<open>matchChunk\<close>: \<open>Inl ()\<close> is a malformed pattern, \<open>Inr None\<close> no match, \<open>Inr (Some rest)\<close> a match. After
  a failure the rest of the chunk is still read, for its errors.
\<close>

function matchChunk :: "bool \<Rightarrow> string \<Rightarrow> string \<Rightarrow> unit + string option" where
  "matchChunk failed0 [] s = Inr (if failed0 then None else Some s)"
| "matchChunk failed0 (c # chunk) s =
     (let failed = (failed0 \<or> s = []) in
      if c = CHR ''['' then
        (let (r, n) = (if failed then (0, 0) else DecodeRune s);
           negated = (chunk \<noteq> [] \<and> hd chunk = CHR 0x5E);
           body = (if negated then tl chunk else chunk) in
         case class_ranges r False False body of
           None \<Rightarrow> Inl ()
         | Some (m, chunk') \<Rightarrow> matchChunk (failed \<or> m = negated) chunk' (drop n s))
      else if c = CHR ''?'' then
        (if failed then matchChunk True chunk s
         else matchChunk (hd s = CHR ''/'') chunk (drop (snd (DecodeRune s)) s))
      else if c = CHR 0x5C then
        (case chunk of [] \<Rightarrow> Inl ()
         | d # chunk' \<Rightarrow>
             if failed then matchChunk True chunk' s else matchChunk (d \<noteq> hd s) chunk' (tl s))
      else if failed then matchChunk True chunk s else matchChunk (c \<noteq> hd s) chunk (tl s))"
  by pat_completeness auto
termination
proof (relation "measure (\<lambda>(f, chunk, s). length chunk)")
  fix f c chunk s failed x y r n negated body z m chunk'
  assume "negated = (chunk \<noteq> [] \<and> hd chunk = CHR 0x5E)" "body = (if negated then tl chunk else chunk)"
    "class_ranges r False False body = Some z" "(m, chunk') = z"
  then have "length chunk' < length body" "length body \<le> length chunk" by (auto dest: class_ranges_shorter)
  then show "((failed \<or> m = negated, chunk', drop n s), (f, c # chunk, s)) \<in> measure (\<lambda>(f, chunk, s). length chunk)"
    by simp
qed auto

declare matchChunk.simps(2) [simp del]

subsection \<open>Patterns\<close>

text \<open>The search for a position of a chunk after a star, which cannot cross a slash.\<close>

fun skip_match :: "string \<Rightarrow> bool \<Rightarrow> string \<Rightarrow> unit + string option" where
  "skip_match chunk isLast [] = Inr None"
| "skip_match chunk isLast (c # name) =
     (if c = CHR ''/'' then Inr None
      else case matchChunk False chunk name of
        Inl _ \<Rightarrow> Inl ()
      | Inr None \<Rightarrow> skip_match chunk isLast name
      | Inr (Some t) \<Rightarrow> if isLast \<and> t \<noteq> [] then skip_match chunk isLast name else Inr (Some t))"

lemma length_scan: "scan b p = (a, r) \<Longrightarrow> length a + length r = length p"
  by (induction b p arbitrary: a r rule: scan.induct) (auto split: if_splits prod.splits list.splits)

lemma scan_shorter: "scan b p = (a, r) \<Longrightarrow> p \<noteq> [] \<Longrightarrow> hd p \<noteq> CHR ''*'' \<Longrightarrow> length r < length p"
proof -
  assume s: "scan b p = (a, r)" and p: "p \<noteq> []" "hd p \<noteq> CHR ''*''"
  then have "a \<noteq> []" by (cases p) (auto split: if_splits prod.splits list.splits)
  with length_scan [OF s] show ?thesis by (cases a) auto
qed

lemma scanChunk_shorter:
  assumes "scanChunk p = (star, chunk, rest)" "p \<noteq> []"
  shows "length rest < length p"
proof -
  define q where "q = dropWhile (\<lambda>c. c = CHR ''*'') p"
  have s: "scan False q = (chunk, rest)" and star: "star = (q \<noteq> p)"
    using assms(1) by (auto simp: scanChunk_def q_def Let_def)
  have le: "length q \<le> length p" by (simp add: q_def length_dropWhile_le)
  show ?thesis
  proof (cases "q = []")
    case True
    with s assms(2) show ?thesis by simp
  next
    case False
    then have "hd q \<noteq> CHR ''*''" unfolding q_def by (rule hd_dropWhile)
    from scan_shorter [OF s False this] le show ?thesis by simp
  qed
qed

text \<open>After a failure the rest of the pattern is checked for errors.\<close>

function pattern_ok :: "string \<Rightarrow> bool" where
  "pattern_ok p = (if p = [] then True
     else case scanChunk p of (_, chunk, rest) \<Rightarrow>
       (case matchChunk False chunk [] of Inl _ \<Rightarrow> False | Inr _ \<Rightarrow> pattern_ok rest))"
  by pat_completeness auto
termination
  by (relation "measure length") (auto dest: scanChunk_shorter [OF sym])

declare pattern_ok.simps [simp del]

function Match :: "string \<Rightarrow> string \<Rightarrow> bool option" where
  "Match p name = (if p = [] then Some (name = [])
     else case scanChunk p of (star, chunk, rest) \<Rightarrow>
       if star \<and> chunk = [] then Some (\<not> Contains name ''/'')
       else (case matchChunk False chunk name of
           Inl _ \<Rightarrow> None
         | Inr r \<Rightarrow>
             (case (case r of Some t \<Rightarrow> if t = [] \<or> rest \<noteq> [] then Inr (Some t)
                      else if star then skip_match chunk (rest = []) name else Inr None
                    | None \<Rightarrow> if star then skip_match chunk (rest = []) name else Inr None) of
                Inl _ \<Rightarrow> None
              | Inr (Some t) \<Rightarrow> Match rest t
              | Inr None \<Rightarrow> if pattern_ok rest then Some False else None)))"
  by pat_completeness auto
termination
  by (relation "measure (\<lambda>(p, name). length p)") (auto dest: scanChunk_shorter [OF sym])

declare Match.simps [simp del]

subsection \<open>Patterns without classes and escapes have no errors\<close>

definition plain_glob :: "string \<Rightarrow> bool" where
  "plain_glob p \<longleftrightarrow> CHR ''['' \<notin> set p \<and> CHR 0x5C \<notin> set p"

lemma matchChunk_plain: "plain_glob chunk \<Longrightarrow> \<exists>m. matchChunk f chunk s = Inr m"
proof (induction chunk arbitrary: f s)
  case (Cons c chunk)
  then have "plain_glob chunk" "c \<noteq> CHR ''[''" "c \<noteq> CHR 0x5C" by (auto simp: plain_glob_def)
  with Cons.IH show ?case by (simp add: matchChunk.simps(2) Let_def)
qed simp

lemma set_scan: "scan b p = (a, r) \<Longrightarrow> set a \<subseteq> set p \<and> set r \<subseteq> set p"
proof (induction b p arbitrary: a r rule: scan.induct)
  case (2 b c p)
  then show ?case by (fastforce split: if_splits prod.splits list.splits)
qed simp

lemma scanChunk_plain:
  assumes "scanChunk p = (star, chunk, rest)" "plain_glob p"
  shows "plain_glob chunk \<and> plain_glob rest"
proof -
  have "set (dropWhile (\<lambda>c. c = CHR ''*'') p) \<subseteq> set p" by (auto dest: set_dropWhileD)
  moreover have "set chunk \<subseteq> set (dropWhile (\<lambda>c. c = CHR ''*'') p) \<and> set rest \<subseteq> set (dropWhile (\<lambda>c. c = CHR ''*'') p)"
    using assms(1) by (intro set_scan [of False]) (simp add: scanChunk_def Let_def)
  ultimately show ?thesis using assms(2) unfolding plain_glob_def by blast
qed

lemma skip_match_plain:
  assumes "plain_glob chunk"
  shows "\<exists>m. skip_match chunk l name = Inr m"
proof (induction name)
  case (Cons c name)
  obtain m where "matchChunk False chunk name = Inr m" using matchChunk_plain [OF assms] by blast
  with Cons show ?case by (auto split: option.splits)
qed simp

lemma pattern_ok_plain: "plain_glob p \<Longrightarrow> pattern_ok p"
proof (induction p rule: pattern_ok.induct)
  case (1 p)
  show ?case
  proof (cases "p = []")
    case False
    obtain star chunk rest where sc: "scanChunk p = (star, chunk, rest)" by (cases "scanChunk p") auto
    have pl: "plain_glob chunk" "plain_glob rest" using scanChunk_plain [OF sc 1(2)] by auto
    obtain m where m: "matchChunk False chunk [] = Inr m"
      using matchChunk_plain [OF pl(1)] by blast
    have "pattern_ok rest" by (rule 1(1) [OF False sc [symmetric] refl m pl(2)])
    with sc m show ?thesis by (simp add: pattern_ok.simps [of p])
  qed (simp add: pattern_ok.simps)
qed

lemma Match_plain: "plain_glob p \<Longrightarrow> Match p name \<noteq> None"
proof (induction p arbitrary: name rule: measure_induct_rule [of length])
  case (less p)
  show ?case
  proof (cases "p = []")
    case False
    obtain star chunk rest where sc: "scanChunk p = (star, chunk, rest)" by (cases "scanChunk p") auto
    have pl: "plain_glob chunk" "plain_glob rest" using scanChunk_plain [OF sc less(2)] by auto
    have IH: "Match rest t \<noteq> None" for t
      using less(1) [OF scanChunk_shorter [OF sc False] pl(2)] .
    obtain m where m: "matchChunk False chunk name = Inr m"
      using matchChunk_plain [OF pl(1)] by blast
    obtain k where k: "skip_match chunk (rest = []) name = Inr k" using skip_match_plain [OF pl(1)] by blast
    define n where "n = (case m of Some t \<Rightarrow> if t = [] \<or> rest \<noteq> [] then Some t else if star then k else None
      | None \<Rightarrow> if star then k else None)"
    have "Match p name = (if star \<and> chunk = [] then Some (\<not> Contains name ''/'')
        else case n of Some t \<Rightarrow> Match rest t | None \<Rightarrow> if pattern_ok rest then Some False else None)"
      using False sc m k by (auto simp: Match.simps [of p name] n_def split: option.splits)
    then show ?thesis using IH pattern_ok_plain [OF pl(2)] by (auto split: option.splits)
  qed (simp add: Match.simps)
qed

end
