(* ===== verification/FsTraverse.thy ===== *)
theory FsTraverse
  imports ChunkPacker Glob
begin

section \<open>Walking the source tree (pkg/fstraverse/fstraverse.go)\<close>

text \<open>
  \<^verbatim>\<open>Traverse\<close> visits every entry below a directory, takes it out of the map of known paths (what is
  left at the end was deleted), compares its modification time with its last backup and queues it.
  New entries are collected, inserted in one transaction and queued with their identifiers.

  The variables the closure of \<^verbatim>\<open>WalkDir\<close> assigns, and the map and the queue its caller passes by
  reference, are the fields the record \<open>tst\<close> adds to the state of the engine. The summary statistics
  are only logged. An insert that fails returns without ending the transaction; what the statements
  after that do is part of the fault script of the database.
\<close>

subsection \<open>State\<close>

record BackupIdsQueueItem =
  qi_Id :: int
  qi_ChangeType :: ChangeType

record dirEntryInsert =
  ins_rootPath :: string
  ins_relPath :: string
  lastBackupUnixtime :: int

record 'w tst = "'w est" +
  knownPaths :: "(string \<times> int) list"
  backupIdsQueue :: "BackupIdsQueueItem list"
  pendingDirEntryInserts :: "dirEntryInsert list"
  reportedEvents :: "ReportedEvent list"

definition relativizePath :: "string \<Rightarrow> string \<Rightarrow> string" where
  "relativizePath path pre =
     StripLeadingSlashes (TrimPrefix path (StripTrailingSlashes pre @ ''/''))"

definition getMTimeUnix :: "dtree \<Rightarrow> goerr + int" where
  "getMTimeUnix dirent = (case dt_info dirent of
       Inl e \<Rightarrow> Inl (GoErr (''error: can'' @ [CHR 0x27] @ ''t get info: '' @ error_text e))
     | Inr info \<Rightarrow> Inr (fi_mtime info))"

subsection \<open>Exclusion\<close>

definition isGlob :: "string \<Rightarrow> bool" where
  "isGlob s \<longleftrightarrow> Contains s ''*'' \<or> Contains s ''?''"

function isExcludedByGlob :: "string \<Rightarrow> string \<Rightarrow> bool" where
  "isExcludedByGlob path glob =
     (case Match glob path of
        None \<Rightarrow> False
      | Some True \<Rightarrow> True
      | Some False \<Rightarrow>
          if Dir path = ''.'' \<or> Dir path = ''/'' then False else isExcludedByGlob (Dir path) glob)"
  by pat_completeness auto
termination
  by (relation "measure (\<lambda>(path, glob). length path)") (auto intro: Dir_shorter)

declare isExcludedByGlob.simps [simp del]

fun isExcluded :: "string \<Rightarrow> string list \<Rightarrow> bool" where
  "isExcluded path [] = False"
| "isExcluded path (exclude # rest) =
     (if isGlob exclude \<and> isExcludedByGlob path exclude then True
      else if HasPrefix path exclude then True
      else isExcluded path rest)"

subsection \<open>The callback of the walk\<close>

definition special_file :: "32 word \<Rightarrow> bool" where
  "special_file m \<longleftrightarrow> has_mode m ModeDevice \<or> has_mode m ModeSocket \<or> has_mode m ModeIrregular \<or> has_mode m ModeNamedPipe"

text \<open>
  What happens to an entry that is neither excluded nor special; the last step asks whether the
  backup was canceled. \<open>cancel\<close> is the callback the daemon passes (\<open>None\<close>: nil).
\<close>

definition visit_entry :: "(('w, 'z) tst_scheme, bool) prog option \<Rightarrow> string \<Rightarrow> string \<Rightarrow> int
    \<Rightarrow> (('w, 'z) tst_scheme, walkres) prog" where
  "visit_entry cancel rootDirName relPath mtimeUnix =
     bindM (modifyM (\<lambda>s. s\<lparr>knownPaths := map_del (rootDirName @ ''/'' @ relPath) (knownPaths s)\<rparr>)) (\<lambda>_.
     tryM (dbM (HasDirEnt rootDirName relPath)) (\<lambda>e. retM WNil) (\<lambda>(hasDirEnt, lastBackupUnix, i).
     bindM (modifyM (\<lambda>s.
         if hasDirEnt then s\<lparr>backupIdsQueue := backupIdsQueue s @
             [\<lparr>qi_Id = i, qi_ChangeType = (if mtimeUnix > lastBackupUnix then Updated else Unchanged)\<rparr>]\<rparr>
         else s\<lparr>pendingDirEntryInserts := pendingDirEntryInserts s @
             [\<lparr>ins_rootPath = rootDirName, ins_relPath = relPath, lastBackupUnixtime = 0\<rparr>]\<rparr>)) (\<lambda>_.
     case cancel of
       None \<Rightarrow> retM WNil
     | Some c \<Rightarrow> bindM c (\<lambda>isCanceled. retM (if isCanceled then WErr ErrTraversalCanceled else WNil)))))"

definition visit :: "'w sys \<Rightarrow> (('w, 'z) tst_scheme, bool) prog option \<Rightarrow> string \<Rightarrow> string list
    \<Rightarrow> ('w, 'z) tst_scheme walkfn" where
  "visit S cancel rootPath excludes path dirent err =
     (if isExcluded path excludes then retM WNil
      else case err of
        Some e \<Rightarrow> (case dirent of
            None \<Rightarrow> liftGo Panic
          | Some d \<Rightarrow>
              if dt_isdir d \<and> Contains (error_text e) ''operation not permitted'' then
                bindM (nowM S) (\<lambda>now.
                bindM (modifyM (\<lambda>s. s\<lparr>reportedEvents := reportedEvents s @ [\<lparr>ev_Kind = ERR_OP_NOT_PERMITTED,
                    ev_Path = path, ev_IsDir = True, ev_Datetime = now, ev_Msg = []\<rparr>]\<rparr>)) (\<lambda>_.
                retM WSkipDir))
              else retM WSkipDir)
      | None \<Rightarrow>
          if path = rootPath then retM WNil
          else let relPath = relativizePath path rootPath in
            if relPath = rootPath \<or> relPath = [] then retM WNil
            else case dirent of
              None \<Rightarrow> liftGo Panic
            | Some d \<Rightarrow> (case getMTimeUnix d of
                Inl _ \<Rightarrow> retM WNil
              | Inr mtimeUnix \<Rightarrow> (case dt_info d of
                  Inl _ \<Rightarrow> retM WNil
                | Inr finfo \<Rightarrow>
                    if special_file (fi_mode finfo) then retM WNil
                    else visit_entry cancel (Base rootPath) relPath mtimeUnix)))"

subsection \<open>Inserting the new entries\<close>

fun insert_all :: "dirEntryInsert list \<Rightarrow> InsertDirEntStmt \<Rightarrow> (('w, 'z) dst_scheme, goerr + InsertDirEntStmt) prog" where
  "insert_all [] stmt = retM (Inr stmt)"
| "insert_all (ins # rest) stmt =
     tryM (dbM (InsertDirEnt stmt (ins_rootPath ins) (ins_relPath ins) (lastBackupUnixtime ins)))
       (\<lambda>e. retM (Inl e)) (\<lambda>stmt. insert_all rest stmt)"

definition doPendingDirEntryInserts :: "dirEntryInsert list \<Rightarrow> (('w, 'z) dst_scheme, goerr + unit) prog" where
  "doPendingDirEntryInserts pend =
     tryM (dbM NewInsertDirEntStmt) (\<lambda>e. retM (Inl e)) (\<lambda>dirEntStmt.
     tryM (insert_all pend dirEntStmt) (\<lambda>e. retM (Inl e)) (\<lambda>dirEntStmt.
     bindM (dbM (CloseInsertDirEnt dirEntStmt)) (\<lambda>_. retM (Inr ()))))"

text \<open>An entry that cannot be found again, because its insert failed, is queued with identifier 0.\<close>

fun enqueue_inserted :: "dirEntryInsert list \<Rightarrow> (('w, 'z) tst_scheme, unit) prog" where
  "enqueue_inserted [] = retM ()"
| "enqueue_inserted (ins # rest) =
     bindM (dbM (HasDirEnt (ins_rootPath ins) (ins_relPath ins))) (\<lambda>r.
     let i = (case r of Inl _ \<Rightarrow> 0 | Inr (_, _, i) \<Rightarrow> i) in
     bindM (modifyM (\<lambda>s. s\<lparr>backupIdsQueue := backupIdsQueue s @ [\<lparr>qi_Id = i, qi_ChangeType = Updated\<rparr>]\<rparr>)) (\<lambda>_.
     enqueue_inserted rest))"

definition Traverse :: "'w sys \<Rightarrow> (('w, 'z) tst_scheme, bool) prog option \<Rightarrow> string \<Rightarrow> string list
    \<Rightarrow> (('w, 'z) tst_scheme, goerr + ReportedEvent list) prog" where
  "Traverse S cancel rootPath0 excludes =
     (let rootPath = StripTrailingSlashes rootPath0 in
      bindM (modifyM (\<lambda>s. s\<lparr>pendingDirEntryInserts := [], reportedEvents := []\<rparr>)) (\<lambda>_.
      bindM (WalkDir S join2 rootPath (visit S cancel rootPath excludes)) (\<lambda>r.
      if r = WErr ErrTraversalCanceled then retM (Inl ErrTraversalCanceled)
      else
        bindM (getM pendingDirEntryInserts) (\<lambda>pend.
        bindM (doPendingDirEntryInserts pend) (\<lambda>_.
        bindM (enqueue_inserted pend) (\<lambda>_.
        bindM (getM reportedEvents) (\<lambda>evs. retM (Inr evs))))))))"

subsection \<open>Exclusion takes the whole subtree\<close>

lemma isExcludedByGlob_child:
  assumes "plain_glob glob" "isExcludedByGlob p glob" "Clean p = p" "p \<notin> {[], ''.'', ''/''}"
    and "CHR ''/'' \<notin> set c"
  shows "isExcludedByGlob (p @ CHR ''/'' # c) glob"
proof -
  have d: "Dir (p @ CHR ''/'' # c) = p" using assms by (intro Dir_child) auto
  obtain b where "Match glob (p @ CHR ''/'' # c) = Some b" using Match_plain [OF assms(1)] by blast
  then show ?thesis using d assms(2,4)
    by (cases b) (auto simp: isExcludedByGlob.simps [of "p @ CHR ''/'' # c"])
qed

lemma isExcluded_iff:
  "isExcluded p excludes \<longleftrightarrow>
     (\<exists>x \<in> set excludes. isGlob x \<and> isExcludedByGlob p x \<or> HasPrefix p x)"
  by (induction excludes) auto

text \<open>
  C20. Excluding a directory excludes every entry below it, whether it is excluded by a path prefix or
  by a glob without classes: the walk does not stop at an excluded directory, so the test has
  to hold again for each entry it goes on to visit.
\<close>

theorem excluded_subtree:
  assumes "isExcluded p excludes" "Clean p = p" "p \<notin> {[], ''.'', ''/''}" "CHR ''/'' \<notin> set c"
    and "\<forall>x \<in> set excludes. isGlob x \<longrightarrow> plain_glob x"
  shows "isExcluded (p @ CHR ''/'' # c) excludes"
proof -
  from assms(1) obtain x where x: "x \<in> set excludes" "isGlob x \<and> isExcludedByGlob p x \<or> HasPrefix p x"
    unfolding isExcluded_iff by blast
  from x(2) show ?thesis
  proof
    assume "isGlob x \<and> isExcludedByGlob p x"
    then show ?thesis using isExcludedByGlob_child [of x p c] x(1) assms(2-5) unfolding isExcluded_iff by blast
  next
    assume "HasPrefix p x"
    then have "HasPrefix (p @ CHR ''/'' # c) x" by (auto simp: HasPrefix_iff)
    then show ?thesis using x(1) unfolding isExcluded_iff by blast
  qed
qed

theorem excluded_subtree_witness:
  "isExcluded (''/Users/wm/.Trash'' @ CHR ''/'' # ''File1'') [''/Users/*/.Trash'']"
  by (rule excluded_subtree; code_simp)

subsection \<open>The traversal computes the difference between the tree and the table\<close>

text \<open>
  The reference: the entries of a tree in the order of the walk, those of them that are backed up
  with relative path and modification time, and the row the database has for a path.
\<close>

fun preorder :: "(string \<Rightarrow> string \<Rightarrow> string) \<Rightarrow> string \<Rightarrow> dtree \<Rightarrow> (string \<times> dtree) list"
  and preorder_list :: "(string \<Rightarrow> string \<Rightarrow> string) \<Rightarrow> string \<Rightarrow> dtree list \<Rightarrow> (string \<times> dtree) list" where
  "preorder join path (DNode nm isdir info readerr children) =
     (path, DNode nm isdir info readerr children) # (if isdir then preorder_list join path children else [])"
| "preorder_list join path [] = []"
| "preorder_list join path (d # ds) = preorder join (join path (dt_name d)) d @ preorder_list join path ds"

fun readable :: "dtree \<Rightarrow> bool" where
  "readable (DNode nm isdir info readerr children) \<longleftrightarrow> readerr = None \<and> (\<forall>c \<in> set children. readable c)"

definition candidate :: "string \<Rightarrow> string list \<Rightarrow> string \<times> dtree \<Rightarrow> (string \<times> int) option" where
  "candidate rootPath excludes = (\<lambda>(path, d).
     let relPath = relativizePath path rootPath in
     if isExcluded path excludes \<or> path = rootPath \<or> relPath = rootPath \<or> relPath = [] then None
     else (case dt_info d of Inl _ \<Rightarrow> None
       | Inr fi \<Rightarrow> if special_file (fi_mode fi) then None else Some (relPath, fi_mtime fi)))"

definition tree_entries :: "string \<Rightarrow> string list \<Rightarrow> dtree \<Rightarrow> (string \<times> int) list" where
  "tree_entries rootPath excludes t =
     List.map_filter (candidate rootPath excludes) (preorder join2 rootPath t)"

definition row_of :: "db \<Rightarrow> string \<Rightarrow> string \<Rightarrow> dirent_row option" where
  "row_of d root rel = List.find (\<lambda>r. de_rootdir r = root \<and> de_relpath r = rel) (dirents d)"

definition known_item :: "db \<Rightarrow> string \<Rightarrow> string \<times> int \<Rightarrow> BackupIdsQueueItem option" where
  "known_item d root = (\<lambda>(rel, mtime). map_option (\<lambda>r. \<lparr>qi_Id = de_id r,
     qi_ChangeType = (if mtime > de_last_backup r then Updated else Unchanged)\<rparr>) (row_of d root rel))"

definition new_paths :: "db \<Rightarrow> string \<Rightarrow> (string \<times> int) list \<Rightarrow> string list" where
  "new_paths d root es = map fst (filter (\<lambda>(rel, _). row_of d root rel = None) es)"

lemma walk_all:
  fixes step :: "string \<times> dtree \<Rightarrow> 's \<Rightarrow> 's"
  assumes "\<And>p d s. P s \<Longrightarrow> fn p (Some d) None s = (Ret WNil, step (p, d) s)"
    and "\<And>x s. P s \<Longrightarrow> P (step x s)"
  shows "P s \<Longrightarrow> readable t \<Longrightarrow>
      walkDir join fn path t s = (Ret WNil, fold step (preorder join path t) s) \<and> P (fold step (preorder join path t) s)"
    and "P s \<Longrightarrow> (\<forall>d \<in> set ds. readable d) \<Longrightarrow>
      walk_list join fn path ds s = (Ret WNil, fold step (preorder_list join path ds) s) \<and>
      P (fold step (preorder_list join path ds) s)"
proof (induction join path t and join path ds arbitrary: s and s rule: preorder_preorder_list.induct)
  case (1 join path nm isdir info readerr children)
  let ?d = "DNode nm isdir info readerr children"
  have fn: "fn path (Some ?d) None s = (Ret WNil, step (path, ?d) s)" "P (step (path, ?d) s)"
    using assms 1(2) by blast+
  from fn 1(3) have "walkDir join fn path ?d s =
      (if isdir then walk_list join fn path children (step (path, ?d) s) else (Ret WNil, step (path, ?d) s))"
    by (simp add: Let_def bindM_def)
  with 1(1) [OF _ fn(2)] 1(3) fn(2) show ?case by auto
next
  case (3 join path d ds)
  let ?s = "fold step (preorder join (join path (dt_name d)) d) s"
  from 3(1) [OF 3(3)] 3(4) have "walkDir join fn (join path (dt_name d)) d s = (Ret WNil, ?s)" "P ?s" by auto
  with 3(2) [of ?s] 3(4) show ?case by (simp add: bindM_def)
qed simp_all

lemma HasDirEnt_ready:
  "db_ready d \<Longrightarrow> HasDirEnt root rel d =
     (Ret (Inr (case row_of d root rel of None \<Rightarrow> (False, 0, 0) | Some r \<Rightarrow> (True, de_last_backup r, de_id r))), d)"
  by (simp add: HasDirEnt_def bindM_def rowM_ready row_of_def split: option.splits)

lemma dbM_Ret: "m (sdb s) = (Ret a, d) \<Longrightarrow> dbM m s = (Ret a, s\<lparr>sdb := d\<rparr>)"
  by (simp add: dbM_def zoomM_run)

text \<open>What one visit does when the database answers.\<close>

definition visit_step :: "string \<Rightarrow> string list \<Rightarrow> string \<times> dtree \<Rightarrow> ('w, 'z) tst_scheme \<Rightarrow> ('w, 'z) tst_scheme" where
  "visit_step rootPath excludes x s = (case candidate rootPath excludes x of
       None \<Rightarrow> s
     | Some (rel, mtime) \<Rightarrow>
         s\<lparr>knownPaths := map_del (Base rootPath @ ''/'' @ rel) (knownPaths s),
           backupIdsQueue := backupIdsQueue s @
             (case known_item (sdb s) (Base rootPath) (rel, mtime) of None \<Rightarrow> [] | Some q \<Rightarrow> [q]),
           pendingDirEntryInserts := pendingDirEntryInserts s @
             (if row_of (sdb s) (Base rootPath) rel = None
              then [\<lparr>ins_rootPath = Base rootPath, ins_relPath = rel, lastBackupUnixtime = 0\<rparr>] else [])\<rparr>)"

lemma visit_run:
  assumes "db_ready (sdb s)"
  shows "visit S None rootPath excludes path (Some d) None s = (Ret WNil, visit_step rootPath excludes (path, d) s)"
proof -
  have "visit_entry None (Base rootPath) rel mt s =
      (Ret WNil, s\<lparr>knownPaths := map_del (Base rootPath @ ''/'' @ rel) (knownPaths s),
           backupIdsQueue := backupIdsQueue s @
             (case known_item (sdb s) (Base rootPath) (rel, mt) of None \<Rightarrow> [] | Some q \<Rightarrow> [q]),
           pendingDirEntryInserts := pendingDirEntryInserts s @
             (if row_of (sdb s) (Base rootPath) rel = None
              then [\<lparr>ins_rootPath = Base rootPath, ins_relPath = rel, lastBackupUnixtime = 0\<rparr>] else [])\<rparr>)" for rel mt
  proof (cases "row_of (sdb s) (Base rootPath) rel")
    case None
    show ?thesis using HasDirEnt_ready [OF assms, of "Base rootPath" rel] None
      by (simp add: visit_entry_def tryM_def bindM_def dbM_def zoomM_def known_item_def)
  next
    case (Some r)
    show ?thesis using HasDirEnt_ready [OF assms, of "Base rootPath" rel] Some
      by (simp add: visit_entry_def tryM_def bindM_def dbM_def zoomM_def known_item_def)
  qed
  then show ?thesis
    by (auto simp: visit_def visit_step_def candidate_def getMTimeUnix_def Let_def split: sum.splits)
qed

lemma fold_visit:
  fixes s :: "('w, 'z) tst_scheme" and rootPath :: string
  defines "r \<equiv> Base rootPath" and "d \<equiv> sdb s"
  assumes "es = List.map_filter (candidate rootPath excludes) xs" "s' = fold (visit_step rootPath excludes) xs s"
  shows "sdb s' = sdb s" "world s' = world s" "reportedEvents s' = reportedEvents s"
    and "backupIdsQueue s' = backupIdsQueue s @ List.map_filter (known_item d r) es"
    and "pendingDirEntryInserts s' = pendingDirEntryInserts s @
      map (\<lambda>rel. \<lparr>ins_rootPath = r, ins_relPath = rel, lastBackupUnixtime = 0\<rparr>) (new_paths d r es)"
    and "map_of (knownPaths s') k = (if k \<in> (\<lambda>(rel, _). r @ ''/'' @ rel) ` set es then None else map_of (knownPaths s) k)"
proof -
  have "sdb s' = sdb s \<and> world s' = world s \<and> reportedEvents s' = reportedEvents s \<and>
    backupIdsQueue s' = backupIdsQueue s @ List.map_filter (known_item (sdb s) r) es \<and>
    pendingDirEntryInserts s' = pendingDirEntryInserts s @
      map (\<lambda>rel. \<lparr>ins_rootPath = r, ins_relPath = rel, lastBackupUnixtime = 0\<rparr>) (new_paths (sdb s) r es) \<and>
    map_of (knownPaths s') k = (if k \<in> (\<lambda>(rel, _). r @ ''/'' @ rel) ` set es then None else map_of (knownPaths s) k)"
    using assms(3,4)
  proof (induction xs arbitrary: s es)
    case Nil
    then show ?case by (simp add: List.map_filter_def new_paths_def)
  next
    case (Cons x xs)
    show ?case
    proof (cases "candidate rootPath excludes x")
      case None
      then have "visit_step rootPath excludes x s = s" by (simp add: visit_step_def)
      then have s': "s' = fold (visit_step rootPath excludes) xs s" using Cons.prems(2) by simp
      have "es = List.map_filter (candidate rootPath excludes) xs"
        using Cons.prems(1) None by (simp add: List.map_filter_simps)
      from Cons.IH [OF this s'] show ?thesis .
    next
      case (Some e)
      obtain rel mt where e: "e = (rel, mt)" by fastforce
      let ?t = "visit_step rootPath excludes x s"
      let ?es = "List.map_filter (candidate rootPath excludes) xs"
      have es: "es = (rel, mt) # ?es" using Cons.prems(1) Some e by (simp add: List.map_filter_simps)
      have t: "sdb ?t = sdb s" "world ?t = world s" "reportedEvents ?t = reportedEvents s"
        "knownPaths ?t = map_del (r @ ''/'' @ rel) (knownPaths s)"
        "backupIdsQueue ?t = backupIdsQueue s @ List.map_filter (known_item (sdb s) r) [(rel, mt)]"
        "pendingDirEntryInserts ?t = pendingDirEntryInserts s @
          map (\<lambda>rel. \<lparr>ins_rootPath = r, ins_relPath = rel, lastBackupUnixtime = 0\<rparr>) (new_paths (sdb s) r [(rel, mt)])"
        using Some e by (simp_all add: visit_step_def r_def new_paths_def List.map_filter_simps split: option.splits)
      have s': "s' = fold (visit_step rootPath excludes) xs ?t" using Cons.prems(2) by simp
      show ?thesis using Cons.IH [OF refl s'] unfolding t es
        by (auto simp: List.map_filter_simps new_paths_def split: option.splits)
    qed
  qed
  then show "sdb s' = sdb s" "world s' = world s" "reportedEvents s' = reportedEvents s"
    "backupIdsQueue s' = backupIdsQueue s @ List.map_filter (known_item d r) es"
    "pendingDirEntryInserts s' = pendingDirEntryInserts s @
      map (\<lambda>rel. \<lparr>ins_rootPath = r, ins_relPath = rel, lastBackupUnixtime = 0\<rparr>) (new_paths d r es)"
    "map_of (knownPaths s') k = (if k \<in> (\<lambda>(rel, _). r @ ''/'' @ rel) ` set es then None else map_of (knownPaths s) k)"
    unfolding d_def by auto
qed

definition ins_row :: "dirEntryInsert \<Rightarrow> string \<times> string \<times> int" where
  "ins_row i = (ins_rootPath i, ins_relPath i, lastBackupUnixtime i)"

definition row_vals :: "dirent_row \<Rightarrow> string \<times> string \<times> int" where
  "row_vals r = (de_rootdir r, de_relpath r, de_last_backup r)"

lemma insert_dirents_rows:
  "\<exists>rs. dirents (insert_dirents rows d) = dirents d @ rs \<and> map row_vals rs = rows"
proof (induction rows d rule: insert_dirents.induct)
  case (2 root rel t rows d)
  then show ?case by (auto simp: row_vals_def)
qed simp

lemma insert_dirents_ready: "db_ready d \<Longrightarrow> db_ready (insert_dirents rows d)"
  by (induction rows d rule: insert_dirents.induct) (simp_all add: db_ready_def del: db_readyD)

lemma row_of_inserted:
  assumes "(root, rel, t) \<in> set rows" "row_of d root rel = None"
    and "\<forall>(r, p, u) \<in> set rows. u = t"
  shows "\<exists>r. row_of (insert_dirents rows d) root rel = Some r \<and> de_rootdir r = root \<and> de_relpath r = rel \<and> de_last_backup r = t"
proof -
  obtain rs where rs: "dirents (insert_dirents rows d) = dirents d @ rs" "map row_vals rs = rows"
    using insert_dirents_rows by blast
  let ?p = "\<lambda>r. de_rootdir r = root \<and> de_relpath r = rel"
  from assms(1) rs(2) obtain r where r: "r \<in> set rs" "?p r" by (fastforce simp: row_vals_def)
  then have "List.find ?p (dirents d @ rs) \<noteq> None" unfolding find_None_iff by auto
  then obtain r' where r': "List.find ?p (dirents d @ rs) = Some r'" by blast
  then have p: "?p r'" "r' \<in> set (dirents d @ rs)" using find_SomeD by fast+
  have "r' \<notin> set (dirents d)" using assms(2) p(1) by (auto simp: row_of_def find_None_iff)
  with p have "row_vals r' \<in> set rows" using rs(2) by auto
  with assms(3) have "de_last_backup r' = t" by (auto simp: row_vals_def)
  with r' p rs(1) show ?thesis by (simp add: row_of_def)
qed

lemma insert_all_ready:
  "db_ready (sdb s) \<Longrightarrow> insert_all pend stmt s =
     (Ret (Inr \<lparr>ide_rows = ide_rows stmt @ map ins_row pend\<rparr>), s)"
proof (induction pend arbitrary: stmt)
  case (Cons i pend)
  let ?st = "\<lparr>ide_rows = ide_rows stmt @ [ins_row i]\<rparr>"
  have "dbM (InsertDirEnt stmt (ins_rootPath i) (ins_relPath i) (lastBackupUnixtime i)) s = (Ret (Inr ?st), s)"
    using Cons.prems by (simp add: InsertDirEnt_def dbM_def zoomM_def sqlM_ready ins_row_def)
  with Cons show ?case by (simp add: tryM_run)
qed simp

lemma doPending_ready:
  "db_ready (sdb s) \<Longrightarrow> doPendingDirEntryInserts pend s =
     (Ret (Inr ()), s\<lparr>sdb := insert_dirents (map ins_row pend) (sdb s)\<rparr>)"
proof -
  assume rd: "db_ready (sdb s)"
  have "dbM NewInsertDirEntStmt s = (Ret (Inr \<lparr>ide_rows = []\<rparr>), s)"
    using rd by (simp add: NewInsertDirEntStmt_def dbM_def zoomM_def tryM_def bindM_def sqlM_ready)
  moreover have "dbM (CloseInsertDirEnt \<lparr>ide_rows = map ins_row pend\<rparr>) s =
      (Ret (), s\<lparr>sdb := insert_dirents (map ins_row pend) (sdb s)\<rparr>)"
    using rd by (simp add: CloseInsertDirEnt_def dbM_def zoomM_def bindM_def sqlM_ready)
  ultimately show ?thesis
    using insert_all_ready [OF rd, of pend "\<lparr>ide_rows = []\<rparr>"]
    by (simp add: doPendingDirEntryInserts_def tryM_run bindM_Ret)
qed

definition new_item :: "db \<Rightarrow> string \<Rightarrow> string \<Rightarrow> BackupIdsQueueItem" where
  "new_item d root rel = \<lparr>qi_Id = (case row_of d root rel of None \<Rightarrow> 0 | Some r \<Rightarrow> de_id r), qi_ChangeType = Updated\<rparr>"

lemma enqueue_ready:
  "db_ready (sdb s) \<Longrightarrow> enqueue_inserted pend s =
     (Ret (), s\<lparr>backupIdsQueue := backupIdsQueue s @ map (\<lambda>i. new_item (sdb s) (ins_rootPath i) (ins_relPath i)) pend\<rparr>)"
proof (induction pend arbitrary: s)
  case (Cons i pend)
  have h: "dbM (HasDirEnt (ins_rootPath i) (ins_relPath i)) s =
      (Ret (Inr (case row_of (sdb s) (ins_rootPath i) (ins_relPath i) of None \<Rightarrow> (False, 0, 0)
        | Some r \<Rightarrow> (True, de_last_backup r, de_id r))), s)"
    using Cons.prems by (simp add: dbM_def zoomM_def HasDirEnt_ready)
  from Cons.IH [of "s\<lparr>backupIdsQueue := backupIdsQueue s @ [new_item (sdb s) (ins_rootPath i) (ins_relPath i)]\<rparr>"] Cons.prems
  show ?case by (simp add: bindM_def h new_item_def split: option.splits)
qed simp

text \<open>
  C19. On a readable tree with a working database \<^verbatim>\<open>Traverse\<close> computes the difference between the
  tree and the table \<open>dirents\<close>: the queue gets each known entry, in the order of the walk, as
  updated or unchanged by its modification time, then each new one as updated under the
  identifier of the row inserted for it, with last backup 0; and the known paths left over, which
  the caller journals as deleted, are those of no visited entry.
\<close>

theorem Traverse_diff:
  fixes s :: "('w, 'z) tst_scheme" and rootPath :: string
  defines "root \<equiv> StripTrailingSlashes rootPath" and "d \<equiv> sdb s"
  assumes "db_ready (sdb s)" "WalkTree S (StripTrailingSlashes rootPath) (world s) = (Inr t, w)" "readable t"
  shows "\<exists>s' rows. Traverse S None rootPath excludes s = (Ret (Inr []), s') \<and>
    (let es = tree_entries root excludes t; news = new_paths d (Base root) es in
      backupIdsQueue s' = backupIdsQueue s @ List.map_filter (known_item d (Base root)) es @
        map (new_item (sdb s') (Base root)) news \<and>
      dirents (sdb s') = dirents d @ rows \<and> map row_vals rows = map (\<lambda>rel. (Base root, rel, 0)) news \<and>
      (\<forall>rel \<in> set news. \<exists>r \<in> set rows. row_of (sdb s') (Base root) rel = Some r) \<and>
      (\<forall>k. map_of (knownPaths s') k = (if k \<in> (\<lambda>(rel, _). Base root @ ''/'' @ rel) ` set es then None
        else map_of (knownPaths s) k)))"
proof -
  define es where "es = tree_entries root excludes t"
  define news where "news = new_paths d (Base root) es"
  define pend where "pend = map (\<lambda>rel. \<lparr>ins_rootPath = Base root, ins_relPath = rel, lastBackupUnixtime = 0\<rparr>) news"
  define s0 where "s0 = s\<lparr>pendingDirEntryInserts := [], reportedEvents := [], world := w\<rparr>"
  define s1 where "s1 = fold (visit_step root excludes) (preorder join2 root t) s0"
  have "walkDir join2 (visit S None root excludes) root t s0 = (Ret WNil, s1) \<and> db_ready (sdb s1)"
    unfolding s1_def
    by (rule walk_all(1) [where P = "\<lambda>s. db_ready (sdb s)"])
      (use assms(3,5) in \<open>auto simp: s0_def visit_run visit_step_def split: option.splits\<close>)
  then have walk: "WalkDir S join2 root (visit S None root excludes) (s\<lparr>pendingDirEntryInserts := [], reportedEvents := []\<rparr>)
      = (Ret WNil, s1)" and rd: "db_ready (sdb s1)"
    using assms(4) by (simp_all add: WalkDir_def sysM_def bindM_def root_def s0_def)
  note f = fold_visit [OF _ s1_def, of es, unfolded es_def tree_entries_def, OF refl,
      folded tree_entries_def, folded es_def]
  have sdb1: "sdb s1 = d" and ev: "reportedEvents s1 = []" using f(1,3) by (simp_all add: s0_def d_def)
  have p1: "pendingDirEntryInserts s1 = pend" using f(5) by (simp add: s0_def d_def pend_def news_def)
  have ins: "map ins_row pend = map (\<lambda>rel. (Base root, rel, 0)) news" by (simp add: pend_def ins_row_def)
  define s2 where "s2 = s1\<lparr>sdb := insert_dirents (map ins_row pend) d\<rparr>"
  have ins_run: "doPendingDirEntryInserts pend s1 = (Ret (Inr ()), s2)"
    using doPending_ready [OF rd] by (simp add: s2_def sdb1)
  have rd2: "db_ready (sdb s2)" using insert_dirents_ready rd by (simp add: s2_def sdb1)
  define s' where "s' = s2\<lparr>backupIdsQueue := backupIdsQueue s2 @ map (new_item (sdb s2) (Base root)) news\<rparr>"
  have enq: "enqueue_inserted pend s2 = (Ret (), s')"
    using enqueue_ready [OF rd2, of pend] by (simp add: s'_def pend_def comp_def)
  have run: "Traverse S None rootPath excludes s = (Ret (Inr []), s')"
    unfolding Traverse_def Let_def root_def [symmetric]
    using walk p1 ins_run enq by (simp add: bindM_def s'_def s2_def ev)
  obtain rows where rows: "dirents (sdb s') = dirents d @ rows" "map row_vals rows = map ins_row pend"
    using insert_dirents_rows [of "map ins_row pend" d] by (auto simp: s'_def s2_def)
  have found: "\<exists>r \<in> set rows. row_of (sdb s') (Base root) rel = Some r" if rel: "rel \<in> set news" for rel
  proof -
    have none: "row_of d (Base root) rel = None" using rel by (auto simp: news_def new_paths_def)
    obtain r where r: "row_of (insert_dirents (map ins_row pend) d) (Base root) rel = Some r"
      using row_of_inserted [OF _ none, of 0 "map ins_row pend"] rel ins by auto
    then have "r \<in> set (dirents (sdb s'))" "de_rootdir r = Base root \<and> de_relpath r = rel"
      unfolding row_of_def s'_def s2_def by (auto dest: find_SomeD)
    moreover from this none have "r \<notin> set (dirents d)" by (auto simp: row_of_def find_None_iff)
    ultimately show ?thesis using r rows(1) by (auto simp: s'_def s2_def)
  qed
  show ?thesis
    unfolding Let_def es_def [symmetric] news_def [symmetric]
    using run rows found f(4,6) ins
    by (intro exI [of _ s'] exI [of _ rows]) (auto simp: s'_def s2_def s0_def d_def)
qed

end
