(* ===== verification/JournaledBackup.thy ===== *)
theory JournaledBackup
  imports FsTraverse Backup
begin

section \<open>Journaled backups (pkg/backup/journaled\_backup.go)\<close>

text \<open>
  A backup of one directory: copy the database to memory, find what changed, write it to the journal
  as tasks, and play the journal; the memory database is persisted now and then and at the end.
  After a crash \<^verbatim>\<open>ReplayBackupJournal\<close> plays what is left.

  The callbacks the daemon injects (cancelation, progress) are programs over the same state. The loop
  of \<^verbatim>\<open>PlayBackupJournal\<close> claims a task in every round, but a callback could add some, so \<open>Attempts\<close>
  bounds the rounds observed; that enough rounds suffice is a theorem.
\<close>

subsection \<open>Deferred calls, callbacks\<close>

text \<open>\<^verbatim>\<open>defer d()\<close>: \<open>d\<close> runs when the function returns or panics, not when the process exits.\<close>

definition deferM :: "('s, 'a) prog \<Rightarrow> ('s, unit) prog \<Rightarrow> ('s, 'a) prog" where
  "deferM m d = (\<lambda>s. case m s of
       (Ret a, t) \<Rightarrow> bindM d (\<lambda>_. retM a) t
     | (Panic, t) \<Rightarrow> bindM d (\<lambda>_. liftGo Panic) t
     | (Fatal, t) \<Rightarrow> (Fatal, t)
     | (Spin, t) \<Rightarrow> (Spin, t))"

record 's callbacks =
  checkAndHandleTraversalCancelation :: "('s, bool) prog option"
  checkAndHandleCancelation :: "(string \<Rightarrow> string \<Rightarrow> ('s, bool) prog) option"
  setInitialProgress :: "(int \<Rightarrow> int \<Rightarrow> string \<Rightarrow> ('s, unit) prog) option"
  updateProgress :: "(int \<Rightarrow> int \<Rightarrow> ('s, unit) prog) option"

definition initMemDb :: "'w benv \<Rightarrow> (('w, 'z) est_scheme, unit) prog" where
  "initMemDb E =
     bindM (\<lambda>s. case BackupTo (fdb s) (sdb s) of (r, d) \<Rightarrow> (r, s\<lparr>sdb := d\<rparr>)) (\<lambda>_.
     bindM (nowM (eS E)) (\<lambda>now. modifyM (\<lambda>s. s\<lparr>lastPersisted := now\<rparr>)))"

definition purgeFromDb :: "string \<Rightarrow> string \<Rightarrow> (('w, 'z) dst_scheme, goerr + unit) prog" where
  "purgeFromDb backupDirName deletedPath = dbM (DeleteDirEntByPath backupDirName deletedPath)"

subsection \<open>Playing the journal\<close>

definition progressUpdate :: "('w, 'z) est_scheme callbacks \<Rightarrow> (('w, 'z) est_scheme, unit) prog" where
  "progressUpdate cb = (case updateProgress cb of
       None \<Rightarrow> retM ()
     | Some f \<Rightarrow> bindM (getM finishedCountJournal) (\<lambda>fin. bindM (getM totalCntJournal) (\<lambda>tot. f fin tot)))"

text \<open>The error of \<^verbatim>\<open>WriteIndexFile\<close> is logged, and the journal is wiped all the same.\<close>

definition writeIndexFileAndWipeJournal :: "'w benv \<Rightarrow> ('w, 'z) est_scheme callbacks \<Rightarrow> string \<Rightarrow> string
    \<Rightarrow> (('w, 'z) est_scheme, unit) prog" where
  "writeIndexFileAndWipeJournal E cb backupDirPath snapshotName =
     bindM (progressUpdate cb) (\<lambda>_.
     bindM (WriteIndexFile (eS E) (eC E) (eJ E) (eBucket E) (eKey E) (Base backupDirPath) snapshotName) (\<lambda>_.
     bindM (dbM WipeBackupJournal) (\<lambda>_. retM ())))"

text \<open>
  What a claimed task does before it is finished: \<open>None\<close> when the task is not finished here (it waits
  in the chunk packer, or its backup failed and it was completed without an entry), otherwise the
  entry for the index.
\<close>

definition failed_task :: "'w benv \<Rightarrow> BackupJournalTask \<Rightarrow> (('w, 'z) est_scheme, CloudRelPath option option) prog" where
  "failed_task E bjt = bindM (completeTask E bjt None) (\<lambda>_. retM None)"

definition updated_task :: "'w benv \<Rightarrow> string \<Rightarrow> string \<Rightarrow> BackupJournalTask
    \<Rightarrow> (('w, 'z) est_scheme, CloudRelPath option option) prog" where
  "updated_task E backupDirPath relPath bjt =
     tryM (Backup E relPath backupDirPath bjt) (\<lambda>e. failed_task E bjt) (\<lambda>(chunkExtents, pendingInChunkPacker).
     if pendingInChunkPacker then retM None
     else bindM (statsM (AddBytesFromChunkExtents chunkExtents)) (\<lambda>_.
       retM (Some (Some \<lparr>RelPath = relPath, ChunkExtents = chunkExtents\<rparr>))))"

definition unchanged_task :: "'w benv \<Rightarrow> Snapshot option \<Rightarrow> string \<Rightarrow> string \<Rightarrow> BackupJournalTask
    \<Rightarrow> (('w, 'z) est_scheme, CloudRelPath option option) prog" where
  "unchanged_task E prevSnapshot backupDirPath relPath bjt =
     (case prevSnapshot of
        Some ss \<Rightarrow>
          let chunkExtents = (case map_of (RelPaths ss) relPath of None \<Rightarrow> [] | Some crp \<Rightarrow> ChunkExtents crp) in
          bindM (statsM (AddBytesFromChunkExtents chunkExtents)) (\<lambda>_.
          retM (Some (Some \<lparr>RelPath = relPath, ChunkExtents = chunkExtents\<rparr>)))
      | None \<Rightarrow>
          tryM (Backup E relPath backupDirPath bjt) (\<lambda>e. failed_task E bjt) (\<lambda>(chunkExtents, pendingInChunkPacker).
          bindM (statsM (AddBytesFromChunkExtents chunkExtents)) (\<lambda>_.
          if pendingInChunkPacker then retM None
          else retM (Some (Some \<lparr>RelPath = relPath, ChunkExtents = chunkExtents\<rparr>)))))"

definition deleted_task :: "string \<Rightarrow> string \<Rightarrow> (('w, 'z) est_scheme, CloudRelPath option option) prog" where
  "deleted_task backupDirPath relPath =
     bindM (purgeFromDb (Base backupDirPath) relPath) (\<lambda>_. retM (Some None))"

definition run_task :: "'w benv \<Rightarrow> Snapshot option \<Rightarrow> string \<Rightarrow> string \<Rightarrow> BackupJournalTask
    \<Rightarrow> (('w, 'z) est_scheme, CloudRelPath option option) prog" where
  "run_task E prevSnapshot backupDirPath relPath bjt =
     (case bjt_ChangeType bjt of
        Updated \<Rightarrow> updated_task E backupDirPath relPath bjt
      | Unchanged \<Rightarrow> unchanged_task E prevSnapshot backupDirPath relPath bjt
      | Deleted \<Rightarrow> deleted_task backupDirPath relPath)"

text \<open>One round of the loop: \<open>Some b\<close> when the function returns \<open>b\<close>.\<close>

definition play_round :: "'w benv \<Rightarrow> ('w, 'z) est_scheme callbacks \<Rightarrow> Snapshot option \<Rightarrow> string \<Rightarrow> string
    \<Rightarrow> string \<Rightarrow> int \<Rightarrow> (('w, 'z) est_scheme, bool option) prog" where
  "play_round E cb prevSnapshot backupDirPath snapshotName resourceUtilization n =
     bindM (if resourceUtilization = ''low'' then sleepM (eS E) 0 else retM ()) (\<lambda>_.
     bindM (case checkAndHandleCancelation cb of None \<Rightarrow> retM False | Some f \<Rightarrow> f backupDirPath snapshotName)
       (\<lambda>isCanceled.
     if isCanceled then retM (Some True)
     else
     bindM (persistMemDbToFile E False False) (\<lambda>_.
     tryM (dbM ClaimNextBackupJournalTask)
       (\<lambda>e. if e = ErrNoWork then
              bindM (Complete E) (\<lambda>_.
              bindM (writeIndexFileAndWipeJournal E cb backupDirPath snapshotName) (\<lambda>_. retM (Some False)))
            else retM (Some False))
       (\<lambda>bjt.
     bindM (dbM (GetDirEntPaths (DirEntId bjt))) (\<lambda>r.
     let relPath = (case r of Inl _ \<Rightarrow> [] | Inr (_, p) \<Rightarrow> p) in
     bindM (statsM AddFile) (\<lambda>_.
     bindM (run_task E prevSnapshot backupDirPath relPath bjt) (\<lambda>finish.
     bindM (case finish of
         None \<Rightarrow> retM False
       | Some crp \<Rightarrow>
           bindM (updateLastBackupTime E (DirEntId bjt)) (\<lambda>_. completeTask E bjt crp)) (\<lambda>isJournalComplete.
     if isJournalComplete
     then bindM (writeIndexFileAndWipeJournal E cb backupDirPath snapshotName) (\<lambda>_. retM (Some False))
     else bindM (getM totalCntJournal) (\<lambda>tot.
       bindM (if tot \<le> 1000 \<or> (n + 1) mod 1000 = 0 then progressUpdate cb else retM ()) (\<lambda>_.
       retM None))))))))))"

fun play_loop :: "nat \<Rightarrow> 'w benv \<Rightarrow> ('w, 'z) est_scheme callbacks \<Rightarrow> Snapshot option \<Rightarrow> string \<Rightarrow> string
    \<Rightarrow> string \<Rightarrow> int \<Rightarrow> (('w, 'z) est_scheme, bool) prog" where
  "play_loop 0 E cb prev dir name util n = liftGo Spin"
| "play_loop (Suc k) E cb prev dir name util n =
     bindM (play_round E cb prev dir name util n) (\<lambda>r. case r of
       Some b \<Rightarrow> retM b
     | None \<Rightarrow> play_loop k E cb prev dir name util (n + 1))"

definition PlayBackupJournal :: "'w benv \<Rightarrow> ('w, 'z) est_scheme callbacks \<Rightarrow> string \<Rightarrow> string \<Rightarrow> string
    \<Rightarrow> (('w, 'z) est_scheme, bool) prog" where
  "PlayBackupJournal E cb backupDirPath snapshotName resourceUtilization =
     tryM (dbM GetBackupJournalCounts) (\<lambda>e. retM False) (\<lambda>(finished, total).
     bindM (modifyM (\<lambda>s. s\<lparr>finishedCountJournal := finished, totalCntJournal := total\<rparr>)) (\<lambda>_.
     tryM (GetGroupedSnapshots (eS E) (eC E) (eJ E) (eKey E) (eBucket E) False) (\<lambda>e. retM True) (\<lambda>groupedObjects.
     let prevSnapshot = GetMostRecentSnapshot (backup_dir groupedObjects (Base backupDirPath)) in
     bindM (modifyM newChunkPacker) (\<lambda>_.
     bindM (persistMemDbToFile E True True) (\<lambda>_.
     play_loop (Attempts (eS E)) E cb prevSnapshot backupDirPath snapshotName resourceUtilization 0)))))"

subsection \<open>Backing up a directory\<close>

record backup_result =
  br_events :: "ReportedEvent list"
  breakFromLoop :: bool
  continueLoop :: bool
  fatalError :: bool

definition proceed :: "ReportedEvent list \<Rightarrow> backup_result" where
  "proceed evs = \<lparr>br_events = evs, breakFromLoop = False, continueLoop = False, fatalError = False\<rparr>"

fun insert_tasks :: "(int \<times> ChangeType) list \<Rightarrow> InsertBackupJournalStmt
    \<Rightarrow> (('w, 'z) dst_scheme, goerr + InsertBackupJournalStmt) prog" where
  "insert_tasks [] txn = retM (Inr txn)"
| "insert_tasks ((i, ct) # rest) txn =
     tryM (dbM (InsertBackupJournalRow txn i Unstarted ct)) (\<lambda>e. retM (Inl e)) (\<lambda>txn. insert_tasks rest txn)"

text \<open>Both inserts into the journal: a new \<open>backup_info\<close> row, then the tasks in one transaction.\<close>

definition journal_tasks :: "'w benv \<Rightarrow> string \<Rightarrow> (int \<times> ChangeType) list \<Rightarrow> (('w, 'z) dst_scheme, goerr + unit) prog" where
  "journal_tasks E backupDirPath tasks =
     bindM (nowM (eS E)) (\<lambda>now.
     tryM (dbM (NewInsertBackupJournalStmt backupDirPath now)) (\<lambda>e. retM (Inl e)) (\<lambda>insertBJTxn.
     tryM (insert_tasks tasks insertBJTxn) (\<lambda>e. retM (Inl e)) (\<lambda>insertBJTxn.
     bindM (dbM (CloseInsertBackupJournal insertBJTxn)) (\<lambda>_. retM (Inr ())))))"

fun deleted_ids :: "string \<Rightarrow> string list \<Rightarrow> (('w, 'z) dst_scheme, int list) prog" where
  "deleted_ids backupDirName [] = retM []"
| "deleted_ids backupDirName (p # rest) =
     (let deletedPath = TrimPrefix (TrimPrefix p backupDirName) ''/'' in
      bindM (dbM (HasDirEnt backupDirName deletedPath)) (\<lambda>r.
      bindM (deleted_ids backupDirName rest) (\<lambda>ids.
      retM (case r of Inr (True, _, dirEntId) \<Rightarrow> dirEntId # ids | _ \<Rightarrow> ids))))"

definition play_new_journal :: "'w benv \<Rightarrow> ('w, 'z) est_scheme callbacks \<Rightarrow> string \<Rightarrow> string
    \<Rightarrow> ReportedEvent list \<Rightarrow> (('w, 'z) est_scheme, backup_result) prog" where
  "play_new_journal E cb backupDirPath resourceUtilization events =
     tryM (dbM GetJournaledBackupInfo)
       (\<lambda>e. if e = ErrNoRows then retM ((proceed events)\<lparr>continueLoop := True\<rparr>)
            else retM ((proceed events)\<lparr>fatalError := True\<rparr>)) (\<lambda>(_, snapshotUnixtime).
     let snapshotName = snapshotNameOf snapshotUnixtime in
     bindM (case setInitialProgress cb of
         None \<Rightarrow> retM ()
       | Some f \<Rightarrow> bindM (dbM GetBackupJournalCounts) (\<lambda>r.
           let (finished, total) = (case r of Inl _ \<Rightarrow> (0, 0) | Inr ft \<Rightarrow> ft) in
           f finished total (Base backupDirPath))) (\<lambda>_.
     bindM (PlayBackupJournal E cb backupDirPath snapshotName resourceUtilization) (\<lambda>b.
     retM ((proceed events)\<lparr>breakFromLoop := b\<rparr>))))"

definition do_journaled_backup :: "'w benv \<Rightarrow> ('w, 'z) tst_scheme callbacks \<Rightarrow> string \<Rightarrow> string list \<Rightarrow> string
    \<Rightarrow> (('w, 'z) tst_scheme, backup_result) prog" where
  "do_journaled_backup E cb backupDirPath excludes resourceUtilization =
     (let backupDirName = Base backupDirPath in
      bindM (dbM (GetAllKnownPaths backupDirName)) (\<lambda>prevPaths.
      bindM (modifyM (\<lambda>s. s\<lparr>knownPaths := prevPaths, backupIdsQueue := []\<rparr>)) (\<lambda>_.
      tryM (Traverse (eS E) (checkAndHandleTraversalCancelation cb) backupDirPath excludes)
        (\<lambda>e. retM ((proceed [])\<lparr>breakFromLoop := True\<rparr>)) (\<lambda>events.
      bindM (getM backupIdsQueue) (\<lambda>queue.
      tryM (journal_tasks E backupDirPath (map (\<lambda>q. (qi_Id q, qi_ChangeType q)) queue))
        (\<lambda>e. retM ((proceed events)\<lparr>fatalError := True\<rparr>)) (\<lambda>_.
      bindM (getM knownPaths) (\<lambda>deleted.
      bindM (deleted_ids backupDirName (map_keys deleted)) (\<lambda>deletedDirentIds.
      tryM (journal_tasks E backupDirPath (map (\<lambda>i. (i, Deleted)) deletedDirentIds))
        (\<lambda>e. retM ((proceed events)\<lparr>fatalError := True\<rparr>)) (\<lambda>_.
      play_new_journal E cb backupDirPath resourceUtilization events)))))))))"

definition DoJournaledBackup :: "'w benv \<Rightarrow> ('w, 'z) tst_scheme callbacks \<Rightarrow> string \<Rightarrow> string list \<Rightarrow> string
    \<Rightarrow> (('w, 'z) tst_scheme, backup_result) prog" where
  "DoJournaledBackup E cb backupDirPath excludes resourceUtilization =
     bindM (initMemDb E) (\<lambda>_.
     deferM (do_journaled_backup E cb backupDirPath excludes resourceUtilization)
       (persistMemDbToFile E True True))"

subsection \<open>After an interruption\<close>

definition replay_journal :: "'w benv \<Rightarrow> ('w, 'z) est_scheme callbacks \<Rightarrow> string
    \<Rightarrow> (('w, 'z) est_scheme, ReportedEvent) prog" where
  "replay_journal E cb resourceUtilization =
     bindM (dbM ResetAllInProgressBackupJournalTasks) (\<lambda>_.
     bindM (dbM GetJournaledBackupInfo) (\<lambda>r.
     let (backupDirPath, snapshotUnixtime) = (case r of Inl _ \<Rightarrow> ([], 0) | Inr x \<Rightarrow> x);
       snapshotName = snapshotNameOf snapshotUnixtime in
     bindM (case setInitialProgress cb of
         None \<Rightarrow> retM ()
       | Some f \<Rightarrow> bindM (dbM GetBackupJournalCounts) (\<lambda>r.
           let (finished, total) = (case r of Inl _ \<Rightarrow> (0, 0) | Inr ft \<Rightarrow> ft) in
           f finished total (Base backupDirPath))) (\<lambda>_.
     bindM (PlayBackupJournal E cb backupDirPath snapshotName resourceUtilization) (\<lambda>b.
     bindM (nowM (eS E)) (\<lambda>now.
     retM (if b
       then \<lparr>ev_Kind = INFO_BACKUP_CANCELED, ev_Path = [], ev_IsDir = False, ev_Datetime = now, ev_Msg = []\<rparr>
       else \<lparr>ev_Kind = INFO_BACKUP_COMPLETED, ev_Path = [], ev_IsDir = False, ev_Datetime = now,
             ev_Msg = ''with interruptions''\<rparr>))))))"

text \<open>The statistics argument of \<^verbatim>\<open>PlayBackupJournal\<close> is nil here.\<close>

definition ReplayBackupJournal :: "'w benv \<Rightarrow> ('w, 'z) est_scheme callbacks \<Rightarrow> string
    \<Rightarrow> (('w, 'z) est_scheme, ReportedEvent) prog" where
  "ReplayBackupJournal E cb resourceUtilization =
     bindM (modifyM (\<lambda>s. s\<lparr>stats := None\<rparr>)) (\<lambda>_.
     bindM (initMemDb E) (\<lambda>_.
     deferM (replay_journal E cb resourceUtilization) (persistMemDbToFile E True True)))"

end
