(* ===== verification/Total_Correctness.thy ===== *)
theory Total_Correctness
  imports Environment
begin

section \<open>Rules for total correctness and termination\<close>

text \<open>
  Two judgements on programs, with one rule per construct: \<open>achieves P m Q\<close>, from every state that
  satisfies \<open>P\<close> the program returns, with a value and a state that satisfy \<open>Q\<close>; and \<open>ends P m\<close>, from
  such a state it does not loop forever (it may return, panic or exit).
\<close>

definition achieves :: "('s \<Rightarrow> bool) \<Rightarrow> ('s, 'a) prog \<Rightarrow> ('a \<Rightarrow> 's \<Rightarrow> bool) \<Rightarrow> bool" where
  "achieves P m Q \<longleftrightarrow> (\<forall>s. P s \<longrightarrow> (\<exists>a t. m s = (Ret a, t) \<and> Q a t))"

lemma achievesI: "(\<And>s. P s \<Longrightarrow> \<exists>a t. m s = (Ret a, t) \<and> Q a t) \<Longrightarrow> achieves P m Q"
  by (simp add: achieves_def)

lemma achievesE:
  assumes "achieves P m Q" "P s"
  obtains a t where "m s = (Ret a, t)" "Q a t"
  using assms by (auto simp: achieves_def)

lemma achieves_retM: "(\<And>s. P s \<Longrightarrow> Q a s) \<Longrightarrow> achieves P (retM a) Q"
  by (simp add: achieves_def)

lemma achieves_liftGo: "(\<And>s. P s \<Longrightarrow> \<exists>a. g = Ret a \<and> Q a s) \<Longrightarrow> achieves P (liftGo g) Q"
  by (fastforce simp: achieves_def)

lemma achieves_getM: "(\<And>s. P s \<Longrightarrow> Q (f s) s) \<Longrightarrow> achieves P (getM f) Q"
  by (simp add: achieves_def)

lemma achieves_modifyM: "(\<And>s. P s \<Longrightarrow> Q () (f s)) \<Longrightarrow> achieves P (modifyM f) Q"
  by (simp add: achieves_def)

lemma achieves_nowM:
  "(\<And>s t w. P s \<Longrightarrow> TimeNow S (world s) = (t, w) \<Longrightarrow> Q t (s\<lparr>world := w\<rparr>)) \<Longrightarrow> achieves P (nowM S) Q"
  by (auto simp: achieves_def nowM_def split: prod.splits)

lemma achieves_sysM:
  "(\<And>s r w. P s \<Longrightarrow> f (world s) = (r, w) \<Longrightarrow> Q r (s\<lparr>world := w\<rparr>)) \<Longrightarrow> achieves P (sysM f) Q"
  by (auto simp: achieves_def sysM_def split: prod.splits)

lemma achieves_bindM:
  "achieves P m Q \<Longrightarrow> (\<And>a. achieves (Q a) (f a) R) \<Longrightarrow> achieves P (bindM m f) R"
  by (fastforce simp: achieves_def bindM_def)

lemma achieves_tryM:
  assumes "achieves P m (\<lambda>r t. \<exists>a. r = Inr a \<and> Q a t)" "\<And>a. achieves (Q a) (k a) R"
  shows "achieves P (tryM m h k) R"
proof (rule achievesI)
  fix s assume "P s"
  with assms(1) obtain a t where "m s = (Ret (Inr a), t)" "Q a t" by (auto elim: achievesE)
  with assms(2) [of a] show "\<exists>b u. tryM m h k s = (Ret b, u) \<and> R b u"
    by (auto simp: tryM_run elim: achievesE)
qed

lemma achieves_if:
  "(b \<Longrightarrow> achieves P m Q) \<Longrightarrow> (\<not> b \<Longrightarrow> achieves P n Q) \<Longrightarrow> achieves P (if b then m else n) Q"
  by simp

lemma achieves_weaken:
  "achieves P m Q \<Longrightarrow> (\<And>s. P' s \<Longrightarrow> P s) \<Longrightarrow> (\<And>a t. Q a t \<Longrightarrow> Q' a t) \<Longrightarrow> achieves P' m Q'"
  by (fastforce simp: achieves_def)

text \<open>A program that keeps a fact keeps it whatever else it achieves.\<close>

lemma achieves_keep:
  "achieves P m Q \<Longrightarrow> preserves R m \<Longrightarrow> achieves (\<lambda>s. P s \<and> R s) m (\<lambda>a t. Q a t \<and> R t)"
  by (fastforce simp: achieves_def preserves_def)

lemma achieves_total: "(\<And>s. \<exists>a t. m s = (Ret a, t)) \<Longrightarrow> preserves P m \<Longrightarrow> achieves P m (\<lambda>_. P)"
  unfolding achieves_def preserves_def by (metis snd_conv)

subsection \<open>Programs that end\<close>

definition ends :: "('s \<Rightarrow> bool) \<Rightarrow> ('s, 'a) prog \<Rightarrow> bool" where
  "ends P m \<longleftrightarrow> (\<forall>s. P s \<longrightarrow> fst (m s) \<noteq> Spin)"

lemma endsD: "ends P m \<Longrightarrow> P s \<Longrightarrow> fst (m s) \<noteq> Spin"
  by (simp add: ends_def)

named_theorems ends_rules \<open>programs that always end\<close>

lemma ends_basic [ends_rules]:
  "ends P (retM a)" "ends P (getM f)" "ends P (modifyM f)" "ends P (sysM g)" "ends P (nowM S)" "ends P (sleepM S n)"
  by (simp_all add: ends_def sysM_def nowM_def split: prod.splits)

lemma ends_liftGo: "g \<noteq> Spin \<Longrightarrow> ends P (liftGo g)"
  by (simp add: ends_def)

lemma ends_bindM [ends_rules]:
  assumes "ends P m" "preserves P m" "\<And>a. ends P (f a)"
  shows "ends P (bindM m f)"
  unfolding ends_def
proof (intro allI impI)
  fix s assume s: "P s"
  obtain r t where r: "m s = (r, t)" by fastforce
  have "r \<noteq> Spin" using endsD [OF assms(1) s] r by simp
  moreover have "P t" using preservesD' [OF assms(2) r s] .
  ultimately show "fst (bindM m f s) \<noteq> Spin" using endsD [OF assms(3)] by (cases r) (simp_all add: bindM_def r)
qed

lemma ends_tryM [ends_rules]:
  assumes "ends P m" "preserves P m" "\<And>e. ends P (h e)" "\<And>a. ends P (k a)"
  shows "ends P (tryM m h k)"
  unfolding tryM_def using assms by (intro ends_bindM) (auto split: sum.splits)

lemma ends_if [ends_rules]:
  "(b \<Longrightarrow> ends P m) \<Longrightarrow> (\<not> b \<Longrightarrow> ends P n) \<Longrightarrow> ends P (if b then m else n)"
  by simp

text \<open>Most programs end from every state; then nothing has to be kept.\<close>

lemma preserves_True [ends_rules]: "preserves (\<lambda>_. True) m"
  by (simp add: preserves_def)

lemma ends_mono: "ends Q m \<Longrightarrow> (\<And>s. P s \<Longrightarrow> Q s) \<Longrightarrow> ends P m"
  by (simp add: ends_def)

end
