(* ===== verification/Play_Props.thy ===== *)
theory Play_Props
  imports JournaledBackup Total_Correctness
begin

section \<open>Playing the journal ends\<close>

text \<open>
  \<^verbatim>\<open>PlayBackupJournal\<close> loops until the journal has no task left to claim. Every claim takes a task out
  of the state \<open>Unstarted\<close> and nothing puts one back, so the loop ends, as long as the uploads in it do.
\<close>

subsection \<open>Programs that neither loop nor add work\<close>

definition quiet :: "(('w, 'z) dst_scheme, 'a) prog \<Rightarrow> bool" where
  "quiet m \<longleftrightarrow> (\<forall>s. fst (m s) \<noteq> Spin \<and> unstarted_count (sdb (snd (m s))) \<le> unstarted_count (sdb s))"

named_theorems quiet_rules \<open>programs that neither loop nor add work\<close>

lemma quietI:
  "(\<And>s r t. m s = (r, t) \<Longrightarrow> r \<noteq> Spin \<and> unstarted_count (sdb t) \<le> unstarted_count (sdb s)) \<Longrightarrow> quiet m"
  unfolding quiet_def by (metis prod.collapse)

lemma quietD: "quiet m \<Longrightarrow> m s = (r, t) \<Longrightarrow> r \<noteq> Spin \<and> unstarted_count (sdb t) \<le> unstarted_count (sdb s)"
  unfolding quiet_def by (metis fst_conv snd_conv)

lemma quiet_basic [quiet_rules]:
  "quiet (retM a)" "quiet (getM f)" "quiet (sysM g)" "quiet (nowM S)" "quiet (sleepM S n)"
  by (auto simp: quiet_def sysM_def nowM_def split: prod.splits)

lemma quiet_modifyM [quiet_rules]: "(\<And>s. sdb (f s) = sdb s) \<Longrightarrow> quiet (modifyM f)"
  by (simp add: quiet_def)

lemma quiet_liftGo [quiet_rules]: "g \<noteq> Spin \<Longrightarrow> quiet (liftGo g)"
  by (simp add: quiet_def)

lemma quiet_Pair [quiet_rules]: "g \<noteq> Spin \<Longrightarrow> quiet (Pair g)"
  by (simp add: quiet_def)

lemma quiet_bounded:
  assumes "quiet m"
  shows "preserves (\<lambda>s. unstarted_count (sdb s) \<le> k) m" "ends (\<lambda>s. unstarted_count (sdb s) \<le> k) m"
  using assms unfolding quiet_def preserves_def ends_def by (blast intro: order_trans)+

lemma quiet_bindM [quiet_rules]:
  assumes "quiet m" "\<And>a. quiet (f a)"
  shows "quiet (bindM m f)"
proof (rule quietI)
  fix s r t assume run: "bindM m f s = (r, t)"
  obtain x u where x: "m s = (x, u)" by fastforce
  note m = quietD [OF assms(1) x]
  show "r \<noteq> Spin \<and> unstarted_count (sdb t) \<le> unstarted_count (sdb s)"
  proof (cases x)
    case (Ret a)
    with run x have "f a u = (r, t)" by (simp add: bindM_def)
    from quietD [OF assms(2) this] m show ?thesis by simp
  qed (use run x m in \<open>auto simp: bindM_def\<close>)
qed

lemma quiet_sum [quiet_rules]:
  "(\<And>e. quiet (h e)) \<Longrightarrow> (\<And>a. quiet (k a)) \<Longrightarrow> quiet (case r of Inl e \<Rightarrow> h e | Inr a \<Rightarrow> k a)"
  by (cases r) simp_all

lemma quiet_option [quiet_rules]:
  "quiet n \<Longrightarrow> (\<And>a. quiet (k a)) \<Longrightarrow> quiet (case r of None \<Rightarrow> n | Some a \<Rightarrow> k a)"
  by (cases r) simp_all

lemma quiet_prod [quiet_rules]: "(\<And>a b. quiet (k a b)) \<Longrightarrow> quiet (case r of (a, b) \<Rightarrow> k a b)"
  by (cases r) simp

lemma quiet_if [quiet_rules]: "quiet m \<Longrightarrow> quiet n \<Longrightarrow> quiet (if b then m else n)"
  by simp

lemma quiet_tryM [quiet_rules]:
  "quiet m \<Longrightarrow> (\<And>e. quiet (h e)) \<Longrightarrow> (\<And>a. quiet (k a)) \<Longrightarrow> quiet (tryM m h k)"
  unfolding tryM_def by (intro quiet_rules)

lemma ends_after_quiet:
  "quiet m \<Longrightarrow> (\<And>a. ends (\<lambda>s. unstarted_count (sdb s) \<le> k) (f a)) \<Longrightarrow>
     ends (\<lambda>s. unstarted_count (sdb s) \<le> k) (bindM m f)"
  by (auto intro: ends_bindM quiet_bounded)

lemma ends_after_quiet_try:
  "quiet m \<Longrightarrow> (\<And>e. quiet (h e)) \<Longrightarrow> (\<And>a. ends (\<lambda>s. unstarted_count (sdb s) \<le> k) (g a)) \<Longrightarrow>
     ends (\<lambda>s. unstarted_count (sdb s) \<le> k) (tryM m h g)"
  by (auto intro: ends_tryM quiet_bounded)

lemma bindGo_Spin [simp]: "bindGo m f = Spin \<longleftrightarrow> m = Spin \<or> (\<exists>a. m = Ret a \<and> f a = Spin)"
  by (cases m) simp_all

subsection \<open>The database\<close>

definition db_quiet :: "(db, 'a) prog \<Rightarrow> bool" where
  "db_quiet m \<longleftrightarrow> (\<forall>d. fst (m d) \<noteq> Spin \<and> unstarted_count (snd (m d)) \<le> unstarted_count d)"

lemma quiet_dbM [quiet_rules]: "db_quiet m \<Longrightarrow> quiet (dbM m)"
  by (auto simp: quiet_def db_quiet_def dbM_def zoomM_def split: prod.splits) (metis fst_conv, metis snd_conv)

lemma unstarted_faults [simp]: "unstarted_count (d\<lparr>db_faults := fs\<rparr>) = unstarted_count d"
  by (simp add: unstarted_count_def)

lemma db_quiet_basic [quiet_rules]: "db_quiet (retM a)"
  by (simp add: db_quiet_def)

lemma db_quiet_bindM [quiet_rules]:
  assumes "db_quiet m" "\<And>a. db_quiet (f a)"
  shows "db_quiet (bindM m f)"
  unfolding db_quiet_def
proof (intro allI)
  fix d
  obtain x u where x: "m d = (x, u)" by fastforce
  have m: "x \<noteq> Spin \<and> unstarted_count u \<le> unstarted_count d"
    using assms(1) x unfolding db_quiet_def by (metis fst_conv snd_conv)
  show "fst (bindM m f d) \<noteq> Spin \<and> unstarted_count (snd (bindM m f d)) \<le> unstarted_count d"
  proof (cases x)
    case (Ret a)
    have "fst (f a u) \<noteq> Spin \<and> unstarted_count (snd (f a u)) \<le> unstarted_count u"
      using assms(2) unfolding db_quiet_def by blast
    with m Ret x show ?thesis by (simp add: bindM_def)
  qed (use x m in \<open>auto simp: bindM_def\<close>)
qed

lemma db_quiet_tryM [quiet_rules]:
  "db_quiet m \<Longrightarrow> (\<And>e. db_quiet (h e)) \<Longrightarrow> (\<And>a. db_quiet (k a)) \<Longrightarrow> db_quiet (tryM m h k)"
  unfolding tryM_def by (rule db_quiet_bindM) (auto split: sum.splits)

lemma db_quiet_sqlM [quiet_rules]:
  "(\<And>d. unstarted_count (snd (f d)) \<le> unstarted_count d) \<Longrightarrow> db_quiet (sqlM tbls f)"
  unfolding db_quiet_def
proof (intro allI)
  fix d assume f: "\<And>d. unstarted_count (snd (f d)) \<le> unstarted_count d"
  obtain r d' where r: "sqlM tbls f d = (r, d')" by fastforce
  then show "fst (sqlM tbls f d) \<noteq> Spin \<and> unstarted_count (snd (sqlM tbls f d)) \<le> unstarted_count d"
  proof (cases rule: sqlM_cases)
    case (ok a)
    with f [of "d\<lparr>db_faults := tl (db_faults d)\<rparr>"] r show ?thesis by simp
  qed (use r in simp)
qed

lemma db_quiet_stmtM [quiet_rules]:
  "(\<And>d. unstarted_count (snd (f d)) \<le> unstarted_count d) \<Longrightarrow> db_quiet (stmtM tbls f)"
  unfolding stmtM_def by (intro quiet_rules) simp_all

lemma db_quiet_rowM [quiet_rules]: "db_quiet (rowM tbls f)"
  unfolding rowM_def by (intro quiet_rules) simp_all

lemma db_quiet_execM [quiet_rules]:
  "(\<And>d. unstarted_count (f d) \<le> unstarted_count d) \<Longrightarrow> db_quiet (execM tbls f)"
  unfolding execM_def by (intro quiet_rules) simp

lemma unstarted_set_rows: "(\<And>r. bj_status (f r) \<noteq> Unstarted) \<Longrightarrow> unstarted_count (set_rows p f d) \<le> unstarted_count d"
proof -
  assume f: "\<And>r. bj_status (f r) \<noteq> Unstarted"
  have "length (filter (is_status Unstarted) (map (\<lambda>r. if p r then f r else r) xs)) \<le> length (filter (is_status Unstarted) xs)"
    for xs by (induction xs) (use f in \<open>auto simp: is_status_def\<close>)
  then show ?thesis by (simp add: unstarted_count_def)
qed

lemma db_quiet_ops [quiet_rules]:
  "db_quiet (CompleteBackupJournalTask bjt e)" "db_quiet GetBackupJournalCounts" "db_quiet WipeBackupJournal"
  "db_quiet (UpdateLastBackupTime i now)" "db_quiet (GetDirEntPaths i)" "db_quiet (DeleteDirEntByPath root rel)"
  "db_quiet GetAllBackupJournalRowIndexEntries"
  unfolding CompleteBackupJournalTask_def GetBackupJournalCounts_def getCountTotalBackupJournal_def
    getCountFinishedBackupJournal_def WipeBackupJournal_def deleteAllRowsBackupJournal_def UpdateLastBackupTime_def
    GetDirEntPaths_def getDirEntById_def DeleteDirEntByPath_def GetAllBackupJournalRowIndexEntries_def
  by (intro quiet_rules unstarted_set_rows; simp add: unstarted_count_def set_last_backup_def)+

text \<open>A claim that succeeds leaves less to do; one that fails leaves no more.\<close>

lemma claim_loop_count:
  "claim_loop d = (r, d') \<Longrightarrow> r \<noteq> Spin \<and> unstarted_count d' \<le> unstarted_count d \<and>
     (\<forall>t. r = Ret (Inr t) \<longrightarrow> unstarted_count d' < unstarted_count d)"
proof (induction d rule: claim_loop.induct)
  case (1 d)
  obtain r1 d1 where sel: "selectNextBackupJournalCandidateTask d = (r1, d1)" by fastforce
  then obtain fs where d1: "d1 = d\<lparr>db_faults := fs\<rparr>"
    and r1: "(\<exists>e. r1 = Ret (Inl e)) \<or> (\<exists>x. r1 = Ret (Inr (bj_id x, bj_dirent_id x, bj_change_type x)) \<and>
       List.find (is_status Unstarted) (backup_journal d) = Some x)"
    by (elim selectNext_cases)
  from r1 show ?case
  proof (elim disjE exE conjE)
    fix e assume "r1 = Ret (Inl e)"
    with 1(2) sel d1 show ?thesis by (auto simp: claim_loop.simps [of d])
  next
    fix x assume x: "r1 = Ret (Inr (bj_id x, bj_dirent_id x, bj_change_type x))"
      "List.find (is_status Unstarted) (backup_journal d) = Some x"
    obtain r2 d2 where upd: "update_in_progress (bj_id x) d1 = (r2, d2)" by fastforce
    then show ?thesis
    proof (cases rule: update_in_progress_cases)
      case (err e gs)
      with 1(2) sel x(1) d1 upd show ?thesis by (auto simp: claim_loop.simps [of d])
    next
      case (ok gs)
      have less: "unstarted_count d2 < unstarted_count d"
        using unstarted_count_claim [of x "d\<lparr>db_faults := gs\<rparr>"] find_SomeD [OF x(2)]
        by (simp add: ok(2) d1 unstarted_count_def)
      show ?thesis
      proof (cases "length (filter (\<lambda>r. bj_id r = bj_id x) (backup_journal d1)) = 1")
        case True
        with 1(2) sel x(1) upd ok(1) less show ?thesis by (auto simp: claim_loop.simps [of d])
      next
        case False
        with 1(2) sel x(1) upd ok(1) have "claim_loop d2 = (r, d')" by (simp add: claim_loop.simps [of d])
        with 1(1) [OF sel [symmetric] x(1) refl refl refl upd [symmetric] ok(1) refl False] less show ?thesis
          by fastforce
      qed
    qed
  qed
qed

lemma db_quiet_claim: "db_quiet ClaimNextBackupJournalTask"
  unfolding db_quiet_def ClaimNextBackupJournalTask_def using claim_loop_count by (metis prod.collapse)

subsection \<open>Reading and writing the store\<close>

lemma DecryptFilename_ends: "DecryptFilename C key e \<noteq> Spin"
  by (auto simp: DecryptFilename_def gunzip_def split: option.splits)

lemma DecryptBuffer_ends: "DecryptBuffer C key x \<noteq> Spin"
  by (auto simp: DecryptBuffer_def gunzip_def Let_def split: option.splits)

lemma EncryptBufferWithNonce_ends: "EncryptBufferWithNonce C key p n \<noteq> Spin"
  by (auto simp: EncryptBufferWithNonce_def Let_def)

lemma collect_entries_ends: "collect_entries J es m \<noteq> Spin"
  by (induction J es m rule: collect_entries.induct) (auto split: option.splits)

lemma quiet_store [quiet_rules]:
  "quiet (GetObjList S b p r)" "quiet (DownloadObjToBuffer S b n)" "quiet (GetObjListTopLevel S b ex)"
  unfolding GetObjList_def DownloadObjToBuffer_def GetObjListTopLevel_def
  by (intro quiet_rules; simp)+

lemma quiet_index [quiet_rules]: "quiet (GetSnapshotIndexFile S C b key n)"
  unfolding GetSnapshotIndexFile_def decryptIndexFile_def by (intro quiet_rules DecryptBuffer_ends)

lemma quiet_read_indices [quiet_rules]: "quiet (read_indices S C J b key e ns acc)"
  by (induction ns arbitrary: acc) (auto simp: Let_def intro!: quiet_rules DecryptFilename_ends)

lemma quiet_group_backups [quiet_rules]: "quiet (group_backups S C J key b es ret)"
  by (induction es arbitrary: ret) (auto intro!: quiet_rules DecryptFilename_ends)

lemma quiet_count_indices [quiet_rules]: "quiet (count_indices S b es n)"
  by (induction es arbitrary: n) (auto intro!: quiet_rules)

lemma quiet_GetGroupedSnapshots [quiet_rules]: "quiet (GetGroupedSnapshots S C J key b pr)"
  unfolding GetGroupedSnapshots_def by (intro quiet_rules)

lemma quiet_EncryptBuffer [quiet_rules]: "quiet (EncryptBuffer S C key p)"
  unfolding EncryptBuffer_def Let_def by (intro quiet_rules)

text \<open>
  The one thing that may take forever is an upload while the network is unreachable. It ends when every
  outage does, here within the number of attempts observed.
\<close>

definition outages_end :: "'w sys \<Rightarrow> bool" where
  "outages_end S \<longleftrightarrow> (\<forall>b n x k w. \<exists>m < Attempts S. down_for m S b n x k w)"

lemma quiet_upload:
  fixes S :: "'w sys"
  assumes "outages_end S"
  shows "quiet (UploadObjFromBuffer S b n x e :: (('w, 'z) dst_scheme, goerr + unit) prog)"
proof (rule quietI)
  fix s :: "('w, 'z) dst_scheme" and r t assume run: "UploadObjFromBuffer S b n x e s = (r, t)"
  from assms obtain m where "m < Attempts S" "down_for m S b n x 5 (world s)" unfolding outages_end_def by blast
  from upload_loop_returns [OF this(2,1), of e] run have "r \<noteq> Spin" by (auto simp: UploadObjFromBuffer_def)
  moreover obtain w u where "t = s\<lparr>world := w, uploadBytes := u\<rparr>"
    using run upload_loop_world_only unfolding UploadObjFromBuffer_def by blast
  ultimately show "r \<noteq> Spin \<and> unstarted_count (sdb t) \<le> unstarted_count (sdb s)" by simp
qed

lemma quiet_WriteIndexFile:
  assumes "outages_end S"
  shows "quiet (WriteIndexFile S C J b key dir name)"
  unfolding WriteIndexFile_def SerializeAndWriteSnapshotObj_def Let_def
  by (intro quiet_rules quiet_upload [OF assms] collect_entries_ends)

subsection \<open>The engine\<close>

lemma quiet_statsM [quiet_rules]: "quiet (statsM f)"
  unfolding statsM_def by (rule quiet_modifyM) simp

lemma quiet_persist [quiet_rules]: "quiet (persistMemDbToFile E g f)"
proof -
  have "quiet (copy_db :: (('w, 'z) est_scheme, unit) prog)"
    by (auto simp: quiet_def copy_db_def BackupTo_def split: list.splits option.splits)
  then show ?thesis unfolding persistMemDbToFile_def Let_def by (intro quiet_rules; simp)
qed

lemma quiet_generate [quiet_rules]: "quiet (generateRandomChunkName S)"
  unfolding generateRandomChunkName_def by (intro quiet_rules) simp

lemma quiet_updateLastBackupTime [quiet_rules]: "quiet (updateLastBackupTime E i)"
  unfolding updateLastBackupTime_def by (intro quiet_rules)

lemma quiet_completeTask [quiet_rules]: "quiet (completeTask E bjt e)"
  unfolding completeTask_def Let_def by (intro quiet_rules; simp)

lemma quiet_finalize_items [quiet_rules]: "quiet (finalize_items E n its b)"
  by (induction its arbitrary: b) (auto intro!: quiet_rules)

lemma quiet_finish_chunk [quiet_rules]: "quiet (finish_chunk E n)"
  unfolding finish_chunk_def by (intro quiet_rules) (simp add: newChunkPacker_def)

lemma quiet_Complete:
  assumes "outages_end (eS E)"
  shows "quiet (Complete E)"
  unfolding Complete_def by (intro quiet_rules quiet_upload [OF assms]) simp

lemma quiet_AddDirEntry [quiet_rules]: "quiet (AddDirEntry rel buf bjt)"
  unfolding AddDirEntry_def by (intro quiet_rules) simp

lemma quiet_xattr_lines [quiet_rules]: "quiet (xattr_lines S p ls acc)"
  by (induction ls arbitrary: acc) (auto intro!: quiet_rules)

lemma quiet_backup_chunks:
  assumes "outages_end (eS E)"
  shows "quiet (backup_chunks E buf reads i nonce acc)"
proof (induction reads arbitrary: i nonce acc)
  case (Cons r reads)
  have inc: "incrementNonce n \<noteq> Spin" for n by (simp add: incrementNonce_def Let_def)
  show ?case
    by (cases r) (auto simp: Let_def intro!: quiet_rules quiet_upload [OF assms] Cons EncryptBufferWithNonce_ends inc)
qed (simp add: quiet_rules)

lemma quiet_Backup:
  assumes "outages_end (eS E)"
  shows "quiet (Backup E rel dir bjt)"
  unfolding Backup_def backup_small_def backup_large_def serializeXAttrsToHex_def getSymlinkOriginIfSymlink_def
    AppendEntireFileToBuffer_def Let_def
  by (intro quiet_rules quiet_Complete [OF assms] quiet_backup_chunks [OF assms]; simp)

subsection \<open>The loop\<close>

definition callbacks_quiet :: "('w, 'z) est_scheme callbacks \<Rightarrow> bool" where
  "callbacks_quiet cb \<longleftrightarrow>
     (\<forall>f. checkAndHandleCancelation cb = Some f \<longrightarrow> (\<forall>d n. quiet (f d n))) \<and>
     (\<forall>f. updateProgress cb = Some f \<longrightarrow> (\<forall>x y. quiet (f x y)))"

lemma quiet_progressUpdate: "callbacks_quiet cb \<Longrightarrow> quiet (progressUpdate cb)"
  unfolding progressUpdate_def callbacks_quiet_def by (cases "updateProgress cb") (auto intro!: quiet_rules)

lemma quiet_writeIndex:
  assumes "outages_end (eS E)" "callbacks_quiet cb"
  shows "quiet (writeIndexFileAndWipeJournal E cb dir name)"
  unfolding writeIndexFileAndWipeJournal_def
  by (intro quiet_rules quiet_progressUpdate [OF assms(2)] quiet_WriteIndexFile [OF assms(1)])

lemma quiet_run_task:
  assumes "outages_end (eS E)"
  shows "quiet (run_task E prev dir rel bjt)"
  unfolding run_task_def updated_task_def unchanged_task_def deleted_task_def failed_task_def purgeFromDb_def Let_def
  by (cases "bjt_ChangeType bjt") (auto intro!: quiet_rules quiet_Backup [OF assms])

text \<open>One round: what comes before the claim, the claim, and what follows when it succeeds.\<close>

definition before_claim :: "'w benv \<Rightarrow> ('w, 'z) est_scheme callbacks \<Rightarrow> string \<Rightarrow> string \<Rightarrow> string
    \<Rightarrow> (('w, 'z) est_scheme, bool) prog" where
  "before_claim E cb dir name util =
     bindM (if util = ''low'' then sleepM (eS E) 0 else retM ()) (\<lambda>_.
     case checkAndHandleCancelation cb of None \<Rightarrow> retM False | Some f \<Rightarrow> f dir name)"

lemma quiet_before_claim: "callbacks_quiet cb \<Longrightarrow> quiet (before_claim E cb dir name util)"
  unfolding before_claim_def callbacks_quiet_def
  by (cases "checkAndHandleCancelation cb") (auto intro!: quiet_rules)

lemma play_round_count:
  fixes s t :: "('w, 'z) est_scheme"
  assumes "outages_end (eS E)" "callbacks_quiet cb" "play_round E cb prev dir name util n s = (r, t)"
  shows "r \<noteq> Spin \<and> unstarted_count (sdb t) \<le> unstarted_count (sdb s) \<and>
    (r = Ret None \<longrightarrow> unstarted_count (sdb t) < unstarted_count (sdb s))"
proof -
  define after_claim where "after_claim = (\<lambda>bjt :: BackupJournalTask.
     bindM (dbM (GetDirEntPaths (DirEntId bjt))) (\<lambda>r.
     let relPath = (case r of Inl _ \<Rightarrow> [] | Inr (_, p) \<Rightarrow> p) in
     bindM (statsM AddFile) (\<lambda>_.
     bindM (run_task E prev dir relPath bjt) (\<lambda>finish.
     bindM (case finish of
         None \<Rightarrow> retM False
       | Some crp \<Rightarrow>
           bindM (updateLastBackupTime E (DirEntId bjt)) (\<lambda>_. completeTask E bjt crp)) (\<lambda>isJournalComplete.
     if isJournalComplete
     then bindM (writeIndexFileAndWipeJournal E cb dir name) (\<lambda>_. retM (Some False))
     else bindM (getM totalCntJournal) (\<lambda>tot.
       bindM (if tot \<le> 1000 \<or> (n + 1) mod 1000 = 0 then progressUpdate cb else retM ()) (\<lambda>_.
       (retM None :: (('w, 'z) est_scheme, bool option) prog))))))))"
  define no_claim where "no_claim = (\<lambda>e. if e = ErrNoWork then
              bindM (Complete E) (\<lambda>_.
              bindM (writeIndexFileAndWipeJournal E cb dir name) (\<lambda>_. (retM (Some False) :: (('w, 'z) est_scheme, bool option) prog)))
            else retM (Some False))"
  have q: "quiet (after_claim bjt)" for bjt unfolding after_claim_def Let_def
    by (intro quiet_rules quiet_run_task [OF assms(1)] quiet_writeIndex [OF assms(1,2)] quiet_progressUpdate [OF assms(2)])
  have q': "quiet (no_claim e)" for e unfolding no_claim_def
    by (intro quiet_rules quiet_Complete [OF assms(1)] quiet_writeIndex [OF assms(1,2)])
  have none: "no_claim e s = (Ret None, t) \<Longrightarrow> False" for e s t
    unfolding no_claim_def by (auto elim!: bindM_RetE split: if_splits)
  have run: "play_round E cb prev dir name util n = bindM (before_claim E cb dir name util) (\<lambda>c.
     if c then retM (Some True) else bindM (persistMemDbToFile E False False) (\<lambda>_.
     tryM (dbM ClaimNextBackupJournalTask) no_claim after_claim))"
    unfolding play_round_def before_claim_def bindM_assoc no_claim_def after_claim_def ..
  have qb: "quiet (before_claim E cb dir name util)" by (rule quiet_before_claim [OF assms(2)])
  have qp: "quiet (persistMemDbToFile E False False :: (('w, 'z) est_scheme, unit) prog)" by (rule quiet_persist)
  have "quiet (play_round E cb prev dir name util n)" unfolding run
    by (intro quiet_rules qb db_quiet_claim q q')
  note all = quietD [OF this assms(3)]
  have "unstarted_count (sdb t) < unstarted_count (sdb s)" if r: "r = Ret None"
  proof -
    from assms(3) r obtain s1 s2 where s1: "before_claim E cb dir name util s = (Ret False, s1)"
      and s2: "persistMemDbToFile E False False s1 = (Ret (), s2)"
      and rest: "tryM (dbM ClaimNextBackupJournalTask) no_claim after_claim s2 = (Ret None, t)"
      unfolding run by (auto elim!: bindM_RetE split: if_splits)
    from rest obtain bjt s3 where c: "dbM ClaimNextBackupJournalTask s2 = (Ret (Inr bjt), s3)"
      and k: "after_claim bjt s3 = (Ret None, t)" using none by (elim tryM_RetE) blast+
    obtain d where d: "claim_loop (sdb s2) = (Ret (Inr bjt), d)" "s3 = s2\<lparr>sdb := d\<rparr>"
      using c by (auto simp: dbM_def zoomM_def ClaimNextBackupJournalTask_def split: prod.splits)
    have "unstarted_count d < unstarted_count (sdb s2)" using claim_loop_count [OF d(1)] by simp
    with d(2) quietD [OF qb s1] quietD [OF qp s2] quietD [OF q k] show ?thesis by simp
  qed
  with all show ?thesis by blast
qed

lemma play_loop_ends:
  assumes "outages_end (eS E)" "callbacks_quiet cb"
  shows "unstarted_count (sdb s) < k \<Longrightarrow> fst (play_loop k E cb prev dir name util n s) \<noteq> Spin"
proof (induction k arbitrary: s n)
  case (Suc k)
  obtain r t where r: "play_round E cb prev dir name util n s = (r, t)" by fastforce
  note c = play_round_count [OF assms r]
  show ?case
  proof (cases "r = Ret None")
    case True
    with c Suc.prems have "unstarted_count (sdb t) < k" by simp
    from Suc.IH [OF this] True r show ?thesis by (simp add: bindM_def)
  next
    case False
    with c r show ?thesis by (cases r) (auto simp: bindM_def split: option.splits)
  qed
qed simp

text \<open>
  C9. \<^verbatim>\<open>PlayBackupJournal\<close> ends. If outages of the network end, and the callbacks neither loop nor add
  tasks, the loop over the journal makes at most one round more than there are unstarted tasks: with more
  rounds than that it is never cut short.
\<close>

theorem PlayBackupJournal_ends:
  fixes s :: "('w, 'z) est_scheme"
  assumes "outages_end (eS E)" "callbacks_quiet cb" "unstarted_count (sdb s) < Attempts (eS E)"
  shows "fst (PlayBackupJournal E cb dir name util s) \<noteq> Spin"
proof -
  have fuel: "fst (play_loop (Attempts (eS E)) E cb prev dir name util 0 t) \<noteq> Spin"
    if "unstarted_count (sdb t) \<le> unstarted_count (sdb s)" for prev t
    using play_loop_ends [OF assms(1,2)] that assms(3) by (meson le_less_trans)
  define k where "k = unstarted_count (sdb s)"
  let ?P = "\<lambda>t :: ('w, 'z) est_scheme. unstarted_count (sdb t) \<le> k"
  have loop: "ends ?P (play_loop (Attempts (eS E)) E cb prev dir name util 0)" for prev
    using fuel by (auto simp: ends_def k_def)
  have ends: "ends ?P (PlayBackupJournal E cb dir name util)"
    unfolding PlayBackupJournal_def Let_def
  proof (rule ends_after_quiet_try, goal_cases)
    case (3 a)
    obtain fin tot where a: "a = (fin, tot)" by fastforce
    show ?case unfolding a prod.case
      by (rule ends_after_quiet ends_after_quiet_try quiet_modifyM quiet_GetGroupedSnapshots quiet_persist quiet_basic loop
        | simp add: newChunkPacker_def)+
  qed (simp_all add: quiet_rules)
  from endsD [OF ends, of s] show ?thesis by (simp add: k_def)
qed

end
