(* ===== verification/Chunk_Store.thy ===== *)
theory Chunk_Store
  imports Backup
begin

section \<open>What a chunk holds\<close>

text \<open>
  The contract of the chunk packer. While it is filled, its items are consecutive extents of the
  buffer, each holding exactly the bytes that were added for it. When it is completed and the upload
  succeeds, the bucket holds an object that decrypts to the buffer, every task of an item is finished
  with the extent of that item as its index entry, and the packer is empty; otherwise neither the
  journal nor the packer has changed.
\<close>

subsection \<open>Each item holds its bytes\<close>

definition holds :: "('w, 'z) est_scheme \<Rightarrow> chunkPackerItem \<Rightarrow> bytes \<Rightarrow> bool" where
  "holds s i b \<longleftrightarrow> slice (plaintextChunkBuf s) (cpi_Offset i) (cpi_Offset i + cpi_Len i) = Ret b"

lemma slice_append_keep: "slice b lo hi = Ret x \<Longrightarrow> slice (b @ c) lo hi = Ret x"
  by (auto simp: slice_def split: if_splits)

lemma AddDirEntry_holds:
  assumes "packer_ok s" "AddDirEntry relPath buf bjt s = (Ret True, t)"
  shows "\<exists>i. items t = items s @ [i] \<and> cpi_relPath i = relPath \<and> cpi_bjt i = bjt \<and> holds t i buf \<and>
    (\<forall>j b. holds s j b \<longrightarrow> holds t j b) \<and> packer_ok t"
proof -
  have p: "posInPlaintextChunk s = int (length (plaintextChunkBuf s))" using assms(1) by (simp add: packer_ok_def)
  have t: "t = s\<lparr>plaintextChunkBuf := plaintextChunkBuf s @ buf,
        posInPlaintextChunk := posInPlaintextChunk s + int (length buf),
        items := items s @ [\<lparr>cpi_relPath = relPath, cpi_Offset = posInPlaintextChunk s,
          cpi_Len = int (length buf), cpi_bjt = bjt\<rparr>],
        stats := map_option (AddBytes (int (length buf))) (stats s)\<rparr>"
    using assms(2) by (simp add: AddDirEntry_run split: if_splits)
  have "packer_ok t" using preservesD' [OF AddDirEntry_packer_ok assms(2,1)] .
  moreover have "slice (plaintextChunkBuf s @ buf) (int (length (plaintextChunkBuf s)))
      (int (length (plaintextChunkBuf s)) + int (length buf)) = Ret buf"
    by (simp add: slice_def)
  ultimately show ?thesis using p by (auto simp: t holds_def slice_append_keep)
qed

lemma AddDirEntry_refuses:
  "AddDirEntry relPath buf bjt s = (Ret False, t) \<longleftrightarrow>
     t = s \<and> int (length buf) + posInPlaintextChunk s > ChunkSize"
  by (auto simp: AddDirEntry_run)

subsection \<open>Finishing the items\<close>

definition finish_row :: "jidx \<Rightarrow> string \<Rightarrow> chunkPackerItem \<Rightarrow> journal_row \<Rightarrow> journal_row" where
  "finish_row J chunkName i r = (if bj_id r = bjt_id (cpi_bjt i)
     then r\<lparr>bj_status := Finished, bj_index_entry := Some (ToJson J (item_crp chunkName i))\<rparr> else r)"

definition finish_rows :: "jidx \<Rightarrow> string \<Rightarrow> chunkPackerItem list \<Rightarrow> journal_row list \<Rightarrow> journal_row list" where
  "finish_rows J chunkName its rows = fold (\<lambda>i. map (finish_row J chunkName i)) its rows"

lemma finish_rows_nth: "length (finish_rows J n its rows) = length rows"
  unfolding finish_rows_def by (induction its arbitrary: rows) simp_all

lemma finish_rows_map: "finish_rows J n its rows = map (fold (finish_row J n) its) rows"
  unfolding finish_rows_def by (induction its arbitrary: rows) simp_all

lemma fold_finish_row_other:
  "(\<forall>i \<in> set its. bjt_id (cpi_bjt i) \<noteq> bj_id r) \<Longrightarrow> fold (finish_row J n) its r = r"
  by (induction its) (auto simp: finish_row_def)

lemma finish_row_id [simp]: "bj_id (finish_row J n i r) = bj_id r"
  by (simp add: finish_row_def)

lemma fold_finish_row:
  "distinct (map (\<lambda>i. bjt_id (cpi_bjt i)) its) \<Longrightarrow> i \<in> set its \<Longrightarrow> bj_id r = bjt_id (cpi_bjt i) \<Longrightarrow>
     fold (finish_row J n) its r =
       r\<lparr>bj_status := Finished, bj_index_entry := Some (ToJson J (item_crp n i))\<rparr>"
proof (induction its arbitrary: r)
  case (Cons j its)
  show ?case
  proof (cases "i = j")
    case True
    with Cons.prems have "\<forall>k \<in> set its. bjt_id (cpi_bjt k) \<noteq> bj_id (finish_row J n j r)"
      by (auto simp: image_iff)
    from fold_finish_row_other [OF this] True Cons.prems(3) show ?thesis
      by (simp add: finish_row_def [of J n j r])
  next
    case False
    with Cons.prems have "bj_id r \<noteq> bjt_id (cpi_bjt j)" by (auto simp: image_iff)
    with Cons False show ?thesis by (simp add: finish_row_def [of J n j r])
  qed
qed simp

lemma updateLastBackupTime_run:
  assumes "db_ready (sdb s)" "TimeNow (eS E) (world s) = (now, w)"
  shows "updateLastBackupTime E i s =
    (Ret (), s\<lparr>world := w, sdb := set_last_backup (\<lambda>r. de_id r = i) now (sdb s)\<rparr>)"
  using assms
  by (simp add: updateLastBackupTime_def bindM_def nowM_def dbM_def zoomM_def UpdateLastBackupTime_def execM_ready)

lemma db_ready_updates [simp]:
  "db_ready (set_last_backup p t d) = db_ready d" "db_ready (set_rows q f d) = db_ready d"
  by (simp_all add: db_ready_def set_last_backup_def set_rows_def del: db_readyD)

lemma set_last_backup_journal [simp]: "backup_journal (set_last_backup p t d) = backup_journal d"
  by (simp add: set_last_backup_def)

lemma completeTask_run:
  assumes "db_ready (sdb s)"
  obtains c f tot where "completeTask E bjt e s = (Ret c, s\<lparr>sdb := set_rows (\<lambda>r. bj_id r = bjt_id bjt)
       (\<lambda>r. r\<lparr>bj_status := Finished, bj_index_entry := map_option (ToJson (eJ E)) e\<rparr>) (sdb s),
     finishedCountJournal := f, totalCntJournal := tot\<rparr>)"
proof -
  let ?d = "set_rows (\<lambda>r. bj_id r = bjt_id bjt)
       (\<lambda>r. r\<lparr>bj_status := Finished, bj_index_entry := map_option (ToJson (eJ E)) e\<rparr>) (sdb s)"
  have rd: "db_ready ?d" using assms by simp
  let ?f = "finishedCountJournal s + 1"
  show thesis
  proof (cases "?f \<ge> totalCntJournal s")
    case True
    let ?fin = "int (length (filter (is_status Finished) (backup_journal ?d)))"
    let ?tot = "int (length (backup_journal ?d))"
    have "completeTask E bjt e s = (Ret (?fin \<ge> ?tot), s\<lparr>sdb := ?d, finishedCountJournal := ?fin, totalCntJournal := ?tot\<rparr>)"
      using True Complete_run [OF assms] Counts_run [OF rd]
      by (simp add: completeTask_def bindM_def dbM_def zoomM_def)
    then show thesis by (rule that)
  next
    case False
    then have "completeTask E bjt e s = (Ret False, s\<lparr>sdb := ?d, finishedCountJournal := ?f, totalCntJournal := totalCntJournal s\<rparr>)"
      using Complete_run [OF assms] by (simp add: completeTask_def bindM_def dbM_def zoomM_def)
    then show thesis by (rule that)
  qed
qed

text \<open>The part of the engine's state an upload leaves alone.\<close>

definition engine_view :: "('w, 'z) est_scheme \<Rightarrow>
    db \<times> chunkPackerItem list \<times> bytes \<times> int \<times> int \<times> int \<times> BackupStats option" where
  "engine_view s = (sdb s, items s, plaintextChunkBuf s, posInPlaintextChunk s, totalCntJournal s,
     finishedCountJournal s, stats s)"

lemma engine_view_world [simp]:
  "engine_view (s\<lparr>world := w\<rparr>) = engine_view s" "engine_view (s\<lparr>uploadBytes := u\<rparr>) = engine_view s"
  "engine_view (s\<lparr>fdb := d\<rparr>) = engine_view s" "engine_view (s\<lparr>lastPersisted := l\<rparr>) = engine_view s"
  by (simp_all add: engine_view_def)

lemma view_generate: "preserves (\<lambda>s. engine_view s = z) (generateRandomChunkName S)"
  unfolding generateRandomChunkName_def
  by (intro preserves_tryM preserves_sysM preserves_liftGo preserves_retM) simp

lemma view_encrypt: "preserves (\<lambda>s. engine_view s = z) (EncryptBuffer S C key p)"
  by (intro preserves_EncryptBuffer) simp

lemma view_copy_db: "preserves (\<lambda>s. engine_view s = z) copy_db"
  by (rule preservesI) (simp add: copy_db_def split: prod.splits)

lemma view_persist: "preserves (\<lambda>s. engine_view s = z) (persistMemDbToFile E g f)"
  unfolding persistMemDbToFile_def Let_def
  by (intro preserves_bindM preserves_if preserves_nowM preserves_getM view_copy_db preserves_modifyM
      preserves_retM) simp_all

lemma view_upload: "preserves (\<lambda>s. engine_view s = z) (UploadObjFromBuffer S b n x e)"
proof (rule preservesI)
  fix s :: "('a, 'b) est_scheme"
  assume "engine_view s = z"
  moreover obtain r t where "UploadObjFromBuffer S b n x e s = (r, t)" by fastforce
  moreover from this obtain w u where "t = s\<lparr>world := w, uploadBytes := u\<rparr>"
    using upload_loop_world_only unfolding UploadObjFromBuffer_def by blast
  ultimately show "engine_view (snd (UploadObjFromBuffer S b n x e s)) = z" by simp
qed

subsection \<open>Completing a chunk\<close>

text \<open>The store holds the chunk: an object that decrypts, either way, to its plaintext.\<close>

lemma b64encode_no_slash: "CHR ''/'' \<notin> set (b64encode b)"
proof
  assume "CHR ''/'' \<in> set (b64encode b)"
  then have "json_plain (CHR ''/'')" using b64encode_plain [of b] unfolding list_all_iff by blast
  moreover have "\<not> json_plain (CHR ''/'')" by code_simp
  ultimately show False by blast
qed

definition chunk_stored :: "'w benv \<Rightarrow> (string \<Rightarrow> string \<Rightarrow> bytes option) \<Rightarrow> string \<Rightarrow> bytes \<Rightarrow> bool" where
  "chunk_stored E store name plain \<longleftrightarrow> (\<exists>x nonce. store (eBucket E) (''chunks/'' @ name) = Some x \<and>
     DecryptBuffer (eC E) (eKey E) x = Ret (Inr plain) \<and>
     DecryptBufferReturningNonce (eC E) (eKey E) x = Ret (Inr (plain, nonce)) \<and> CHR ''/'' \<notin> set name)"

context backup_env
begin

lemma finalize_items_run:
  assumes "eS E = S" "db_ready (sdb s)"
  shows "\<exists>c t. finalize_items E n its b s = (Ret c, t) \<and> db_ready (sdb t) \<and>
    backup_journal (sdb t) = finish_rows (eJ E) n its (backup_journal (sdb s)) \<and>
    objs (world t) = objs (world s)"
  using assms(2)
proof (induction its arbitrary: b s)
  case Nil
  then show ?case by (simp add: finish_rows_def)
next
  case (Cons i its)
  obtain now w where now: "TimeNow S (world s) = (now, w)" by fastforce
  let ?s1 = "s\<lparr>world := w, sdb := set_last_backup (\<lambda>r. de_id r = DirEntId (cpi_bjt i)) now (sdb s)\<rparr>"
  have u: "updateLastBackupTime E (DirEntId (cpi_bjt i)) s = (Ret (), ?s1)"
    using updateLastBackupTime_run [of s E] Cons.prems now assms(1) by simp
  have rd1: "db_ready (sdb ?s1)" using Cons.prems by simp
  obtain c f tot where c: "completeTask E (cpi_bjt i) (Some (item_crp n i)) ?s1 = (Ret c, ?s1\<lparr>sdb :=
      set_rows (\<lambda>r. bj_id r = bjt_id (cpi_bjt i)) (\<lambda>r. r\<lparr>bj_status := Finished,
        bj_index_entry := map_option (ToJson (eJ E)) (Some (item_crp n i))\<rparr>) (sdb ?s1),
      finishedCountJournal := f, totalCntJournal := tot\<rparr>)" (is "_ = (Ret c, ?s2)")
    by (rule completeTask_run [OF rd1])
  have rd2: "db_ready (sdb ?s2)" using rd1 by simp
  have j2: "backup_journal (sdb ?s2) = map (finish_row (eJ E) n i) (backup_journal (sdb s))"
    by (simp add: finish_row_def)
  from Cons.IH [OF rd2, of c] obtain c' t where t: "finalize_items E n its c ?s2 = (Ret c', t)"
    "db_ready (sdb t)" "backup_journal (sdb t) = finish_rows (eJ E) n its (backup_journal (sdb ?s2))"
    "objs (world t) = objs (world ?s2)" by blast
  have "finalize_items E n (i # its) b s = (Ret c', t)" using u c t(1) by (simp add: bindM_def)
  moreover have "objs (world t) = objs (world s)" using t(4) time_frame [of "world s"] now by simp
  ultimately show ?case using t(2,3) unfolding j2 by (simp add: finish_rows_def)
qed

lemma finish_chunk_run:
  assumes "eS E = S" "db_ready (sdb s)"
  shows "\<exists>c t. finish_chunk E n s = (Ret c, t) \<and> db_ready (sdb t) \<and> items t = [] \<and>
    plaintextChunkBuf t = [] \<and> packer_ok t \<and>
    backup_journal (sdb t) = finish_rows (eJ E) n (items s) (backup_journal (sdb s)) \<and>
    objs (world t) = objs (world s)"
proof -
  from finalize_items_run [OF assms, of n "items s" False] obtain c t
    where t: "finalize_items E n (items s) False s = (Ret c, t)" "db_ready (sdb t)"
      "backup_journal (sdb t) = finish_rows (eJ E) n (items s) (backup_journal (sdb s))"
      "objs (world t) = objs (world s)" by blast
  have "finish_chunk E n s = (Ret c, newChunkPacker t)"
    using t(1) by (simp add: finish_chunk_def bindM_def)
  then show ?thesis using t packer_ok_new [of t] by (simp add: newChunkPacker_def)
qed

lemma frame_generate: "preserves (\<lambda>s. objs (world s) = z) (generateRandomChunkName S)"
  unfolding generateRandomChunkName_def
  by (intro preserves_tryM frame_sysM preserves_liftGo preserves_retM rand_frame)

lemma frame_encrypt: "preserves (\<lambda>s. objs (world s) = z) (EncryptBuffer S C key p)"
  unfolding EncryptBuffer_def Let_def
  by (intro preserves_if preserves_tryM frame_sysM preserves_retM rand_frame)

lemma frame_persist:
  assumes "eS E = S"
  shows "preserves (\<lambda>s. objs (world s) = z) (persistMemDbToFile E g f)"
proof -
  have "preserves (\<lambda>s. objs (world s) = z) copy_db"
    by (rule preservesI) (simp add: copy_db_def split: prod.splits)
  then show ?thesis
    unfolding persistMemDbToFile_def Let_def assms
    by (intro preserves_bindM preserves_if frame_nowM time_frame preserves_getM preserves_modifyM preserves_retM)
      simp_all
qed

text \<open>The two outcomes of completing a chunk that holds something.\<close>

lemma generate_Ret:
  assumes "generateRandomChunkName S s = (Ret name, t)"
  shows "objs (world t) = objs (world s) \<and> CHR ''/'' \<notin> set name"
proof -
  have "objs (world t) = objs (world s)" using preservesD' [OF frame_generate assms] by simp
  moreover from assms have "\<exists>b. name = b64encode b"
    unfolding generateRandomChunkName_def by (elim tryM_RetE) auto
  ultimately show ?thesis using b64encode_no_slash by blast
qed

lemma Complete_cases:
  assumes E: "eS E = S" "clib_ok (eC E)" and rd: "db_ready (sdb s)"
    and buf: "plaintextChunkBuf s \<noteq> []" and run: "Complete E s = (Ret c, t)"
  obtains (failed) name where "\<not> c" "engine_view t = engine_view s"
      "\<And>b n. (b, n) \<noteq> (eBucket E, ''chunks/'' @ name) \<Longrightarrow> objs (world t) b n = objs (world s) b n"
    | (stored) name where "chunk_stored E (objs (world t)) name (plaintextChunkBuf s)"
      "backup_journal (sdb t) = finish_rows (eJ E) name (items s) (backup_journal (sdb s))"
      "items t = []" "plaintextChunkBuf t = []" "packer_ok t" "db_ready (sdb t)"
      "\<And>b n. (b, n) \<noteq> (eBucket E, ''chunks/'' @ name) \<Longrightarrow> objs (world t) b n = objs (world s) b n"
proof -
  let ?buf = "plaintextChunkBuf s"
  let ?view = "\<lambda>s'. engine_view s' = engine_view s"
  let ?same = "\<lambda>s'. objs (world s') = objs (world s)"
  from run obtain name s1 where g: "generateRandomChunkName S s = (Ret name, s1)"
    and r0: "bindM (getM plaintextChunkBuf) (\<lambda>buf. if length buf > 0 then
       tryM (EncryptBuffer S (eC E) (eKey E) buf) (\<lambda>e. liftGo Fatal) (\<lambda>ct.
       bindM (persistMemDbToFile E True False) (\<lambda>_.
       tryM (UploadObjFromBuffer S (eBucket E) (''chunks/'' @ name) ct (ComputeETag (eC E) ct))
         (\<lambda>e. retM False) (\<lambda>_. finish_chunk E name))) else finish_chunk E name) s1 = (Ret c, t)"
    unfolding Complete_def E(1) by (rule bindM_RetE) blast
  have v1: "?view s1" using preservesD' [OF view_generate g] by simp
  have o1: "?same s1" using preservesD' [OF frame_generate g] by simp
  have "plaintextChunkBuf s1 = ?buf" using v1 by (simp add: engine_view_def)
  with r0 buf have r1: "tryM (EncryptBuffer S (eC E) (eKey E) ?buf) (\<lambda>e. liftGo Fatal) (\<lambda>ct.
       bindM (persistMemDbToFile E True False) (\<lambda>_.
       tryM (UploadObjFromBuffer S (eBucket E) (''chunks/'' @ name) ct (ComputeETag (eC E) ct))
         (\<lambda>e. retM False) (\<lambda>_. finish_chunk E name))) s1 = (Ret c, t)" by simp
  from r1 obtain ct s2 where e: "EncryptBuffer S (eC E) (eKey E) ?buf s1 = (Ret (Inr ct), s2)"
    and r2: "(bindM (persistMemDbToFile E True False) (\<lambda>_.
       tryM (UploadObjFromBuffer S (eBucket E) (''chunks/'' @ name) ct (ComputeETag (eC E) ct))
         (\<lambda>e. retM False) (\<lambda>_. finish_chunk E name))) s2 = (Ret c, t)"
    by (elim tryM_RetE) auto
  have v2: "?view s2" using preservesD' [OF view_encrypt e] v1 by simp
  have o2: "?same s2" using preservesD' [OF frame_encrypt e] o1 by simp
  from r2 obtain u s3 where p: "persistMemDbToFile E True False s2 = (Ret u, s3)"
    and r3: "tryM (UploadObjFromBuffer S (eBucket E) (''chunks/'' @ name) ct (ComputeETag (eC E) ct))
         (\<lambda>e. retM False) (\<lambda>_. finish_chunk E name) s3 = (Ret c, t)"
    by (elim bindM_RetE) blast
  have v3: "?view s3" using preservesD' [OF view_persist p] v2 by simp
  have o3: "?same s3" using preservesD' [OF frame_persist [OF E(1)] p] o2 by simp
  from r3 show thesis
  proof (cases rule: tryM_RetE)
    case (err e s4)
    from err(2) have c: "\<not> c" "t = s4" by simp_all
    have "?view s4" using preservesD' [OF view_upload err(1)] v3 by simp
    moreover have "objs (world s4) b n = objs (world s) b n"
      if "(b, n) \<noteq> (eBucket E, ''chunks/'' @ name)" for b n
      using Upload_other [OF err(1) that] o3 by simp
    ultimately show thesis using failed [of name] c by blast
  next
    case (ok a s4)
    have v4: "?view s4" using preservesD' [OF view_upload ok(1)] v3 by simp
    then have st: "sdb s4 = sdb s" "items s4 = items s" by (simp_all add: engine_view_def)
    obtain c' t' where t': "finish_chunk E name s4 = (Ret c', t')" "db_ready (sdb t')" "items t' = []"
      "plaintextChunkBuf t' = []" "packer_ok t'"
      "backup_journal (sdb t') = finish_rows (eJ E) name (items s) (backup_journal (sdb s))"
      "objs (world t') = objs (world s4)"
      using finish_chunk_run [OF E(1), of s4 name] rd unfolding st by blast
    with ok(2) have t: "t' = t" by simp
    from e obtain nonce w where n: "RandRead S 12 (world s1) = (Inr nonce, w)" "aes_key (eKey E)"
      "ct = nonce @ GcmSeal (eC E) (eKey E) nonce (bytes_of_string (gz (eC E) (string_of_bytes ?buf)))"
      by (elim EncryptBuffer_RetE)
    have len: "length nonce = 12" by (rule rand_len [OF n(1)])
    have "objs (world t) (eBucket E) (''chunks/'' @ name) = Some ct"
      using Upload_ok [OF ok(1)] t'(7) t by simp
    then have "chunk_stored E (objs (world t)) name ?buf"
      using DecryptBuffer_seal [OF E(2) n(2) len] DecryptBufferReturningNonce_seal [OF E(2) n(2) len]
        generate_Ret [OF g] unfolding chunk_stored_def n(3) by blast
    moreover have "objs (world t) b n = objs (world s) b n"
      if "(b, n) \<noteq> (eBucket E, ''chunks/'' @ name)" for b n
      using Upload_other [OF ok(1) that] o3 t'(7) t by simp
    ultimately show thesis using stored [of name] t' unfolding t by blast
  qed
qed

end

end
