(* ===== verification/Cache_Props.thy ===== *)
theory Cache_Props
  imports ChunkCache
begin

section \<open>The chunk cache answers what the store holds\<close>

text \<open>
  Every chunk in memory is the decryption of the object of its name; fetching keeps this, changes no
  object, and answers with a slice of that plaintext. Eviction only forgets. When a chunk is bigger
  than the cache the loop that makes room never ends.
\<close>

text \<open>Chunk names have no slash; \<open>q\<close> is apart from the cache when it is none of the paths made from them.\<close>

definition cache_apart :: "string \<Rightarrow> string \<Rightarrow> bool" where
  "cache_apart dir q \<longleftrightarrow> (\<forall>n. CHR ''/'' \<notin> set n \<longrightarrow> join2 dir n \<noteq> q)"

lemma cache_apartD: "cache_apart dir q \<Longrightarrow> CHR ''/'' \<notin> set n \<Longrightarrow> q \<noteq> join2 dir n"
  by (auto simp: cache_apart_def)

definition cache_ok :: "'w renv \<Rightarrow> (string \<Rightarrow> string \<Rightarrow> bytes option) \<Rightarrow> (string \<times> CachedChunk) list \<Rightarrow> bool" where
  "cache_ok E store cs \<longleftrightarrow> (\<forall>n c. map_of cs n = Some c \<longrightarrow> CHR ''/'' \<notin> set n \<and> (\<exists>x. store (rBucket E) (''chunks/'' @ n) = Some x \<and>
     DecryptBufferReturningNonce (rC E) (rKey E) x = Ret (Inr (cc_plaintext c, cc_nonce c))))"

lemma cache_ok_del: "cache_ok E z cs \<Longrightarrow> cache_ok E z (map_del n cs)"
  by (auto simp: cache_ok_def)

lemma cache_ok_put:
  "cache_ok E z cs \<Longrightarrow> z (rBucket E) (''chunks/'' @ n) = Some x \<Longrightarrow>
     DecryptBufferReturningNonce (rC E) (rKey E) x = Ret (Inr (cc_plaintext c, cc_nonce c)) \<Longrightarrow>
     CHR ''/'' \<notin> set n \<Longrightarrow> cache_ok E z (map_put n c cs)"
  by (auto simp: cache_ok_def)

text \<open>What is evicted is a chunk of the cache.\<close>

lemma lru_pick_key: "fst (lru_pick now cs) = [] \<or> map_of cs (fst (lru_pick now cs)) \<noteq> None"
proof -
  have "fst (fold (\<lambda>(objName, c) (lruObjName, lruUnixTime).
     if lastUsedUnixTime c < lruUnixTime then (objName, lastUsedUnixTime c)
     else (lruObjName, lruUnixTime)) xs p) \<in> insert (fst p) (fst ` set xs)" for xs :: "(string \<times> CachedChunk) list" and p
    by (induction xs arbitrary: p) (fastforce split: if_splits)+
  from this [of cs "([], now)"] show ?thesis
    unfolding lru_pick_def map_of_keys_iff by simp
qed

lemma cache_ok_lru: "cache_ok E z cs \<Longrightarrow> CHR ''/'' \<notin> set (fst (lru_pick now cs))"
  using lru_pick_key [of now cs] by (auto simp: cache_ok_def)

lemma not_chunks_prefix: "CHR ''/'' \<notin> set n \<Longrightarrow> TrimPrefix n ''chunks/'' = n"
  by (auto simp: TrimPrefix_def HasPrefix_iff)

context restore_env
begin

text \<open>The invariant of a restore: the store is \<open>z\<close>, the cache agrees with it, and the file \<open>q\<close>,
  which is not in the cache directory \<open>dir\<close>, holds \<open>v\<close>.\<close>

definition fetch_inv :: "'w renv \<Rightarrow> (string \<Rightarrow> string \<Rightarrow> bytes option) \<Rightarrow> string \<Rightarrow> string \<Rightarrow> bytes option
    \<Rightarrow> ('w, 'z) rst_scheme \<Rightarrow> bool" where
  "fetch_inv E z dir q v s \<longleftrightarrow> objs (world s) = z \<and> cache_ok E z (chunks s) \<and> CacheDirectory s = dir \<and>
     fcontent (world s) q = v"

lemma inv_world:
  assumes "\<And>w. objs (snd (f w)) = objs w" "\<And>w. fcontent (snd (f w)) q = fcontent w q"
  shows "preserves (fetch_inv E z dir q v) (sysM f)"
proof (rule preserves_sysM)
  fix s r w assume "fetch_inv E z dir q v s" "f (world s) = (r, w)"
  then show "fetch_inv E z dir q v (s\<lparr>world := w\<rparr>)"
    using assms [of "world s"] by (simp add: fetch_inv_def)
qed

lemma inv_now: "rS E = S \<Longrightarrow> preserves (fetch_inv E z dir q v) (nowM (rS E))"
proof (rule preserves_nowM)
  fix s r w assume "rS E = S" "fetch_inv E z dir q v s" "TimeNow (rS E) (world s) = (r, w)"
  then show "fetch_inv E z dir q v (s\<lparr>world := w\<rparr>)"
    using time_frame [of "world s"] file_same(4) [of "world s" q] by (simp add: fetch_inv_def)
qed

lemma inv_stats: "preserves (fetch_inv E z dir q v) (cstatsM f)"
  unfolding cstatsM_def by (rule preserves_modifyM) (simp add: fetch_inv_def)

lemma inv_dir: "preserves (fetch_inv E z dir q v) (k dir) \<Longrightarrow>
    preserves (fetch_inv E z dir q v) (bindM (getM CacheDirectory) k)"
  by (rule preserves_bind_getM) (simp_all add: fetch_inv_def)

lemma inv_evict:
  assumes "rS E = S" "cache_apart dir q"
  shows "preserves (fetch_inv E z dir q v) (evictLeastRecentlyUsed E)"
proof -
  have rm: "preserves (fetch_inv E z dir q v) (sysM (RemoveFile (rS E) (join2 dir n)))" if "CHR ''/'' \<notin> set n" for n
  proof (rule inv_world)
    have "q \<noteq> join2 dir n" using assms(2) that by (rule cache_apartD)
    then show "fcontent (snd (RemoveFile (rS E) (join2 dir n) w)) q = fcontent w q" for w
      unfolding assms(1) by (rule file_other)
  qed (simp add: assms(1) file_objs)
  have del: "preserves (fetch_inv E z dir q v) (modifyM (\<lambda>s. s\<lparr>chunks := map_del n (chunks s)\<rparr>))" for n
    by (rule preserves_modifyM) (simp add: fetch_inv_def cache_ok_del)
  show ?thesis
    unfolding evictLeastRecentlyUsed_def Let_def
    by (intro preserves_bindM [OF inv_now [OF assms(1)]] preserves_bind_getM_dep [where f = chunks] inv_dir
        preserves_if preserves_bindM [OF inv_stats] preserves_bindM [OF rm] del preserves_retM)
      (rule cache_ok_lru [of E z], simp add: fetch_inv_def)+
qed

lemma inv_evict_loop:
  assumes "rS E = S" "cache_apart dir q"
  shows "preserves (fetch_inv E z dir q v) (evict_loop k E len)"
proof (induction k)
  case (Suc k)
  show ?case unfolding evict_loop.simps
    by (intro preserves_bindM preserves_if preserves_getM inv_evict [OF assms] Suc preserves_retM)
qed (simp only: evict_loop.simps preserves_liftGo)

lemma inv_save:
  assumes "rS E = S" "cache_apart dir q" "CHR ''/'' \<notin> set n"
    and "z (rBucket E) (''chunks/'' @ n) = Some x"
  shows "preserves (fetch_inv E z dir q v) (saveObjToCache E n x)"
proof -
  let ?I = "fetch_inv E z dir q v"
  have put: "preserves ?I (modifyM (\<lambda>s. s\<lparr>chunks := map_put n \<lparr>cc_absPath = p, cc_size = k,
      lastUsedUnixTime = now, cc_plaintext = a, cc_nonce = b\<rparr> (chunks s)\<rparr>))"
    if "DecryptBufferReturningNonce (rC E) (rKey E) x = Ret (Inr (a, b))" for p k now a b
    using that assms(4) by (intro preserves_modifyM) (simp add: fetch_inv_def cache_ok_put assms(3))
  have q: "q \<noteq> join2 dir n" using assms(2,3) by (rule cache_apartD)
  have io: "preserves ?I (sysM (CreateFile (rS E) (join2 dir n)))" "preserves ?I (sysM (WriteFile (rS E) (join2 dir n) x))"
    "preserves ?I (sysM (Chown (rS E) (join2 dir n) u g))" "preserves ?I (sysM (Chmod (rS E) (join2 dir n) m))" for u g m
    using q by (auto intro!: inv_world simp: assms(1) file_objs file_other file_same)
  show ?thesis
    unfolding saveObjToCache_def Let_def not_chunks_prefix [OF assms(3)]
    by (intro inv_dir preserves_bindM [OF inv_evict_loop [OF assms(1,2)]] preserves_tryM io preserves_retM
        preserves_bindM [OF inv_stats] preserves_try_liftGo)
      (auto intro!: preserves_bindM inv_now [OF assms(1)] put inv_stats)
qed

lemma inv_download:
  assumes "rS E = S"
  shows "preserves (fetch_inv E z dir q v) (DownloadObjToBuffer (rS E) b n)"
  unfolding DownloadObjToBuffer_def assms
  by (intro preserves_tryM preserves_bindM inv_world get_frame file_same preserves_retM preserves_modifyM)
    (simp_all add: fetch_inv_def)

text \<open>A successful fetch of a non-empty extent is a slice of what the object decrypts to.\<close>

lemma take_extent_ok:
  assumes "cache_ok E z (chunks s)" "take_extent n off len s = (Ret (Inr (ext, nonce)), t)" "0 < len"
  shows "t = s \<and> (\<exists>x plain. z (rBucket E) (''chunks/'' @ n) = Some x \<and>
    DecryptBufferReturningNonce (rC E) (rKey E) x = Ret (Inr (plain, nonce)) \<and> slice plain off (off + len) = Ret ext)"
proof (cases "map_of (chunks s) n")
  case None
  with assms(2,3) show ?thesis
    by (auto simp: take_extent_def cached_def slice_def bindM_def split: if_splits)
next
  case (Some c)
  with assms(1) obtain x where "z (rBucket E) (''chunks/'' @ n) = Some x"
    "DecryptBufferReturningNonce (rC E) (rKey E) x = Ret (Inr (cc_plaintext c, cc_nonce c))"
    by (auto simp: cache_ok_def)
  with Some assms(2) show ?thesis
    by (auto simp: take_extent_def cached_def bindM_def split: go.splits)
qed

lemma Fetch_ok:
  assumes "rS E = S" "cache_apart dir q" "CHR ''/'' \<notin> set n" "fetch_inv E z dir q v s"
    and "FetchExtentIntoBuffer E (''chunks/'' @ n) off len s = (Ret (Inr (ext, nonce)), t)" "0 < len"
  shows "fetch_inv E z dir q v t \<and> (\<exists>x plain. z (rBucket E) (''chunks/'' @ n) = Some x \<and>
    DecryptBufferReturningNonce (rC E) (rKey E) x = Ret (Inr (plain, nonce)) \<and> slice plain off (off + len) = Ret ext)"
proof -
  let ?I = "fetch_inv E z dir q v"
  have trim: "TrimPrefix (''chunks/'' @ n) ''chunks/'' = n" by (rule TrimPrefix_append)
  note fetch = assms(5) [unfolded FetchExtentIntoBuffer_def Let_def trim]
  define s1 where "s1 = s\<lparr>cstats := (cstats s)\<lparr>cs_total := cs_total (cstats s) + 1\<rparr>\<rparr>"
  have I1: "?I s1" using assms(4) by (simp add: s1_def fetch_inv_def)
  have last: "?I t \<and> (\<exists>x plain. z (rBucket E) (''chunks/'' @ n) = Some x \<and>
      DecryptBufferReturningNonce (rC E) (rKey E) x = Ret (Inr (plain, nonce)) \<and> slice plain off (off + len) = Ret ext)"
    if I: "?I u" and u: "take_extent n off len u = (Ret (Inr (ext, nonce)), t)" for u
    using take_extent_ok [OF _ u assms(6), of E z] I by (simp add: fetch_inv_def)
  show ?thesis
  proof (cases "isObjCached s1 n")
    case True
    let ?s2 = "s1\<lparr>cstats := (cstats s1)\<lparr>cs_hits := cs_hits (cstats s1) + 1\<rparr>\<rparr>"
    have "take_extent n off len ?s2 = (Ret (Inr (ext, nonce)), t)"
      using fetch True by (simp add: cstatsM_def s1_def del: append_Cons)
    moreover have "?I ?s2" using I1 by (simp add: fetch_inv_def)
    ultimately show ?thesis by (rule last [rotated])
  next
    case False
    obtain x s2 where d: "DownloadObjToBuffer (rS E) (rBucket E) (''chunks/'' @ n) s1 = (Ret (Inr x), s2)"
      and r: "bindM (cstatsM (\<lambda>c. c\<lparr>totalChunkDownloads := totalChunkDownloads c + 1\<rparr>)) (\<lambda>_.
        bindM (cstatsM (\<lambda>c. if isPreviouslyEvicted (evictedChunks c) (''chunks/'' @ n)
            then c\<lparr>redownloadedChunks := AppendIfNotPresent (redownloadedChunks c) (''chunks/'' @ n),
                   redownloadedChunksBytes := redownloadedChunksBytes c + int (length x)\<rparr>
            else c)) (\<lambda>_.
        bindM (saveObjToCache E n x) (\<lambda>_. take_extent n off len))) s2 = (Ret (Inr (ext, nonce)), t)"
      using fetch False by (auto simp: cstatsM_def s1_def simp del: append_Cons elim!: tryM_RetE)
    have I2: "?I s2" using preservesD' [OF inv_download [OF assms(1)] d I1] .
    have x: "z (rBucket E) (''chunks/'' @ n) = Some x"
      using Download_ok [OF d [unfolded assms(1)]] I1 by (simp add: fetch_inv_def)
    from r obtain s3 s4 u where "?I s3" and sv: "saveObjToCache E n x s3 = (Ret u, s4)"
      and tk: "take_extent n off len s4 = (Ret (Inr (ext, nonce)), t)"
    proof -
      assume *: "\<And>s3 u s4. ?I s3 \<Longrightarrow> saveObjToCache E n x s3 = (Ret u, s4) \<Longrightarrow>
        take_extent n off len s4 = (Ret (Inr (ext, nonce)), t) \<Longrightarrow> thesis"
      from r show thesis
        by (auto simp: cstatsM_def elim!: bindM_RetE intro!: * simp: fetch_inv_def I2 [unfolded fetch_inv_def])
    qed
    have "preserves ?I (saveObjToCache E n x)"
      using assms(1-3) x by (rule inv_save)
    from preservesD' [OF this sv \<open>?I s3\<close>] have "?I s4" .
    from last [OF this tk] show ?thesis .
  qed
qed

end

subsection \<open>A chunk that does not fit\<close>

lemma evict_returns:
  assumes "\<forall>(n, c) \<in> set (chunks s). 0 \<le> cc_size c"
  shows "\<exists>t. evictLeastRecentlyUsed E s = (Ret (), t) \<and> MaxCacheSizeOnDisk t = MaxCacheSizeOnDisk s \<and>
    (\<forall>(n, c) \<in> set (chunks t). 0 \<le> cc_size c)"
proof -
  have "set (map_del n cs) \<subseteq> set cs" for n and cs :: "(string \<times> CachedChunk) list" by (auto simp: AList.delete_eq)
  then show ?thesis using assms
    by (auto simp: evictLeastRecentlyUsed_def bindM_def nowM_def Let_def cstatsM_def sysM_def split: prod.splits)
qed

lemma totalSize_nonneg:
  assumes "\<forall>(n, c) \<in> set (chunks s). 0 \<le> cc_size c"
  shows "0 \<le> totalSizeOnDisk s"
proof -
  have "0 \<le> a \<Longrightarrow> \<forall>(n, c) \<in> set cs. 0 \<le> cc_size c \<Longrightarrow> 0 \<le> fold (\<lambda>(_, c) accum. accum + cc_size c) cs a"
    for a and cs :: "(string \<times> CachedChunk) list"
    by (induction cs arbitrary: a) auto
  with assms show ?thesis by (simp add: totalSizeOnDisk_def)
qed

lemma evict_loop_spins:
  "MaxCacheSizeOnDisk s < len \<Longrightarrow> (\<forall>(n, c) \<in> set (chunks s). 0 \<le> cc_size c) \<Longrightarrow>
     fst (evict_loop k E len s) = Spin"
proof (induction k arbitrary: s)
  case (Suc k)
  obtain t where t: "evictLeastRecentlyUsed E s = (Ret (), t)" "MaxCacheSizeOnDisk t = MaxCacheSizeOnDisk s"
    "\<forall>(n, c) \<in> set (chunks t). 0 \<le> cc_size c" using evict_returns [OF Suc.prems(2)] by blast
  have "totalSizeOnDisk s + len > MaxCacheSizeOnDisk s"
    using totalSize_nonneg [OF Suc.prems(2)] Suc.prems(1) by simp
  then have "evict_loop (Suc k) E len s = evict_loop k E len t" using t(1) by (simp add: bindM_def)
  with Suc.IH [of t] t Suc.prems(1) show ?case by simp
qed simp

text \<open>
  C34. A restore hangs on a chunk that is bigger than the cache: however many rounds are observed, the
  loop of \<^verbatim>\<open>saveObjToCache\<close> that evicts until there is room is still running, so
  \<^verbatim>\<open>FetchExtentIntoBuffer\<close> does not return. The maximum comes from the configuration, chunks have
  up to 128 MiB.
\<close>

theorem oversize_chunk_hangs:
  assumes "\<not> isObjCached s (TrimPrefix objectName ''chunks/'')"
    and "GetObject (rS E) (rBucket E) objectName (world s) = (Inr x, w)"
    and "MaxCacheSizeOnDisk s < int (length x)" "\<forall>(n, c) \<in> set (chunks s). 0 \<le> cc_size c"
  shows "fst (FetchExtentIntoBuffer E objectName offset lenBytes s) = Spin"
proof -
  have spin: "fst (saveObjToCache E n x u) = Spin"
    if u: "MaxCacheSizeOnDisk u = MaxCacheSizeOnDisk s" "chunks u = chunks s" for n and u
  proof -
    obtain t where "evict_loop (Attempts (rS E)) E (int (length x)) u = (Spin, t)"
      using evict_loop_spins [of u "int (length x)" "Attempts (rS E)" E] assms(3,4) unfolding u [symmetric]
      by (cases "evict_loop (Attempts (rS E)) E (int (length x)) u") auto
    then show ?thesis by (simp add: saveObjToCache_def Let_def bindM_def)
  qed
  have fin: "fst (bindM (saveObjToCache E n x) f u) = Spin"
    if "MaxCacheSizeOnDisk u = MaxCacheSizeOnDisk s" "chunks u = chunks s"
    for n u and f :: "unit \<Rightarrow> (('a, 'b) rst_scheme, goerr + (bytes \<times> bytes)) prog"
    using spin [OF that, of n] by (cases "saveObjToCache E n x u") (simp add: bindM_def)
  let ?s1 = "s\<lparr>cstats := (cstats s)\<lparr>cs_total := cs_total (cstats s) + 1\<rparr>\<rparr>"
  have d: "DownloadObjToBuffer (rS E) (rBucket E) objectName ?s1 =
      (Ret (Inr x), ?s1\<lparr>world := w, downloadBytes := downloadBytes s + int (length x)\<rparr>)"
    using assms(2) by (simp add: DownloadObjToBuffer_def sysM_def tryM_def bindM_def)
  show ?thesis
    using assms(1) by (simp add: FetchExtentIntoBuffer_def Let_def cstatsM_def isObjCached_def tryM_run d fin)
qed

end
