(* ===== verification/Large_Files.thy ===== *)
theory Large_Files
  imports Chunk_Store Cache_Props Restore
begin

section \<open>Large files, there and back\<close>

text \<open>
  A large file is uploaded as a sequence of chunks under consecutive nonces and restored by
  appending the chunks in order. This theory shows that the two fit: the chunks in the store hold the
  header and the data that was read, their nonces count up, and the restored file is what was read.
\<close>

subsection \<open>Nonces count up\<close>

lemma le_dec_bound: "le_dec b < 256 ^ length b"
proof (induction b)
  case (Cons x b)
  have "unat x < 256" using unsigned_less [of x] by simp
  then have "unat x + 256 * le_dec b < 256 * Suc (le_dec b)" by simp
  also have "\<dots> \<le> 256 * 256 ^ length b" using Cons by (intro mult_le_mono2) simp
  finally show ?case by (simp add: mult.commute)
qed simp

lemma be_dec_enc: "n < 256 ^ k \<Longrightarrow> be_dec (be_enc k n) = n"
  by (simp add: be_dec_def be_enc_def le_dec_enc)

lemma length_be_enc [simp]: "length (be_enc k n) = k"
  by (simp add: be_enc_def)

lemma le_dec_replicate: "le_dec (replicate k (-1)) = 256 ^ k - 1"
proof (induction k)
  case (Suc k)
  have "unat (-1 :: byte) = 255" by (simp add: unsigned_minus_1_eq_mask mask_eq_exp_minus_1)
  moreover have "(256 :: nat) ^ k \<ge> 1" by simp
  ultimately show ?case using Suc by (simp add: algebra_simps)
qed simp

lemma le_dec_inj: "length a = length b \<Longrightarrow> le_dec a = le_dec b \<Longrightarrow> a = b"
proof (induction a b rule: list_induct2)
  case (Cons x xs y ys)
  have b: "unat x < 256" "unat y < 256" using unsigned_less [of x] unsigned_less [of y] by simp_all
  have e: "unat x + 256 * le_dec xs = unat y + 256 * le_dec ys" using Cons.prems by simp
  then have "(unat x + 256 * le_dec xs) mod 256 = (unat y + 256 * le_dec ys) mod 256" by simp
  with b have xy: "unat x = unat y" by simp
  with e have "le_dec xs = le_dec ys" by simp
  with Cons.IH xy show ?case by (simp add: word_unat_eq_iff)
qed simp

lemma incrementNonce_Ret:
  "incrementNonce nonce = Ret n \<Longrightarrow> length n = 12 \<and> be_dec n = be_dec nonce + 1"
  by (auto simp: incrementNonce_def Let_def be_dec_enc split: if_splits)

text \<open>
  C22. The nonce that follows a 12-byte nonce has 12 bytes and is the one a restore accepts after it
  (\<^verbatim>\<open>isNonceOneMoreThanPrev\<close>); the only nonce without a successor is the greatest, for which
  \<^verbatim>\<open>incrementNonce\<close> panics instead of wrapping around to a nonce that may have been used.
\<close>

theorem incrementNonce_spec:
  assumes "length nonce = 12"
  shows "(\<forall>n. incrementNonce nonce = Ret n \<longrightarrow> length n = 12 \<and> isNonceOneMoreThanPrev n nonce) \<and>
    (incrementNonce nonce = Panic \<longleftrightarrow> nonce = replicate 12 (-1)) \<and>
    (\<exists>n. incrementNonce nonce = Ret n \<or> incrementNonce nonce = Panic)"
proof -
  have bound: "be_dec nonce < 256 ^ 12" using le_dec_bound [of "rev nonce"] assms by (simp add: be_dec_def)
  have top: "be_dec nonce = 256 ^ 12 - 1 \<longleftrightarrow> nonce = replicate 12 (-1)"
  proof
    assume "be_dec nonce = 256 ^ 12 - 1"
    then have "le_dec (rev nonce) = le_dec (replicate 12 (-1))" by (simp only: be_dec_def le_dec_replicate)
    then have "rev nonce = replicate 12 (-1)" by (rule le_dec_inj [rotated]) (simp add: assms)
    then show "nonce = replicate 12 (-1)" by (metis rev_replicate rev_rev_ident)
  next
    assume "nonce = replicate 12 (-1)"
    then show "be_dec nonce = 256 ^ 12 - 1" by (simp only: be_dec_def rev_replicate le_dec_replicate)
  qed
  let ?z = "be_dec nonce + 1"
  have inc: "incrementNonce nonce = (if ?z < 256 ^ 12 then Ret (be_enc 12 ?z) else Panic)"
    unfolding incrementNonce_def Let_def ..
  have "\<not> ?z < 256 ^ 12 \<longleftrightarrow> be_dec nonce = 256 ^ 12 - 1" using bound by linarith
  then have "incrementNonce nonce = Panic \<longleftrightarrow> be_dec nonce = 256 ^ 12 - 1"
    unfolding inc by (cases "?z < 256 ^ 12") simp_all
  moreover have "length n = 12 \<and> isNonceOneMoreThanPrev n nonce" if "incrementNonce nonce = Ret n" for n
    using incrementNonce_Ret [OF that] by (simp add: isNonceOneMoreThanPrev_def)
  moreover have "\<exists>n. incrementNonce nonce = Ret n \<or> incrementNonce nonce = Panic"
    unfolding inc by (cases "?z < 256 ^ 12") simp_all
  ultimately show ?thesis unfolding top by (intro conjI allI impI) simp_all
qed

theorem incrementNonce_spec_witness:
  "incrementNonce (replicate 12 (-1)) = Panic \<and>
   (\<exists>n. incrementNonce (replicate 12 0) = Ret n \<and> isNonceOneMoreThanPrev n (replicate 12 0))"
proof
  show "incrementNonce (replicate 12 (-1)) = Panic"
    by (rule incrementNonce_spec [OF length_replicate, THEN conjunct2, THEN conjunct1, THEN iffD2, OF refl])
  have "replicate 12 (0 :: byte) \<noteq> replicate 12 (-1)" by (simp add: replicate_eq_replicate)
  then have "incrementNonce (replicate 12 0) \<noteq> Panic"
    using incrementNonce_spec [of "replicate 12 0", OF length_replicate, THEN conjunct2, THEN conjunct1] by metis
  moreover have "\<exists>n. incrementNonce (replicate 12 0) = Ret n \<or> incrementNonce (replicate 12 0) = Panic"
    by (rule incrementNonce_spec [OF length_replicate, THEN conjunct2, THEN conjunct2])
  ultimately obtain n where n: "incrementNonce (replicate 12 0) = Ret n" by metis
  from incrementNonce_spec [OF length_replicate, THEN conjunct1, rule_format, OF n] n
  show "\<exists>n. incrementNonce (replicate 12 0) = Ret n \<and> isNonceOneMoreThanPrev n (replicate 12 0)"
    by (intro exI [of _ n] conjI) simp_all
qed

subsection \<open>Extents in the store\<close>

text \<open>
  The extent \<open>ce\<close> holds the bytes \<open>d\<close> under the nonce \<open>n\<close>: its chunk is in the store, decrypts, and
  has \<open>d\<close> at the extent's place.
\<close>

definition extent_holds :: "clib \<Rightarrow> bytes \<Rightarrow> (string \<Rightarrow> bytes option) \<Rightarrow> ChunkExtent \<Rightarrow> bytes \<Rightarrow> bytes \<Rightarrow> bool" where
  "extent_holds C key store ce d n \<longleftrightarrow> (\<exists>x plain. store (''chunks/'' @ ChunkName ce) = Some x \<and>
     DecryptBufferReturningNonce C key x = Ret (Inr (plain, n)) \<and>
     slice plain (ce_Offset ce) (ce_Offset ce + ce_Len ce) = Ret d \<and>
     0 < ce_Len ce \<and> CHR ''/'' \<notin> set (ChunkName ce))"

fun extents_hold :: "clib \<Rightarrow> bytes \<Rightarrow> (string \<Rightarrow> bytes option) \<Rightarrow> ChunkExtent list \<Rightarrow> bytes list \<Rightarrow> bytes list \<Rightarrow> bool" where
  "extents_hold C key store [] [] [] = True"
| "extents_hold C key store (ce # ces) (d # ds) (n # ns) =
     (extent_holds C key store ce d n \<and> extents_hold C key store ces ds ns)"
| "extents_hold C key store _ _ _ = False"

fun nonces_follow :: "bytes \<Rightarrow> bytes list \<Rightarrow> bool" where
  "nonces_follow prev [] = True"
| "nonces_follow prev (n # ns) \<longleftrightarrow> isNonceOneMoreThanPrev n prev \<and> nonces_follow n ns"

text \<open>The header goes in front of the data of the first read.\<close>

fun with_header :: "nat \<Rightarrow> bytes \<Rightarrow> bytes list \<Rightarrow> bytes list" where
  "with_header i hdr [] = []"
| "with_header i hdr (d # ds) = (if i = 0 then hdr @ d else d) # ds"

lemma with_header_later: "with_header (Suc i) hdr ds = ds"
  by (cases ds) simp_all

lemma extents_hold_mono:
  "extents_hold C key store ces ds ns \<Longrightarrow>
     (\<And>ce. ce \<in> set ces \<Longrightarrow> store' (''chunks/'' @ ChunkName ce) = store (''chunks/'' @ ChunkName ce)) \<Longrightarrow>
     extents_hold C key store' ces ds ns"
proof (induction C key store ces ds ns rule: extents_hold.induct)
  case (2 C key store ce ces d ds n ns)
  have e: "store' (''chunks/'' @ ChunkName ce) = store (''chunks/'' @ ChunkName ce)" by (rule 2(3)) simp
  have "extent_holds C key store' ce d n" using 2(2) unfolding extents_hold.simps extent_holds_def e by blast
  moreover have "extents_hold C key store' ces ds ns" using 2 by simp
  ultimately show ?case by simp
qed simp_all

subsection \<open>Uploading\<close>

context backup_env
begin

lemma backup_chunks_stored:
  assumes E: "eS E = S" "clib_ok (eC E)"
  shows "backup_chunks E hdr (map ReadData ds) i nonce acc s = (Ret (Inr ces), t) \<Longrightarrow>
    (\<forall>d \<in> set ds. d \<noteq> []) \<Longrightarrow>
    \<exists>new ns. ces = acc @ new \<and> length new = length ds \<and> length ns = length ds \<and>
      (case ns of [] \<Rightarrow> True | n # ns' \<Rightarrow> n = nonce \<and> nonces_follow n ns') \<and>
      (distinct (map ChunkName new) \<longrightarrow>
         extents_hold (eC E) (eKey E) (objs (world t) (eBucket E)) new (with_header i hdr ds) ns) \<and>
      (\<forall>b n. b \<noteq> eBucket E \<or> n \<notin> (\<lambda>ce. ''chunks/'' @ ChunkName ce) ` set new \<longrightarrow>
         objs (world t) b n = objs (world s) b n)"
proof (induction ds arbitrary: i nonce acc s)
  case Nil
  then show ?case by (intro exI [of _ "[]"]) simp
next
  case (Cons d ds)
  define rb where "rb = (if i = 0 then hdr @ d else d)"
  obtain ct where ct: "EncryptBufferWithNonce (eC E) (eKey E) rb nonce = Ret (Inr ct)"
    and r1: "bindM (generateRandomChunkName S) (\<lambda>chunkName.
      tryM (UploadObjFromBuffer S (eBucket E) (''chunks/'' @ chunkName) ct (ComputeETag (eC E) ct))
        (\<lambda>e. retM (Inl e)) (\<lambda>_. bindM (liftGo (incrementNonce nonce)) (\<lambda>nonce'.
      backup_chunks E hdr (map ReadData ds) (i + 1) nonce'
        (acc @ [\<lparr>ChunkName = chunkName, ce_Offset = 0, ce_Len = int (length rb)\<rparr>])))) s = (Ret (Inr ces), t)"
    using Cons.prems(1) unfolding rb_def [symmetric] list.map backup_chunks.simps Let_def E(1)
    by (elim tryM_RetE) (auto simp: liftGo_def)
  from r1 obtain name s1 where g: "generateRandomChunkName S s = (Ret name, s1)"
    and r2: "tryM (UploadObjFromBuffer S (eBucket E) (''chunks/'' @ name) ct (ComputeETag (eC E) ct))
        (\<lambda>e. retM (Inl e)) (\<lambda>_. bindM (liftGo (incrementNonce nonce)) (\<lambda>nonce'.
      backup_chunks E hdr (map ReadData ds) (i + 1) nonce'
        (acc @ [\<lparr>ChunkName = name, ce_Offset = 0, ce_Len = int (length rb)\<rparr>]))) s1 = (Ret (Inr ces), t)"
    by (rule bindM_RetE) blast
  from r2 obtain u s2 where up: "UploadObjFromBuffer S (eBucket E) (''chunks/'' @ name) ct (ComputeETag (eC E) ct) s1 = (Ret (Inr u), s2)"
    and r3: "bindM (liftGo (incrementNonce nonce)) (\<lambda>nonce'.
      backup_chunks E hdr (map ReadData ds) (i + 1) nonce'
        (acc @ [\<lparr>ChunkName = name, ce_Offset = 0, ce_Len = int (length rb)\<rparr>])) s2 = (Ret (Inr ces), t)"
    by (rule tryM_RetE) auto
  let ?ce = "\<lparr>ChunkName = name, ce_Offset = 0, ce_Len = int (length rb)\<rparr>"
  from r3 obtain nonce' where inc: "incrementNonce nonce = Ret nonce'"
    and rec: "backup_chunks E hdr (map ReadData ds) (Suc i) nonce' (acc @ [?ce]) s2 = (Ret (Inr ces), t)"
    by (rule bindM_RetE) (auto simp: liftGo_def)
  obtain new ns where IH: "ces = (acc @ [?ce]) @ new" "length new = length ds" "length ns = length ds"
    "case ns of [] \<Rightarrow> True | n # ns' \<Rightarrow> n = nonce' \<and> nonces_follow n ns'"
    "distinct (map ChunkName new) \<longrightarrow>
      extents_hold (eC E) (eKey E) (objs (world t) (eBucket E)) new (with_header (Suc i) hdr ds) ns"
    "\<forall>b n. b \<noteq> eBucket E \<or> n \<notin> (\<lambda>ce. ''chunks/'' @ ChunkName ce) ` set new \<longrightarrow>
         objs (world t) b n = objs (world s2) b n"
    using Cons.IH [OF rec] Cons.prems(2) by auto
  have o2: "objs (world s2) = (objs (world s))(eBucket E := (objs (world s) (eBucket E))(''chunks/'' @ name \<mapsto> ct))"
    using Upload_ok [OF up] generate_Ret [OF g] by simp
  have nz: "rb \<noteq> []" using Cons.prems(2) by (simp add: rb_def)
  have dec: "DecryptBufferReturningNonce (eC E) (eKey E) ct = Ret (Inr (rb, nonce))"
    using EncryptBufferWithNonce_Ret [OF ct] DecryptBufferReturningNonce_seal [OF E(2)] by blast
  have hold: "extent_holds (eC E) (eKey E) (objs (world t) (eBucket E)) ?ce rb nonce"
    if "name \<notin> set (map ChunkName new)"
  proof -
    have "''chunks/'' @ name \<notin> (\<lambda>ce. ''chunks/'' @ ChunkName ce) ` set new" using that by auto
    then have "objs (world t) (eBucket E) (''chunks/'' @ name) = objs (world s2) (eBucket E) (''chunks/'' @ name)"
      using IH(6) by blast
    then have st: "objs (world t) (eBucket E) (''chunks/'' @ name) = Some ct" unfolding o2 by simp
    have "slice rb 0 (0 + int (length rb)) = Ret rb" using slice_all [of rb] by simp
    then show ?thesis using st dec nz generate_Ret [OF g] unfolding extent_holds_def by fastforce
  qed
  have follow: "nonces_follow nonce ns"
    using IH(4) incrementNonce_Ret [OF inc] by (cases ns) (auto simp: isNonceOneMoreThanPrev_def)
  have frame: "\<forall>b n. b \<noteq> eBucket E \<or> n \<notin> (\<lambda>ce. ''chunks/'' @ ChunkName ce) ` set (?ce # new) \<longrightarrow>
      objs (world t) b n = objs (world s) b n"
  proof (intro allI impI)
    fix b n
    assume n: "b \<noteq> eBucket E \<or> n \<notin> (\<lambda>ce. ''chunks/'' @ ChunkName ce) ` set (?ce # new)"
    then have "objs (world t) b n = objs (world s2) b n" using IH(6) by simp
    also have "\<dots> = objs (world s) b n" using n unfolding o2 by auto
    finally show "objs (world t) b n = objs (world s) b n" .
  qed
  show ?case
  proof (intro exI [of _ "?ce # new"] exI [of _ "nonce # ns"] conjI)
    show "distinct (map ChunkName (?ce # new)) \<longrightarrow>
      extents_hold (eC E) (eKey E) (objs (world t) (eBucket E)) (?ce # new) (with_header i hdr (d # ds)) (nonce # ns)"
      using hold IH(5) unfolding with_header_later by (simp add: rb_def)
  qed (use IH follow frame in simp_all)
qed

end

subsection \<open>Restoring\<close>

definition restored_path :: "string \<Rightarrow> string \<Rightarrow> string \<Rightarrow> string \<Rightarrow> string" where
  "restored_path into rootDirName snapshotName relPath =
     Join [into, rootDirName, snapshotName, fst (PathSplit relPath), snd (PathSplit relPath)]"

context restore_env
begin

lemma Fetch_extent:
  assumes "rS E = S" "cache_apart dir q" "fetch_inv E z dir q v s"
    and "extent_holds (rC E) (rKey E) (z (rBucket E)) ce d n"
    and "FetchExtentIntoBuffer E (''chunks/'' @ ChunkName ce) (ce_Offset ce) (ce_Len ce) s = (Ret (Inr (ext, nonce)), t)"
  shows "ext = d \<and> nonce = n \<and> fetch_inv E z dir q v t"
proof -
  from assms(4) obtain x plain where x: "z (rBucket E) (''chunks/'' @ ChunkName ce) = Some x"
    "DecryptBufferReturningNonce (rC E) (rKey E) x = Ret (Inr (plain, n))"
    "slice plain (ce_Offset ce) (ce_Offset ce + ce_Len ce) = Ret d"
    "0 < ce_Len ce" "CHR ''/'' \<notin> set (ChunkName ce)" unfolding extent_holds_def by blast
  have "fetch_inv E z dir q v t \<and> (\<exists>x plain. z (rBucket E) (''chunks/'' @ ChunkName ce) = Some x \<and>
    DecryptBufferReturningNonce (rC E) (rKey E) x = Ret (Inr (plain, nonce)) \<and>
    slice plain (ce_Offset ce) (ce_Offset ce + ce_Len ce) = Ret ext)"
    using assms(1,2) x(5) assms(3,5) x(4) by (rule Fetch_ok)
  with x show ?thesis by auto
qed

lemma write_inv:
  assumes "fetch_inv E z dir q (Some c) s" "sysM (WriteFile S q d) s = (Ret (Inr u), t)"
  shows "fetch_inv E z dir q (Some (c @ d)) t"
proof -
  obtain w where w: "WriteFile S q d (world s) = (Inr u, w)" "t = s\<lparr>world := w\<rparr>"
    using assms(2) by (auto simp: sysM_def split: prod.splits)
  have "objs w = objs (world s)" using file_objs(2) [of q d "world s"] w(1) by simp
  moreover have "fcontent w q = Some (c @ d)"
    using write_ok [OF w(1)] assms(1) by (simp add: fetch_inv_def)
  ultimately show ?thesis using assms(1) w(2) by (simp add: fetch_inv_def)
qed

lemma restore_chunks_content:
  assumes E: "rS E = S" "cache_apart dir q"
  shows "extents_hold (rC E) (rKey E) (z (rBucket E)) ces ds ns \<Longrightarrow> fetch_inv E z dir q (Some c) s \<Longrightarrow>
    restore_chunks E q ces prev b s = (Ret r, t) \<Longrightarrow>
    fetch_inv E z dir q (Some (c @ concat ds)) t \<and> r = (b \<and> nonces_follow prev ns)"
proof (induction "rC E" "rKey E" "z (rBucket E)" ces ds ns arbitrary: c s prev b rule: extents_hold.induct)
  case 1
  then show ?case by simp
next
  case (2 ce ces d ds n ns)
  from 2(4) obtain ext nonce s1 where f: "FetchExtentIntoBuffer E (''chunks/'' @ ChunkName ce) (ce_Offset ce) (ce_Len ce) s
        = (Ret (Inr (ext, nonce)), s1)"
    and r1: "tryM (sysM (WriteFile S q ext)) (\<lambda>e. liftGo Fatal) (\<lambda>_.
     restore_chunks E q ces nonce (b \<and> isNonceOneMoreThanPrev nonce prev)) s1 = (Ret r, t)"
    unfolding restore_chunks.simps E(1) by (elim tryM_RetE) auto
  have h: "extent_holds (rC E) (rKey E) (z (rBucket E)) ce d n" using 2(2) by simp
  have "ext = d \<and> nonce = n \<and> fetch_inv E z dir q (Some c) s1" using E 2(3) h f by (rule Fetch_extent)
  then have e: "ext = d" "nonce = n" and I1: "fetch_inv E z dir q (Some c) s1" by auto
  from r1 obtain u s2 where w: "sysM (WriteFile S q d) s1 = (Ret (Inr u), s2)"
    and r2: "restore_chunks E q ces n (b \<and> isNonceOneMoreThanPrev n prev) s2 = (Ret r, t)"
    unfolding e by (elim tryM_RetE) auto
  from 2(1) [OF _ write_inv [OF I1 w] r2] 2(2) show ?case by simp
qed simp_all

text \<open>What happens before the file is created, and to its attributes afterwards.\<close>

definition dir_inv :: "'w renv \<Rightarrow> (string \<Rightarrow> string \<Rightarrow> bytes option) \<Rightarrow> string \<Rightarrow> ('w, 'z) rst_scheme \<Rightarrow> bool" where
  "dir_inv E z dir s \<longleftrightarrow> objs (world s) = z \<and> cache_ok E z (chunks s) \<and> CacheDirectory s = dir"

lemma dir_inv_world: "(\<And>w. objs (snd (f w)) = objs w) \<Longrightarrow> preserves (dir_inv E z dir) (sysM f)"
proof (rule preserves_sysM)
  fix s r w assume f: "\<And>w. objs (snd (f w)) = objs w" and "dir_inv E z dir s" "f (world s) = (r, w)"
  then show "dir_inv E z dir (s\<lparr>world := w\<rparr>)" using f [of "world s"] by (simp add: dir_inv_def)
qed

lemma dir_inv_fullPath: "preserves (dir_inv E z dir) (createFullPath S p1 p2 p3 p4 m u g)"
proof -
  note w = dir_inv_world [OF file_objs(3)] dir_inv_world [OF file_objs(4)] dir_inv_world [OF file_objs(6)]
    dir_inv_world [OF file_objs(7)]
  have "preserves (dir_inv E z dir) (case r of
      Inl e \<Rightarrow> if e = ErrNotExist then sysM (MkdirAll S p m) else liftGo Panic
    | Inr info \<Rightarrow> if and (fi_mode info) 0x0000ffff \<noteq> m then sysM (Chmod S p m) else retM (Inr ()))" for r p
    by (cases r) (auto intro!: w preserves_liftGo preserves_retM simp only: sum.case split: if_splits)
  then show ?thesis unfolding createFullPath_def Let_def
    by (intro preserves_tryM preserves_bindM preserves_if preserves_retM w)
qed

lemma fetch_inv_set_xattrs:
  "preserves (fetch_inv E z dir q v) (set_xattr_lines S p ls)"
proof (induction ls)
  case (Cons l ls)
  have "preserves (fetch_inv E z dir q v) (sysM (XattrSet S p k d))" for k d
    by (intro inv_world file_objs file_same)
  with Cons show ?case
    by (auto intro!: preserves_tryM preserves_retM split: sum.splits prod.splits)
qed (simp add: preserves_def)

lemma fetch_inv_xattrs: "preserves (fetch_inv E z dir q v) (deserializeAndSetXAttrs S p x)"
  unfolding deserializeAndSetXAttrs_def by (intro preserves_if preserves_retM fetch_inv_set_xattrs)

lemma restore_file_content:
  assumes E: "rS E = S" "cache_apart dir (restored_path into root snap rel)"
    and hold: "extents_hold (rC E) (rKey E) (z (rBucket E)) ces ds ns" and I: "dir_inv E z dir s"
    and run: "restore_file E into root snap rel md contents ces prev s = (Ret (Inr u), t)"
  shows "fetch_inv E z dir (restored_path into root snap rel) (Some (contents @ concat ds)) t"
proof -
  obtain d f where pf: "PathSplit rel = (d, f)" by fastforce
  define q where "q = Join [into, root, snap, d, f]"
  have q: "restored_path into root snap rel = q" by (simp add: restored_path_def pf q_def)
  from run obtain s1 s2 s3 s4 s5 r s6 where
      p1: "createFullPath S into root snap d mode_0755 (r_uid E) (r_gid E) s = (Ret (Inr ()), s1)"
    and p2: "sysM (CreateFile S q) s1 = (Ret (Inr ()), s2)"
    and p3: "sysM (Chmod S q (md_Mode md)) s2 = (Ret (Inr ()), s3)"
    and p4: "sysM (WriteFile S q contents) s3 = (Ret (Inr ()), s4)"
    and p5: "restore_chunks E q ces prev True s4 = (Ret r, s5)"
    and p6: "deserializeAndSetXAttrs S q (XAttrs md) s5 = (Ret (Inr ()), s6)"
    and p7: "sysM (Chown S q (r_uid E) (r_gid E)) s6 = (Ret (Inr ()), t)"
    unfolding restore_file_def pf Let_def prod.case q_def [symmetric] E(1)
    by (auto elim!: tryM_RetE bindM_RetE)
  have I1: "dir_inv E z dir s1" using preservesD' [OF dir_inv_fullPath p1 I] .
  have I2: "fetch_inv E z dir q (Some []) s2"
  proof -
    obtain w where w: "CreateFile S q (world s1) = (Inr (), w)" "s2 = s1\<lparr>world := w\<rparr>"
      using p2 by (auto simp: sysM_def split: prod.splits)
    have "objs w = objs (world s1)" using file_objs(1) [of q "world s1"] w(1) by simp
    then show ?thesis using create_ok [OF w(1)] I1 w(2) by (simp add: fetch_inv_def dir_inv_def)
  qed
  have "preserves (fetch_inv E z dir q v) (sysM (Chmod S q m))" for v m by (intro inv_world file_objs file_same)
  from preservesD' [OF this p3 I2] have I3: "fetch_inv E z dir q (Some []) s3" .
  have I4: "fetch_inv E z dir q (Some contents) s4" using write_inv [OF I3 p4] by simp
  have E2: "cache_apart dir q" using E(2) unfolding q .
  have I5: "fetch_inv E z dir q (Some (contents @ concat ds)) s5"
    using restore_chunks_content [OF E(1) E2 hold I4 p5] by blast
  have I6: "fetch_inv E z dir q (Some (contents @ concat ds)) s6"
    using preservesD' [OF fetch_inv_xattrs p6 I5] .
  have "preserves (fetch_inv E z dir q v) (sysM (Chown S q i j))" for v i j by (intro inv_world file_objs file_same)
  from preservesD' [OF this p7 I6] show ?thesis unfolding q .
qed

text \<open>Restoring a file puts the bytes after the header, and those of the further extents, into it.\<close>

lemma RestoreDirEntry_content:
  assumes E: "rS E = S" "cache_apart (CacheDirectory s) (restored_path (StripTrailingSlashes into) root snap rel)"
    and hold: "extents_hold (rC E) (rKey E) (objs (world s) (rBucket E)) (ChunkExtents crp) (d # ds) ns"
    and cache: "cache_ok E (objs (world s)) (chunks s)"
    and md: "deserializeMetadataStruct (rG E) d = Ret (Inr (md, contents))" "\<not> IsSymlink md" "\<not> IsDir md"
    and run: "RestoreDirEntry E into crp root snap rel s = (Ret (Inr u), t)"
  shows "fcontent (world t) (restored_path (StripTrailingSlashes into) root snap rel) = Some (contents @ concat ds) \<and>
    objs (world t) = objs (world s) \<and> cache_ok E (objs (world t)) (chunks t)"
proof -
  let ?q = "restored_path (StripTrailingSlashes into) root snap rel"
  let ?z = "objs (world s)"
  let ?dir = "CacheDirectory s"
  obtain ce ces n ns' where ces: "ChunkExtents crp = ce # ces" "ns = n # ns'"
    using hold by (cases "ChunkExtents crp"; cases ns) auto
  have h: "extent_holds (rC E) (rKey E) (?z (rBucket E)) ce d n"
    and hs: "extents_hold (rC E) (rKey E) (?z (rBucket E)) ces ds ns'" using hold ces by simp_all
  obtain ext nonce s1 where f: "FetchExtentIntoBuffer E (''chunks/'' @ ChunkName ce) (ce_Offset ce) (ce_Len ce) s
      = (Ret (Inr (ext, nonce)), s1)"
    and r1: "tryM (liftGo (deserializeMetadataStruct (rG E) ext)) (\<lambda>e. retM (Inl e)) (\<lambda>(md, fileContents).
          if IsSymlink md then restore_symlink E (StripTrailingSlashes into) root snap rel md
          else if IsDir md then restore_dir E (StripTrailingSlashes into) root snap rel md
          else restore_file E (StripTrailingSlashes into) root snap rel md fileContents ces nonce) s1 = (Ret (Inr u), t)"
    using run unfolding RestoreDirEntry_def Let_def ces(1) list.case by (elim tryM_RetE) auto
  have I0: "fetch_inv E ?z ?dir ?q (fcontent (world s) ?q) s" using cache by (simp add: fetch_inv_def)
  have "ext = d \<and> nonce = n \<and> fetch_inv E ?z ?dir ?q (fcontent (world s) ?q) s1"
    using E I0 h f by (rule Fetch_extent)
  then have e: "ext = d" and I1: "dir_inv E ?z ?dir s1" by (auto simp: fetch_inv_def dir_inv_def)
  have r2: "restore_file E (StripTrailingSlashes into) root snap rel md contents ces nonce s1 = (Ret (Inr u), t)"
    using r1 md unfolding e by (auto elim!: tryM_RetE simp: liftGo_def)
  from restore_file_content [OF E hs I1 r2] show ?thesis by (simp add: fetch_inv_def)
qed

end

end
