(* ===== verification/Roundtrip.thy ===== *)
theory Roundtrip
  imports Large_Files Serde
begin

section \<open>What is backed up can be restored\<close>

text \<open>
  Backup and restore composed. A small file goes with others into the chunk packer and from there,
  when the chunk is complete, to the store and the journal; a large one is cut into chunks of its own.
  In both cases the extents that end up in the index give the contents of the file back.
\<close>

subsection \<open>What an index entry promises\<close>

text \<open>
  An entry \<open>crp\<close> restores \<open>contents\<close> from \<open>store\<close> when every successful \<^verbatim>\<open>RestoreDirEntry\<close> of it, with
  a cache that agrees with the store and does not lie in the way of the restored file, leaves these
  contents in the file.
\<close>

definition restores :: "('w \<Rightarrow> string \<Rightarrow> string \<Rightarrow> bytes option) \<Rightarrow> ('w \<Rightarrow> string \<Rightarrow> bytes option) \<Rightarrow> 'w renv
    \<Rightarrow> (string \<Rightarrow> string \<Rightarrow> bytes option) \<Rightarrow> CloudRelPath \<Rightarrow> bytes \<Rightarrow> bool" where
  "restores objs fcontent R store crp contents \<longleftrightarrow>
     (\<forall>into root snap rel (r :: 'w rst) r'.
        objs (world r) = store \<longrightarrow> cache_ok R store (chunks r) \<longrightarrow>
        (cache_apart (CacheDirectory r) (restored_path (StripTrailingSlashes into) root snap rel)) \<longrightarrow>
        RestoreDirEntry R into crp root snap rel r = (Ret (Inr ()), r') \<longrightarrow>
        fcontent (world r') (restored_path (StripTrailingSlashes into) root snap rel) = Some contents)"

lemma header_back:
  assumes "gob_ok G" "serializeMetadataStruct G md = Inr hdr" "length hdr < 2 ^ 63"
  shows "deserializeMetadataStruct G (hdr @ contents) = Ret (Inr (md, contents))" "hdr \<noteq> []"
proof -
  show "deserializeMetadataStruct G (hdr @ contents) = Ret (Inr (md, contents))"
    using deserialize_serialize [OF assms] .
  have "8 \<le> length hdr" using assms(2) by (auto simp: serializeMetadataStruct_def split: sum.splits)
  then show "hdr \<noteq> []" by auto
qed

context restore_env
begin

lemma extents_restore:
  assumes "rS R = S" "extents_hold (rC R) (rKey R) (store (rBucket R)) (ChunkExtents crp) (d # ds) ns"
    and "deserializeMetadataStruct (rG R) d = Ret (Inr (md, contents))" "\<not> IsSymlink md" "\<not> IsDir md"
  shows "restores objs fcontent R store crp (contents @ concat ds)"
  unfolding restores_def
proof (intro allI impI)
  fix into root snap rel and r r' :: "'w rst"
  assume r: "objs (world r) = store" "cache_ok R store (chunks r)"
    "cache_apart (CacheDirectory r) (restored_path (StripTrailingSlashes into) root snap rel)"
    "RestoreDirEntry R into crp root snap rel r = (Ret (Inr ()), r')"
  from RestoreDirEntry_content [OF assms(1) r(3) _ _ assms(3-5) r(4)] assms(2) r(1,2)
  show "fcontent (world r') (restored_path (StripTrailingSlashes into) root snap rel) = Some (contents @ concat ds)"
    by simp
qed

end

subsection \<open>Small files\<close>

text \<open>Adding entries until one is refused.\<close>

fun pack_all :: "(string \<times> bytes \<times> BackupJournalTask) list \<Rightarrow> (('w, 'z) est_scheme, bool) prog" where
  "pack_all [] = retM True"
| "pack_all ((relPath, buf, bjt) # es) =
     bindM (AddDirEntry relPath buf bjt) (\<lambda>ok. if ok then pack_all es else retM False)"

lemma pack_all_holds:
  "packer_ok s \<Longrightarrow> pack_all es s = (Ret True, t) \<Longrightarrow>
     packer_ok t \<and> sdb t = sdb s \<and> (\<forall>j b. holds s j b \<longrightarrow> holds t j b) \<and>
     set (items s) \<subseteq> set (items t) \<and>
     (\<forall>(rel, buf, bjt) \<in> set es. \<exists>i \<in> set (items t). cpi_relPath i = rel \<and> cpi_bjt i = bjt \<and> holds t i buf)"
proof (induction es arbitrary: s)
  case (Cons e es)
  obtain rel buf bjt where e: "e = (rel, buf, bjt)" by (cases e) auto
  from Cons.prems(2) obtain s1 where add: "AddDirEntry rel buf bjt s = (Ret True, s1)"
    and rest: "pack_all es s1 = (Ret True, t)"
    unfolding e by (auto elim!: bindM_RetE split: if_splits)
  from AddDirEntry_holds [OF Cons.prems(1) add] obtain i where
    i: "items s1 = items s @ [i]" "cpi_relPath i = rel" "cpi_bjt i = bjt" "holds s1 i buf"
      "\<forall>j b. holds s j b \<longrightarrow> holds s1 j b" "packer_ok s1" by blast
  have "sdb s1 = sdb s" using add by (auto simp: AddDirEntry_run split: if_splits)
  with Cons.IH [OF i(6) rest] i show ?case unfolding e by auto
qed simp

lemma holds_len: "holds s i b \<Longrightarrow> cpi_Len i = int (length b)"
  by (auto simp: holds_def slice_def split: if_splits)

lemma stored_extent:
  assumes "chunk_stored E store name (plaintextChunkBuf s)" "holds s i b" "b \<noteq> []"
  shows "\<exists>n. extents_hold (eC E) (eKey E) (store (eBucket E)) (ChunkExtents (item_crp name i)) [b] [n]"
  using assms holds_len [OF assms(2)] by (auto simp: chunk_stored_def extent_holds_def item_crp_def holds_def)

text \<open>
  C1. Backing up small files and restoring them. Entries are added to the packer, and all fit, and the
  chunk is completed. Then either the upload failed and the engine is as before, with everything still
  pending, or the journal row of every file added is finished with an index entry for its path that
  restores exactly the contents of the file.
\<close>

theorem packed_file_roundtrip:
  fixes s s1 t :: "('w, 'z) est_scheme" and R :: "'w renv"
  assumes env: "restore_env (eS E) objs fcontent" "clib_ok (eC E)" "gob_ok (eG E)"
    and R: "rS R = eS E" "rC R = eC E" "rG R = eG E" "rKey R = eKey E" "rBucket R = eBucket E"
    and start: "db_ready (sdb s)" "packer_ok s"
    and run: "pack_all es s = (Ret True, s1)" "Complete E s1 = (Ret c, t)"
    and tasks: "distinct (map (\<lambda>i. bjt_id (cpi_bjt i)) (items s1))"
    and entry: "(rel, hdr @ contents, bjt) \<in> set es" "serializeMetadataStruct (eG E) md = Inr hdr"
      "length hdr < 2 ^ 63" "\<not> IsSymlink md" "\<not> IsDir md"
  shows "\<not> c \<and> engine_view t = engine_view s1 \<or>
    (\<exists>crp. RelPath crp = rel \<and> restores objs fcontent R (objs (world t)) crp contents \<and>
       (\<forall>row \<in> set (backup_journal (sdb s)). bj_id row = bjt_id bjt \<longrightarrow>
          row\<lparr>bj_status := Finished, bj_index_entry := Some (ToJson (eJ E) crp)\<rparr> \<in> set (backup_journal (sdb t))))"
proof -
  note benv = restore_env.axioms(1) [OF env(1)]
  note p = pack_all_holds [OF start(2) run(1)]
  from p entry(1) obtain i where i: "i \<in> set (items s1)" "cpi_relPath i = rel" "cpi_bjt i = bjt"
    "holds s1 i (hdr @ contents)" by fast
  note hd = header_back [OF env(3) entry(2,3)]
  have buf: "plaintextChunkBuf s1 \<noteq> []"
  proof
    assume "plaintextChunkBuf s1 = []"
    with i(4) hd(2) show False by (auto simp: holds_def slice_def split: if_splits)
  qed
  have rd: "db_ready (sdb s1)" using p start(1) by simp
  show ?thesis
  proof (rule backup_env.Complete_cases [OF benv refl env(2) rd buf run(2)], goal_cases)
    case (1 name)
    then show ?thesis by blast
  next
    case (2 name)
    let ?crp = "item_crp name i"
    obtain n where "extents_hold (rC R) (rKey R) (objs (world t) (rBucket R)) (ChunkExtents ?crp) [hdr @ contents] [n]"
      using stored_extent [OF 2(1) i(4)] hd(2) R by auto
    from restore_env.extents_restore [where store = "objs (world t)", OF env(1) R(1) this _ entry(4,5)] hd(1) R(3)
    have "restores objs fcontent R (objs (world t)) ?crp contents" by simp
    moreover have "row\<lparr>bj_status := Finished, bj_index_entry := Some (ToJson (eJ E) ?crp)\<rparr> \<in> set (backup_journal (sdb t))"
      if row: "row \<in> set (backup_journal (sdb s))" "bj_id row = bjt_id bjt" for row
    proof -
      have "fold (finish_row (eJ E) name) (items s1) row \<in> set (backup_journal (sdb t))"
        using row(1) p by (simp add: 2(2) finish_rows_map)
      then show ?thesis using fold_finish_row [OF tasks i(1), of row] row(2) i(3) by simp
    qed
    ultimately show ?thesis using i(2) by (intro disjI2 exI [of _ ?crp]) (auto simp: item_crp_def)
  qed
qed

subsection \<open>Large files\<close>

text \<open>What a large backup leaves behind, as the extents, the pieces they hold and their nonces.\<close>

lemma backup_large_stored:
  fixes s t :: "('w, 'z) gst_scheme"
  assumes env: "backup_env (eS E) objs" "clib_ok (eC E)"
    and opened: "fst (OpenFile (eS E) absPath (snd (RandRead (eS E) 12 (world s)))) = Inr f"
      "gf_reads f (nat ChunkSize) = map ReadData (d # ds)" "\<forall>x \<in> set (d # ds). x \<noteq> []"
    and run: "backup_large E absPath hdr s = (Ret (Inr (ces, pending)), t)"
    and names: "distinct (map ChunkName ces)"
  shows "\<not> pending \<and> length ces = Suc (length ds) \<and>
    (\<exists>n ns. extents_hold (eC E) (eKey E) (objs (world t) (eBucket E)) ces ((hdr @ d) # ds) (n # ns) \<and> nonces_follow n ns) \<and>
    (\<forall>b n. b \<noteq> eBucket E \<or> n \<notin> (\<lambda>ce. ''chunks/'' @ ChunkName ce) ` set ces \<longrightarrow>
       objs (world t) b n = objs (world s) b n)"
proof -
  from run obtain nonce s1 where n: "sysM (RandRead (eS E) 12) s = (Ret (Inr nonce), s1)"
    and r1: "tryM (sysM (OpenFile (eS E) absPath)) (\<lambda>e. retM (Inl e)) (\<lambda>f.
      tryM (backup_chunks E hdr (gf_reads f (nat ChunkSize)) 0 nonce []) (\<lambda>e. retM (Inl e))
       (\<lambda>chunkExtents. retM (Inr (chunkExtents, False)))) s1 = (Ret (Inr (ces, pending)), t)"
    unfolding backup_large_def by (rule tryM_RetE) auto
  from n opened(1) have "fst (OpenFile (eS E) absPath (world s1)) = Inr f"
    by (auto simp: sysM_def split: prod.splits)
  then obtain w where "OpenFile (eS E) absPath (world s1) = (Inr f, w)" by (cases "OpenFile (eS E) absPath (world s1)") auto
  then obtain s2 where op: "sysM (OpenFile (eS E) absPath) s1 = (Ret (Inr f), s2)" by (simp add: sysM_def)
  have r2: "tryM (backup_chunks E hdr (map ReadData (d # ds)) 0 nonce []) (\<lambda>e. retM (Inl e))
       (\<lambda>chunkExtents. retM (Inr (chunkExtents, False))) s2 = (Ret (Inr (ces, pending)), t)"
    using r1 unfolding tryM_run(1) [of "sysM (OpenFile (eS E) absPath)" s1 f s2, OF op] opened(2) .
  from r2 have bc: "backup_chunks E hdr (map ReadData (d # ds)) 0 nonce [] s2 = (Ret (Inr ces), t)" and p: "\<not> pending"
    by (elim tryM_RetE; simp del: backup_chunks.simps)+
  from backup_env.backup_chunks_stored [OF env(1) refl env(2) bc opened(3)] names obtain ns where
    ns: "length ces = Suc (length ds)" "length ns = Suc (length ds)"
      "case ns of [] \<Rightarrow> True | n # ns' \<Rightarrow> n = nonce \<and> nonces_follow n ns'"
      "extents_hold (eC E) (eKey E) (objs (world t) (eBucket E)) ces ((hdr @ d) # ds) ns"
      "\<forall>b n. b \<noteq> eBucket E \<or> n \<notin> (\<lambda>ce. ''chunks/'' @ ChunkName ce) ` set ces \<longrightarrow> objs (world t) b n = objs (world s2) b n"
    by auto
  have "objs (world s2) = objs (world s)"
    using n op backup_env.open_frame [OF env(1), of absPath "world s1"]
      object_store.rand_frame [OF backup_env.axioms(1) [OF env(1)], of 12 "world s"]
    by (auto simp: sysM_def split: prod.splits)
  with ns p show ?thesis by (cases ns) auto
qed

text \<open>
  C2. Backing up a large file and restoring it. If the file is read as the nonempty pieces \<open>d # ds\<close>, each
  is uploaded as a chunk of its own, the header in front of the first; the extents restore exactly the
  contents of the file, and no other object is touched. Chunk names are 32 random bytes; that they do
  not collide is assumed.
\<close>

theorem large_file_roundtrip:
  fixes s t :: "('w, 'z) gst_scheme"
  assumes env: "restore_env (eS E) objs fcontent" "clib_ok (eC E)" "gob_ok (eG E)"
    and R: "rS R = eS E" "rC R = eC E" "rG R = eG E" "rKey R = eKey E" "rBucket R = eBucket E"
    and opened: "fst (OpenFile (eS E) absPath (snd (RandRead (eS E) 12 (world s)))) = Inr f"
      "gf_reads f (nat ChunkSize) = map ReadData (d # ds)" "\<forall>x \<in> set (d # ds). x \<noteq> []"
    and header: "serializeMetadataStruct (eG E) md = Inr hdr" "length hdr < 2 ^ 63" "\<not> IsSymlink md" "\<not> IsDir md"
    and run: "backup_large E absPath hdr s = (Ret (Inr (ces, pending)), t)"
    and names: "distinct (map ChunkName ces)"
  shows "\<not> pending \<and> length ces = Suc (length ds) \<and>
    restores objs fcontent R (objs (world t)) \<lparr>RelPath = rel, ChunkExtents = ces\<rparr> (concat (d # ds)) \<and>
    (\<forall>b n. b \<noteq> eBucket E \<or> n \<notin> (\<lambda>ce. ''chunks/'' @ ChunkName ce) ` set ces \<longrightarrow>
       objs (world t) b n = objs (world s) b n)"
proof -
  note st = backup_large_stored [OF restore_env.axioms(1) [OF env(1)] env(2) opened run names]
  then obtain n ns where h: "extents_hold (rC R) (rKey R) (objs (world t) (rBucket R))
      (ChunkExtents \<lparr>RelPath = rel, ChunkExtents = ces\<rparr>) ((hdr @ d) # ds) (n # ns)"
    using R by auto
  have "restores objs fcontent R (objs (world t)) \<lparr>RelPath = rel, ChunkExtents = ces\<rparr> (d @ concat ds)"
    using header_back(1) [OF env(3) header(1,2), of d] R(3)
    by (intro restore_env.extents_restore [where store = "objs (world t)", OF env(1) R(1) h _ header(3,4)]) simp
  with st show ?thesis by simp
qed

text \<open>
  C21. The chunks of a large file are encrypted under consecutive nonces, so the check that restore makes
  while it writes them never warns: restoring all chunks after the first reports that each nonce
  followed its predecessor.
\<close>

theorem large_file_nonces:
  fixes s t :: "('w, 'z) gst_scheme" and r r' :: "('w, 'y) rst_scheme"
  assumes env: "restore_env (eS E) objs fcontent" "clib_ok (eC E)"
    and R: "rS R = eS E" "rC R = eC E" "rKey R = eKey E" "rBucket R = eBucket E"
    and opened: "fst (OpenFile (eS E) absPath (snd (RandRead (eS E) 12 (world s)))) = Inr f"
      "gf_reads f (nat ChunkSize) = map ReadData (d # ds)" "\<forall>x \<in> set (d # ds). x \<noteq> []"
    and run: "backup_large E absPath hdr s = (Ret (Inr (ce # ces, pending)), t)"
    and names: "distinct (map ChunkName (ce # ces))"
  shows "\<exists>nonce. extent_holds (eC E) (eKey E) (objs (world t) (eBucket E)) ce (hdr @ d) nonce \<and>
    (\<forall>ok. objs (world r) = objs (world t) \<longrightarrow> cache_ok R (objs (world r)) (chunks r) \<longrightarrow>
       (cache_apart (CacheDirectory r) q) \<longrightarrow> fcontent (world r) q = Some d \<longrightarrow>
       restore_chunks R q ces nonce True r = (Ret ok, r') \<longrightarrow>
       ok \<and> fcontent (world r') q = Some (d @ concat ds))"
proof -
  from backup_large_stored [OF restore_env.axioms(1) [OF env(1)] env(2) opened run names] obtain n ns where
    n: "extent_holds (eC E) (eKey E) (objs (world t) (eBucket E)) ce (hdr @ d) n" "nonces_follow n ns"
      "extents_hold (rC R) (rKey R) (objs (world t) (rBucket R)) ces ds ns"
    using R by auto
  have "ok \<and> fcontent (world r') q = Some (d @ concat ds)"
    if r: "objs (world r) = objs (world t)" "cache_ok R (objs (world r)) (chunks r)"
      "cache_apart (CacheDirectory r) q" "fcontent (world r) q = Some d"
      "restore_chunks R q ces n True r = (Ret ok, r')" for ok
    using restore_env.restore_chunks_content [where z = "objs (world t)" and c = d, OF env(1) R(1) r(3) n(3) _ r(5)] r n(2)
    by (simp add: restore_env.fetch_inv_def [OF env(1)])
  with n(1) show ?thesis by blast
qed

end
