(* ===== verification/Restore_Total.thy ===== *)
theory Restore_Total
  imports Roundtrip Total_Correctness
begin

section \<open>A restore succeeds when the environment works\<close>

text \<open>
  The statements of \<open>Roundtrip\<close> are about restores that succeed. Here is when they do: the operations
  of the file system and of the store succeed where they can, and the cache has room for the chunks.
\<close>

locale working_env = restore_env S objs fcontent
  for S :: "'w sys" and objs :: "'w \<Rightarrow> string \<Rightarrow> string \<Rightarrow> bytes option" and fcontent :: "'w \<Rightarrow> string \<Rightarrow> bytes option" +
  assumes get_total: "objs w b n = Some x \<Longrightarrow> fst (GetObject S b n w) = Inr x"
    and create_total: "fst (CreateFile S p w) = Inr ()"
    and write_total: "fcontent w p \<noteq> None \<Longrightarrow> fst (WriteFile S p d w) = Inr ()"
    and chown_total: "fcontent w p \<noteq> None \<Longrightarrow> fst (Chown S p ui gi w) = Inr ()"
    and chmod_total: "fcontent w p \<noteq> None \<Longrightarrow> fst (Chmod S p m w) = Inr ()"
    and xattr_total: "fcontent w p \<noteq> None \<Longrightarrow> fst (XattrSet S p k v w) = Inr ()"
    and stat_total: "fst (Stat S p w) = Inl e \<Longrightarrow> e = ErrNotExist"
    and chmod_dir: "fst (Stat S p w) = Inr info \<Longrightarrow> fst (Chmod S p m (snd (Stat S p w))) = Inr ()"
    and mkdir_total: "fst (MkdirAll S p m w) = Inr ()"
    and attempts: "0 < Attempts S"

lemma tryM_lift_Inr: "tryM (liftGo (Ret (Inr a))) h k = k a"
  by (simp add: fun_eq_iff tryM_def bindM_def)

definition room :: "int \<Rightarrow> ('w, 'z) rst_scheme \<Rightarrow> bool" where
  "room n s \<longleftrightarrow> totalSizeOnDisk s + n \<le> MaxCacheSizeOnDisk s"

lemma totalSizeOnDisk_sum: "totalSizeOnDisk s = sum_list (map (\<lambda>(_, c). cc_size c) (chunks s))"
proof -
  have "fold (\<lambda>(_, c) accum. accum + cc_size c) xs a = a + sum_list (map (\<lambda>(_, c). cc_size c) xs)"
    for xs :: "(string \<times> CachedChunk) list" and a by (induction xs arbitrary: a) (auto split: prod.splits)
  then show ?thesis by (simp add: totalSizeOnDisk_def)
qed

lemma room_frame [simp]:
  "room n (s\<lparr>world := w\<rparr>) = room n s" "room n (s\<lparr>cstats := c\<rparr>) = room n s"
  "room n (s\<lparr>downloadBytes := u\<rparr>) = room n s" "room n (s\<lparr>dirChmodQueue := q\<rparr>) = room n s"
  by (simp_all add: room_def totalSizeOnDisk_sum)

lemma map_put_fresh: "map_of m k = None \<Longrightarrow> map_put k v m = m @ [(k, v)]"
  by (induction m) (auto split: if_splits)

lemma room_put:
  "room n s \<Longrightarrow> map_of (chunks s) k = None \<Longrightarrow> room (n - cc_size c) (s\<lparr>chunks := map_put k c (chunks s)\<rparr>)"
  by (simp add: room_def totalSizeOnDisk_sum map_put_fresh)

lemma achieves_cstatsM: "(\<And>s. P s \<Longrightarrow> Q () (s\<lparr>cstats := f (cstats s)\<rparr>)) \<Longrightarrow> achieves P (cstatsM f) Q"
  unfolding cstatsM_def by (rule achieves_modifyM)

lemma isObjCached_frame [simp]:
  "isObjCached (s\<lparr>world := w\<rparr>) n = isObjCached s n" "isObjCached (s\<lparr>cstats := c\<rparr>) n = isObjCached s n"
  "isObjCached (s\<lparr>downloadBytes := u\<rparr>) n = isObjCached s n"
  by (simp_all add: isObjCached_def)

definition has_chunk :: "string \<Rightarrow> bytes \<Rightarrow> ('w, 'z) rst_scheme \<Rightarrow> bool" where
  "has_chunk name plain s \<longleftrightarrow> (\<exists>c. map_of (chunks s) name = Some c \<and> cc_plaintext c = plain)"

lemma has_chunk_frame [simp]:
  "has_chunk n p (s\<lparr>world := w\<rparr>) = has_chunk n p s" "has_chunk n p (s\<lparr>cstats := c\<rparr>) = has_chunk n p s"
  by (simp_all add: has_chunk_def)

lemma take_extent_achieves:
  assumes "slice plain off (off + len) = Ret d"
  shows "achieves (\<lambda>s. has_chunk name plain s \<and> room n s) (take_extent name off len) (\<lambda>r t. (\<exists>a. r = Inr a) \<and> room n t)"
proof (rule achievesI)
  fix s :: "('w, 'z) rst_scheme" assume s: "has_chunk name plain s \<and> room n s"
  then obtain c where "map_of (chunks s) name = Some c" "cc_plaintext c = plain" by (auto simp: has_chunk_def)
  then have "cached s name = (plain, cc_nonce c)" by (simp add: cached_def)
  with assms have "take_extent name off len s = (Ret (Inr (d, cc_nonce c)), s)"
    by (simp add: take_extent_def bindM_def)
  with s show "\<exists>a t. take_extent name off len s = (Ret a, t) \<and> (\<exists>x. a = Inr x) \<and> room n t" by blast
qed

context working_env
begin

lemma evict_room:
  assumes "rS E = S" "len \<le> n"
  shows "achieves (\<lambda>s. room n s \<and> \<not> isObjCached s name) (evict_loop (Attempts (rS E)) E len)
    (\<lambda>_ s. room n s \<and> \<not> isObjCached s name)"
proof (rule achievesI)
  fix s :: "('w, 'z) rst_scheme" assume s: "room n s \<and> \<not> isObjCached s name"
  obtain k where k: "Attempts (rS E) = Suc k" using attempts assms(1) by (cases "Attempts S") auto
  have "\<not> totalSizeOnDisk s + len > MaxCacheSizeOnDisk s" using s assms(2) by (simp add: room_def)
  then have "evict_loop (Attempts (rS E)) E len s = (Ret (), s)" unfolding k by (simp add: bindM_def)
  with s show "\<exists>a t. evict_loop (Attempts (rS E)) E len s = (Ret a, t) \<and> room n t \<and> \<not> isObjCached t name" by blast
qed

lemma sys_on_file:
  assumes "\<And>w. fcontent w p \<noteq> None \<Longrightarrow> fst (f w) = Inr ()" "\<And>w. fcontent w p \<noteq> None \<Longrightarrow> fcontent (snd (f w)) p \<noteq> None"
    and "\<And>s w. B s \<Longrightarrow> B (s\<lparr>world := w\<rparr>)"
  shows "achieves (\<lambda>s. B s \<and> fcontent (world s) p \<noteq> None) (sysM f)
    (\<lambda>r s. \<exists>a. r = Inr a \<and> B s \<and> fcontent (world s) p \<noteq> None)"
proof (rule achieves_sysM)
  fix s r w assume "B s \<and> fcontent (world s) p \<noteq> None" "f (world s) = (r, w)"
  then show "\<exists>a. r = Inr a \<and> B (s\<lparr>world := w\<rparr>) \<and> fcontent (world (s\<lparr>world := w\<rparr>)) p \<noteq> None"
    using assms(1,2) [of "world s"] assms(3) by simp
qed

lemma write_keeps: "fcontent w p \<noteq> None \<Longrightarrow> fcontent (snd (WriteFile S p d w)) p \<noteq> None"
  using write_total [of w p d] write_ok [of p d w "()" "snd (WriteFile S p d w)"]
  by (cases "WriteFile S p d w") auto

lemma create_achieves:
  assumes "\<And>s w. B s \<Longrightarrow> B (s\<lparr>world := w\<rparr>)"
  shows "achieves B (sysM (CreateFile S p)) (\<lambda>r s. \<exists>a. r = Inr a \<and> B s \<and> fcontent (world s) p \<noteq> None)"
proof (rule achieves_sysM)
  fix s r w assume b: "B s" and r: "CreateFile S p (world s) = (r, w)"
  have "r = Inr ()" using create_total [of p "world s"] r by simp
  with r create_ok have "fcontent w p = Some []" by blast
  with \<open>r = Inr ()\<close> assms [OF b] show "\<exists>a. r = Inr a \<and> B (s\<lparr>world := w\<rparr>) \<and> fcontent (world (s\<lparr>world := w\<rparr>)) p \<noteq> None"
    by simp
qed

lemma save_achieves:
  assumes E: "rS E = S" and n: "int (length x) \<le> n" "CHR ''/'' \<notin> set name"
    and dec: "DecryptBufferReturningNonce (rC E) (rKey E) x = Ret (Inr (plain, nonce))"
  shows "achieves (\<lambda>s. room n s \<and> \<not> isObjCached s name) (saveObjToCache E name x :: (('w, 'z) rst_scheme, unit) prog)
    (\<lambda>_ s. has_chunk name plain s \<and> room (n - int (length x)) s)"
proof -
  define B where "B = (\<lambda>s :: ('w, 'z) rst_scheme. room n s \<and> \<not> isObjCached s name)"
  have B: "\<And>s w. B s \<Longrightarrow> B (s\<lparr>world := w\<rparr>)" by (simp add: B_def)
  have same: "fcontent w p \<noteq> None \<Longrightarrow> fcontent (snd (Chown S p ui gi w)) p \<noteq> None"
    "fcontent w p \<noteq> None \<Longrightarrow> fcontent (snd (Chmod S p m w)) p \<noteq> None" for w p ui gi m
    by (simp_all add: file_same)
  let ?Q = "\<lambda>_ s. has_chunk name plain s \<and> room (n - int (length x)) s"
  have put: "achieves B (bindM (modifyM (\<lambda>s. s\<lparr>chunks := map_put name c (chunks s)\<rparr>)) (\<lambda>_. cstatsM f)) ?Q"
    if "cc_size c = int (length x)" "cc_plaintext c = plain" for c f
    using that room_put [of n _ name c]
    by (intro achieves_bindM [OF achieves_modifyM [where Q = ?Q]] achieves_cstatsM)
      (auto simp: B_def has_chunk_def isObjCached_def)
  have evict: "achieves B (evict_loop (Attempts S) E (int (length x))) (\<lambda>_. B)"
    unfolding B_def using evict_room [OF E n(1)] unfolding E .
  show ?thesis
    unfolding saveObjToCache_def Let_def not_chunks_prefix [OF n(2)] E B_def [symmetric] dec tryM_lift_Inr prod.case
    apply (rule achieves_bindM [OF achieves_getM [where Q = "\<lambda>_. B"]], assumption)
    apply (rule achieves_bindM [OF evict])
    apply (rule achieves_tryM [OF create_achieves [where B = B, OF B]], assumption)
    apply (rule achieves_tryM [OF sys_on_file [where B = B, OF chown_total same(1) B]], assumption+)
    apply (rule achieves_tryM [OF sys_on_file [where B = B, OF chmod_total same(2) B]], assumption+)
    apply (rule achieves_tryM [OF sys_on_file [where B = B, OF write_total write_keeps B]], assumption+)
    apply (rule achieves_bindM [OF achieves_cstatsM [where Q = "\<lambda>_. B"]], simp add: B_def)
    apply (rule achieves_bindM [OF achieves_nowM [where Q = "\<lambda>_. B"]], simp add: B_def)
    apply (rule put; simp)
    done
qed

lemma download_achieves:
  assumes "rS E = S" "z b nm = Some x" "\<And>s w. B s \<Longrightarrow> B (s\<lparr>world := w\<rparr>)" "\<And>s u. B s \<Longrightarrow> B (s\<lparr>downloadBytes := u\<rparr>)"
  shows "achieves (\<lambda>s. fetch_inv E z dir q v s \<and> B s) (DownloadObjToBuffer (rS E) b nm) (\<lambda>r s. \<exists>a. r = Inr a \<and> a = x \<and> B s)"
proof (rule achievesI)
  fix s assume s: "fetch_inv E z dir q v s \<and> B s"
  then have "fst (GetObject S b nm (world s)) = Inr x"
    using assms(2) by (intro get_total) (auto simp: fetch_inv_def)
  then obtain w where "GetObject S b nm (world s) = (Inr x, w)" by (cases "GetObject S b nm (world s)") auto
  then have "DownloadObjToBuffer (rS E) b nm s =
      (Ret (Inr x), s\<lparr>world := w, downloadBytes := downloadBytes s + int (length x)\<rparr>)"
    by (simp add: DownloadObjToBuffer_def assms(1) tryM_def bindM_def sysM_def)
  moreover have "B (s\<lparr>world := w, downloadBytes := downloadBytes s + int (length x)\<rparr>)"
    using s assms(3,4) by blast
  ultimately show "\<exists>a t. DownloadObjToBuffer (rS E) b nm s = (Ret a, t) \<and> (\<exists>c. a = Inr c \<and> c = x \<and> B t)" by blast
qed

lemma Fetch_room:
  assumes E: "rS E = S" "CHR ''/'' \<notin> set name" and n: "int (length x) \<le> n"
    and x: "z (rBucket E) (''chunks/'' @ name) = Some x"
    and dec: "DecryptBufferReturningNonce (rC E) (rKey E) x = Ret (Inr (plain, nonce))"
    and sl: "slice plain off (off + len) = Ret d"
  shows "achieves (\<lambda>s :: ('w, 'z) rst_scheme. fetch_inv E z dir q v s \<and> room n s)
    (FetchExtentIntoBuffer E (''chunks/'' @ name) off len)
    (\<lambda>r s. (\<exists>a. r = Inr a) \<and> room (n - int (length x)) s)"
proof -
  define B where "B = (\<lambda>s :: ('w, 'z) rst_scheme. room n s \<and> \<not> isObjCached s name)"
  let ?I = "\<lambda>s :: ('w, 'z) rst_scheme. fetch_inv E z dir q v s"
  let ?R = "\<lambda>r s. (\<exists>a. r = Inr a) \<and> room (n - int (length x)) s"
  have less: "room n s \<Longrightarrow> room (n - int (length x)) s" for s :: "('w, 'z) rst_scheme" by (simp add: room_def)
  have hit: "achieves (\<lambda>s. ?I s \<and> room n s \<and> isObjCached s name)
      (bindM (cstatsM f) (\<lambda>_. take_extent name off len)) ?R" for f
  proof (rule achieves_bindM [OF achieves_cstatsM [where Q = "\<lambda>_ s. has_chunk name plain s \<and> room (n - int (length x)) s"]])
    fix s assume s: "?I s \<and> room n s \<and> isObjCached s name"
    then obtain c where c: "map_of (chunks s) name = Some c" by (auto simp: isObjCached_def)
    have "cache_ok E z (chunks s)" using s by (simp add: fetch_inv_def)
    with c obtain y where "z (rBucket E) (''chunks/'' @ name) = Some y"
      "DecryptBufferReturningNonce (rC E) (rKey E) y = Ret (Inr (cc_plaintext c, cc_nonce c))"
      unfolding cache_ok_def by blast
    with x dec have "cc_plaintext c = plain" by simp
    with s c less show "has_chunk name plain (s\<lparr>cstats := f (cstats s)\<rparr>) \<and> room (n - int (length x)) (s\<lparr>cstats := f (cstats s)\<rparr>)"
      by (auto simp: has_chunk_def)
  qed (rule take_extent_achieves [OF sl])
  have miss: "achieves (\<lambda>s. ?I s \<and> B s) (tryM (DownloadObjToBuffer (rS E) (rBucket E) (''chunks/'' @ name)) (\<lambda>e. retM (Inl e))
      (\<lambda>buf. bindM (cstatsM f) (\<lambda>_. bindM (cstatsM (g buf)) (\<lambda>_.
        bindM (saveObjToCache E name buf) (\<lambda>_. take_extent name off len))))) ?R" for f g
  proof (rule achieves_tryM [OF download_achieves [where B = B and z = z, OF E(1) x]])
    fix buf
    have "achieves B (bindM (saveObjToCache E name x) (\<lambda>_. take_extent name off len)) ?R"
      unfolding B_def by (rule achieves_bindM [OF save_achieves [OF E(1) n E(2) dec] take_extent_achieves [OF sl]])
    then have "achieves B (bindM (cstatsM f) (\<lambda>_. bindM (cstatsM (g x)) (\<lambda>_.
        bindM (saveObjToCache E name x) (\<lambda>_. take_extent name off len)))) ?R"
      by (intro achieves_bindM [OF achieves_cstatsM [where Q = "\<lambda>_. B"]]) (auto simp: B_def)
    then show "achieves (\<lambda>s. buf = x \<and> B s) (bindM (cstatsM f) (\<lambda>_. bindM (cstatsM (g buf)) (\<lambda>_.
        bindM (saveObjToCache E name buf) (\<lambda>_. take_extent name off len)))) ?R"
      by (cases "buf = x") (auto simp: achieves_def)
  qed (simp_all add: B_def)
  show ?thesis
    unfolding FetchExtentIntoBuffer_def TrimPrefix_append Let_def
  proof (rule achieves_bindM [OF achieves_cstatsM [where Q = "\<lambda>_ s. ?I s \<and> room n s"]])
    show "?I (s\<lparr>cstats := f\<rparr>) \<and> room n (s\<lparr>cstats := f\<rparr>)" if "?I s \<and> room n s" for s f
      using that by (simp add: fetch_inv_def)
    show "achieves (\<lambda>s. ?I s \<and> room n s) (bindM (getM (\<lambda>s. isObjCached s name)) (\<lambda>h. if h then
        bindM (cstatsM f1) (\<lambda>_. take_extent name off len) else
        tryM (DownloadObjToBuffer (rS E) (rBucket E) (''chunks/'' @ name)) (\<lambda>e. retM (Inl e))
      (\<lambda>buf. bindM (cstatsM f) (\<lambda>_. bindM (cstatsM (g buf)) (\<lambda>_.
        bindM (saveObjToCache E name buf) (\<lambda>_. take_extent name off len)))))) ?R" for f1 f g
    proof (rule achieves_bindM [OF achieves_getM [where Q = "\<lambda>h s. ?I s \<and> room n s \<and> h = isObjCached s name"]], simp)
      fix h
      show "achieves (\<lambda>s. ?I s \<and> room n s \<and> h = isObjCached s name) (if h then
        bindM (cstatsM f1) (\<lambda>_. take_extent name off len) else
        tryM (DownloadObjToBuffer (rS E) (rBucket E) (''chunks/'' @ name)) (\<lambda>e. retM (Inl e))
      (\<lambda>buf. bindM (cstatsM f) (\<lambda>_. bindM (cstatsM (g buf)) (\<lambda>_.
        bindM (saveObjToCache E name buf) (\<lambda>_. take_extent name off len))))) ?R"
        using achieves_weaken [OF hit [of f1]] achieves_weaken [OF miss [of f g]]
        by (auto simp: B_def intro!: achieves_if)
    qed
  qed
qed

lemma Fetch_total:
  assumes E: "rS E = S" "cache_apart dir q"
    and h: "extent_holds (rC E) (rKey E) (z (rBucket E)) ce d nonce"
    and n: "z (rBucket E) (''chunks/'' @ ChunkName ce) = Some x" "int (length x) \<le> n"
  shows "achieves (\<lambda>s :: ('w, 'z) rst_scheme. fetch_inv E z dir q v s \<and> room n s)
    (FetchExtentIntoBuffer E (''chunks/'' @ ChunkName ce) (ce_Offset ce) (ce_Len ce))
    (\<lambda>r s. \<exists>a. r = Inr a \<and> a = (d, nonce) \<and> fetch_inv E z dir q v s \<and> room (n - int (length x)) s)"
proof (rule achievesI)
  fix s :: "('w, 'z) rst_scheme" assume s: "fetch_inv E z dir q v s \<and> room n s"
  from h n(1) obtain plain where p: "DecryptBufferReturningNonce (rC E) (rKey E) x = Ret (Inr (plain, nonce))"
    "slice plain (ce_Offset ce) (ce_Offset ce + ce_Len ce) = Ret d" "CHR ''/'' \<notin> set (ChunkName ce)"
    by (auto simp: extent_holds_def)
  from Fetch_room [where z = z, OF E(1) p(3) n(2,1) p(1,2)] s obtain a t where
    t: "FetchExtentIntoBuffer E (''chunks/'' @ ChunkName ce) (ce_Offset ce) (ce_Len ce) s = (Ret (Inr a), t)"
      "room (n - int (length x)) t" unfolding achieves_def by blast
  obtain ext nc where a: "a = (ext, nc)" by fastforce
  have "ext = d \<and> nc = nonce \<and> fetch_inv E z dir q v t"
    using E s h t(1) unfolding a by (intro Fetch_extent) auto
  with t a show "\<exists>r t. FetchExtentIntoBuffer E (''chunks/'' @ ChunkName ce) (ce_Offset ce) (ce_Len ce) s = (Ret r, t) \<and>
      (\<exists>a. r = Inr a \<and> a = (d, nonce) \<and> fetch_inv E z dir q v t \<and> room (n - int (length x)) t)" by blast
qed

end

subsection \<open>Restoring a file\<close>

definition chunk_bytes :: "(string \<Rightarrow> bytes option) \<Rightarrow> ChunkExtent \<Rightarrow> int" where
  "chunk_bytes store ce = (case store (''chunks/'' @ ChunkName ce) of None \<Rightarrow> 0 | Some x \<Rightarrow> int (length x))"

definition xattrs_parse :: "string \<Rightarrow> bool" where
  "xattrs_parse x \<longleftrightarrow> x = [] \<or> (\<forall>l \<in> set (SplitChar (CHR 0x0A) x). \<exists>kv. xattr_line l = Inr kv)"

context working_env
begin

lemma fetch_inv_objs: "fetch_inv E z dir q v s \<Longrightarrow> objs (world s) = z"
  by (simp add: fetch_inv_def)

lemma write_achieves:
  "achieves (\<lambda>s :: ('w, 'z) rst_scheme. fetch_inv E z dir q (Some c) s \<and> room n s) (sysM (WriteFile S q d))
     (\<lambda>r s. \<exists>a. r = Inr a \<and> fetch_inv E z dir q (Some (c @ d)) s \<and> room n s)"
proof (rule achievesI)
  fix s :: "('w, 'z) rst_scheme" assume s: "fetch_inv E z dir q (Some c) s \<and> room n s"
  then have "fst (WriteFile S q d (world s)) = Inr ()" by (intro write_total) (simp add: fetch_inv_def)
  then obtain w where w: "sysM (WriteFile S q d) s = (Ret (Inr ()), s\<lparr>world := w\<rparr>)"
    by (cases "WriteFile S q d (world s)") (auto simp: sysM_def)
  moreover have "fetch_inv E z dir q (Some (c @ d)) (s\<lparr>world := w\<rparr>)" using write_inv s w by blast
  ultimately show "\<exists>a t. sysM (WriteFile S q d) s = (Ret a, t) \<and>
      (\<exists>u. a = Inr u \<and> fetch_inv E z dir q (Some (c @ d)) t \<and> room n t)" using s by auto
qed

lemma restore_chunks_total:
  assumes E: "rS E = S" "cache_apart dir q"
  shows "extents_hold (rC E) (rKey E) (z (rBucket E)) ces ds ns \<Longrightarrow>
    sum_list (map (chunk_bytes (z (rBucket E))) ces) \<le> n \<Longrightarrow>
    achieves (\<lambda>s :: ('w, 'z) rst_scheme. fetch_inv E z dir q (Some c) s \<and> room n s) (restore_chunks E q ces prev b)
      (\<lambda>_ s. fetch_inv E z dir q (Some (c @ concat ds)) s)"
proof (induction "rC E" "rKey E" "z (rBucket E)" ces ds ns arbitrary: c prev b n rule: extents_hold.induct)
  case 1
  then show ?case by (auto intro: achieves_retM)
next
  case (2 ce ces d ds nonce ns)
  let ?I = "\<lambda>c n (s :: ('w, 'z) rst_scheme). fetch_inv E z dir q (Some c) s \<and> room n s"
  have h: "extent_holds (rC E) (rKey E) (z (rBucket E)) ce d nonce"
    and hs: "extents_hold (rC E) (rKey E) (z (rBucket E)) ces ds ns" using 2(2) by simp_all
  from h obtain x where x: "z (rBucket E) (''chunks/'' @ ChunkName ce) = Some x" by (auto simp: extent_holds_def)
  have cb: "chunk_bytes (z (rBucket E)) ce = int (length x)" using x by (simp only: chunk_bytes_def option.case)
  have ge: "0 \<le> sum_list (map (chunk_bytes (z (rBucket E))) ces)"
    by (rule sum_list_nonneg) (auto simp: chunk_bytes_def split: option.splits)
  have len: "int (length x) \<le> n" and rest: "sum_list (map (chunk_bytes (z (rBucket E))) ces) \<le> n - int (length x)"
    using 2(3) cb ge by simp_all
  have f: "achieves (?I c n) (FetchExtentIntoBuffer E (''chunks/'' @ ChunkName ce) (ce_Offset ce) (ce_Len ce))
    (\<lambda>r s. \<exists>a. r = Inr a \<and> a = (d, nonce) \<and> ?I c (n - int (length x)) s)"
    using Fetch_total [where z = z, OF E h x len] .
  have k: "achieves (\<lambda>s. a = (d, nonce) \<and> ?I c (n - int (length x)) s)
      (case a of (buf, nc) \<Rightarrow> tryM (sysM (WriteFile S q buf)) (\<lambda>e. liftGo Fatal) (\<lambda>_.
        restore_chunks E q ces nc (b \<and> isNonceOneMoreThanPrev nc prev)))
      (\<lambda>_ s. fetch_inv E z dir q (Some (c @ concat (d # ds))) s)" for a
  proof (cases "a = (d, nonce)")
    case True
    have "achieves (?I c (n - int (length x))) (tryM (sysM (WriteFile S q d)) (\<lambda>e. liftGo Fatal) (\<lambda>_.
        restore_chunks E q ces nonce (b \<and> isNonceOneMoreThanPrev nonce prev)))
      (\<lambda>_ s. fetch_inv E z dir q (Some ((c @ d) @ concat ds)) s)"
      by (rule achieves_tryM [OF write_achieves 2(1) [OF hs rest]])
    with True show ?thesis by simp
  qed (simp add: achieves_def)
  show ?case unfolding restore_chunks.simps E(1) by (rule achieves_tryM [OF f k])
qed simp_all

lemma stat_world:
  "achieves (\<lambda>s :: ('w, 'z) rst_scheme. True) (bindM (sysM (Stat S p)) (\<lambda>r. case r of
      Inl e \<Rightarrow> if e = ErrNotExist then sysM (MkdirAll S p m) else liftGo Panic
    | Inr info \<Rightarrow> if and (fi_mode info) 0x0000ffff \<noteq> m then sysM (Chmod S p m) else retM (Inr ())))
    (\<lambda>r _. \<exists>a. r = Inr a)"
proof (rule achievesI)
  fix s :: "('w, 'z) rst_scheme"
  obtain r w where w: "Stat S p (world s) = (r, w)" by fastforce
  then have st: "sysM (Stat S p) s = (Ret r, s\<lparr>world := w\<rparr>)" by (simp add: sysM_def)
  show "\<exists>a t. bindM (sysM (Stat S p)) (\<lambda>r. case r of
      Inl e \<Rightarrow> if e = ErrNotExist then sysM (MkdirAll S p m) else liftGo Panic
    | Inr info \<Rightarrow> if and (fi_mode info) 0x0000ffff \<noteq> m then sysM (Chmod S p m) else retM (Inr ())) s = (Ret a, t) \<and>
    (\<exists>b. a = Inr b)"
  proof (cases r)
    case (Inl e)
    then have "e = ErrNotExist" using stat_total [of p "world s" e] w by simp
    with Inl show ?thesis using mkdir_total [of p m w] by (cases "MkdirAll S p m w") (simp add: bindM_def sysM_def w)
  next
    case (Inr info)
    then show ?thesis using chmod_dir [of p "world s" info m] w
      by (cases "Chmod S p m w") (simp add: bindM_def sysM_def w)
  qed
qed

lemma fullPath_total:
  "achieves (\<lambda>s :: ('w, 'z) rst_scheme. dir_inv E z dir s \<and> room n s) (createFullPath S p1 p2 p3 p4 m u g)
     (\<lambda>r s. \<exists>a. r = Inr a \<and> dir_inv E z dir s \<and> room n s)"
proof -
  have sys: "achieves (\<lambda>s :: ('w, 'z) rst_scheme. True) (sysM f) (\<lambda>_ _. True)" for f
    by (rule achieves_sysM) simp
  have "achieves (\<lambda>s :: ('w, 'z) rst_scheme. True) (createFullPath S p1 p2 p3 p4 m u g) (\<lambda>r _. \<exists>a. r = Inr a)"
    unfolding createFullPath_def Let_def
    by (rule achieves_tryM [OF achieves_weaken [OF stat_world], where Q = "\<lambda>_ _. True"])
      (auto intro!: achieves_if achieves_retM achieves_bindM [OF sys])
  moreover have "preserves (\<lambda>s :: ('w, 'z) rst_scheme. room n s) (createFullPath S p1 p2 p3 p4 m u g)"
  proof -
    have sys: "preserves (\<lambda>s :: ('w, 'z) rst_scheme. room n s) (sysM f)" for f by (rule preserves_sysM) simp
    have "preserves (\<lambda>s :: ('w, 'z) rst_scheme. room n s) (case r of
        Inl e \<Rightarrow> if e = ErrNotExist then sysM (MkdirAll S p m) else liftGo Panic
      | Inr info \<Rightarrow> if and (fi_mode info) 0x0000ffff \<noteq> m then sysM (Chmod S p m) else retM (Inr ()))" for r p
      by (cases r) (auto intro!: sys preserves_liftGo preserves_retM simp only: sum.case split: if_splits)
    then show ?thesis unfolding createFullPath_def Let_def
      by (intro preserves_tryM preserves_bindM preserves_if preserves_retM sys)
  qed
  ultimately show ?thesis using dir_inv_fullPath [of E z dir p1 p2 p3 p4 m u g]
    unfolding achieves_def preserves_def by (metis snd_conv)
qed

lemma file_sys:
  assumes "\<And>w. fcontent w q \<noteq> None \<Longrightarrow> fst (f w) = Inr ()" "\<And>w. objs (snd (f w)) = objs w"
    "\<And>w. fcontent (snd (f w)) q = fcontent w q" "\<And>s w. R s \<Longrightarrow> R (s\<lparr>world := w\<rparr>)"
  shows "achieves (\<lambda>s :: ('w, 'z) rst_scheme. fetch_inv E z dir q (Some c) s \<and> R s) (sysM f)
    (\<lambda>r s. \<exists>a. r = Inr a \<and> fetch_inv E z dir q (Some c) s \<and> R s)"
proof (rule achieves_sysM)
  fix s :: "('w, 'z) rst_scheme" and r w
  assume "fetch_inv E z dir q (Some c) s \<and> R s" "f (world s) = (r, w)"
  then show "\<exists>a. r = Inr a \<and> fetch_inv E z dir q (Some c) (s\<lparr>world := w\<rparr>) \<and> R (s\<lparr>world := w\<rparr>)"
    using assms(1-3) [of "world s"] assms(4) by (simp add: fetch_inv_def)
qed

lemma set_xattrs_total:
  "\<forall>l \<in> set ls. \<exists>kv. xattr_line l = Inr kv \<Longrightarrow>
     achieves (\<lambda>s :: ('w, 'z) rst_scheme. fetch_inv E z dir q (Some c) s \<and> True) (set_xattr_lines S q ls)
       (\<lambda>r s. \<exists>a. r = Inr a \<and> fetch_inv E z dir q (Some c) s \<and> True)"
proof (induction ls)
  case (Cons l ls)
  then obtain k v where l: "xattr_line l = Inr (k, v)" by auto
  have "achieves (\<lambda>s :: ('w, 'z) rst_scheme. fetch_inv E z dir q (Some c) s \<and> True) (sysM (XattrSet S q k v))
       (\<lambda>r s. \<exists>a. r = Inr a \<and> fetch_inv E z dir q (Some c) s \<and> True)"
    by (rule file_sys [OF xattr_total file_objs(8) file_same(5)]) simp_all
  then show ?case using Cons by (simp add: l achieves_tryM)
qed (auto intro: achieves_retM)

lemma xattrs_total:
  "xattrs_parse x \<Longrightarrow>
     achieves (\<lambda>s :: ('w, 'z) rst_scheme. fetch_inv E z dir q (Some c) s \<and> True) (deserializeAndSetXAttrs S q x)
       (\<lambda>r s. \<exists>a. r = Inr a \<and> fetch_inv E z dir q (Some c) s \<and> True)"
  unfolding deserializeAndSetXAttrs_def xattrs_parse_def
  by (rule achieves_if) (auto intro: achieves_retM set_xattrs_total [simplified])

lemma restore_file_total:
  assumes E: "rS E = S" "cache_apart dir (restored_path into root snap rel)"
    and hold: "extents_hold (rC E) (rKey E) (z (rBucket E)) ces ds ns"
    and n: "sum_list (map (chunk_bytes (z (rBucket E))) ces) \<le> n" and xa: "xattrs_parse (XAttrs md)"
  shows "achieves (\<lambda>s :: ('w, 'z) rst_scheme. dir_inv E z dir s \<and> room n s)
    (restore_file E into root snap rel md contents ces prev) (\<lambda>r _. \<exists>a. r = Inr a)"
proof -
  obtain d f where pf: "PathSplit rel = (d, f)" by fastforce
  define q where "q = Join [into, root, snap, d, f]"
  have E2: "cache_apart dir q" using E(2) by (simp add: restored_path_def pf q_def)
  let ?F = "\<lambda>c R (s :: ('w, 'z) rst_scheme). fetch_inv E z dir q (Some c) s \<and> R s"
  have create: "achieves (\<lambda>s :: ('w, 'z) rst_scheme. dir_inv E z dir s \<and> room n s) (sysM (CreateFile S q))
      (\<lambda>r s. \<exists>a. r = Inr a \<and> ?F [] (room n) s)"
  proof (rule achieves_sysM)
    fix s :: "('w, 'z) rst_scheme" and r w assume s: "dir_inv E z dir s \<and> room n s" "CreateFile S q (world s) = (r, w)"
    then have "r = Inr ()" using create_total [of q "world s"] by simp
    with s create_ok [of q "world s" "()" w] file_objs(1) [of q "world s"]
    show "\<exists>a. r = Inr a \<and> ?F [] (room n) (s\<lparr>world := w\<rparr>)" by (simp add: fetch_inv_def dir_inv_def)
  qed
  have chmod: "achieves (?F [] (room n)) (sysM (Chmod S q m)) (\<lambda>r s. \<exists>a. r = Inr a \<and> ?F [] (room n) s)" for m
    by (rule file_sys [OF chmod_total file_objs(4) file_same(2)]) simp_all
  have chunks: "achieves (?F contents (room n)) (restore_chunks E q ces prev True) (\<lambda>_. ?F (contents @ concat ds) (\<lambda>_. True))"
    using restore_chunks_total [where z = z, OF E(1) E2 hold n] by simp
  have own: "achieves (?F (contents @ concat ds) (\<lambda>_. True)) (sysM (Chown S q (r_uid E) (r_gid E))) (\<lambda>r _. \<exists>a. r = Inr a)"
    by (rule achieves_weaken [OF file_sys [OF chown_total file_objs(3) file_same(1)]]) auto
  have wr: "achieves (?F [] (room n)) (sysM (WriteFile S q contents)) (\<lambda>r s. \<exists>a. r = Inr a \<and> ?F contents (room n) s)"
    using write_achieves [where c = "[]"] by simp
  show ?thesis
    unfolding restore_file_def pf prod.case Let_def q_def [symmetric] E(1)
    by (rule achieves_tryM [OF fullPath_total achieves_tryM [OF create achieves_tryM [OF chmod achieves_tryM [OF wr
        achieves_bindM [OF chunks achieves_tryM [OF xattrs_total [OF xa] own]]]]]])
qed

end

text \<open>
  C3. A restore succeeds. In a working environment, with room in the cache for the chunks of the entry,
  \<^verbatim>\<open>RestoreDirEntry\<close> of a file whose extents are in the store and whose attributes parse returns
  without error, and the file has its contents.
\<close>

theorem restore_succeeds:
  fixes s :: "('w, 'z) rst_scheme"
  assumes env: "working_env S objs fcontent" "rS E = S"
    and path: "cache_apart (CacheDirectory s) (restored_path (StripTrailingSlashes into) root snap rel)"
    and hold: "extents_hold (rC E) (rKey E) (objs (world s) (rBucket E)) (ChunkExtents crp) (d # ds) ns"
    and cache: "cache_ok E (objs (world s)) (chunks s)"
      "room (sum_list (map (chunk_bytes (objs (world s) (rBucket E))) (ChunkExtents crp))) s"
    and md: "deserializeMetadataStruct (rG E) d = Ret (Inr (md, contents))" "\<not> IsSymlink md" "\<not> IsDir md"
      "xattrs_parse (XAttrs md)"
  shows "\<exists>t. RestoreDirEntry E into crp root snap rel s = (Ret (Inr ()), t) \<and>
    fcontent (world t) (restored_path (StripTrailingSlashes into) root snap rel) = Some (contents @ concat ds)"
proof -
  note renv = working_env.axioms(1) [OF env(1)]
  let ?q = "restored_path (StripTrailingSlashes into) root snap rel"
  let ?z = "objs (world s)" and ?dir = "CacheDirectory s"
  obtain ce ces n ns' where ces: "ChunkExtents crp = ce # ces" "ns = n # ns'"
    using hold by (cases "ChunkExtents crp"; cases ns) auto
  have h: "extent_holds (rC E) (rKey E) (?z (rBucket E)) ce d n"
    and hs: "extents_hold (rC E) (rKey E) (?z (rBucket E)) ces ds ns'" using hold ces by simp_all
  from h obtain x where x: "?z (rBucket E) (''chunks/'' @ ChunkName ce) = Some x" by (auto simp: extent_holds_def)
  let ?rest = "sum_list (map (chunk_bytes (?z (rBucket E))) ces)"
  have ge: "0 \<le> ?rest" by (rule sum_list_nonneg) (auto simp: chunk_bytes_def split: option.splits)
  have cb: "chunk_bytes (?z (rBucket E)) ce = int (length x)" using x by (simp only: chunk_bytes_def option.case)
  let ?P = "\<lambda>s' :: ('w, 'z) rst_scheme. restore_env.fetch_inv objs fcontent E ?z ?dir ?q (fcontent (world s) ?q) s' \<and>
    room (int (length x) + ?rest) s'"
  have P: "?P s" using cache cb by (simp add: restore_env.fetch_inv_def [OF renv] ces)
  have le: "int (length x) \<le> int (length x) + ?rest" using ge by simp
  have fetch: "achieves ?P (FetchExtentIntoBuffer E (''chunks/'' @ ChunkName ce) (ce_Offset ce) (ce_Len ce))
    (\<lambda>r s'. \<exists>a. r = Inr a \<and> a = (d, n) \<and> restore_env.dir_inv objs E ?z ?dir s' \<and> room ?rest s')"
    by (rule achieves_weaken [OF working_env.Fetch_total [where z = ?z, OF env path h x le]])
      (use ge in \<open>auto simp: restore_env.fetch_inv_def [OF renv] restore_env.dir_inv_def [OF renv]\<close>)
  have tail: "achieves (\<lambda>s' :: ('w, 'z) rst_scheme. restore_env.dir_inv objs E ?z ?dir s' \<and> room ?rest s')
      (restore_file E (StripTrailingSlashes into) root snap rel md contents ces n) (\<lambda>r _. \<exists>a. r = Inr a)"
    using working_env.restore_file_total [where z = ?z, OF env path hs order_refl md(4)] .
  have "achieves ?P (RestoreDirEntry E into crp root snap rel) (\<lambda>r _. \<exists>a. r = Inr a)"
    unfolding RestoreDirEntry_def Let_def ces list.case
  proof (rule achieves_tryM [OF fetch])
    fix a
    show "achieves (\<lambda>s' :: ('w, 'z) rst_scheme. a = (d, n) \<and> restore_env.dir_inv objs E ?z ?dir s' \<and> room ?rest s')
      (case a of (buf, nonce) \<Rightarrow> tryM (liftGo (deserializeMetadataStruct (rG E) buf)) (\<lambda>e. retM (Inl e)) (\<lambda>(md, fileContents).
          if IsSymlink md then restore_symlink E (StripTrailingSlashes into) root snap rel md
          else if IsDir md then restore_dir E (StripTrailingSlashes into) root snap rel md
          else restore_file E (StripTrailingSlashes into) root snap rel md fileContents ces nonce)) (\<lambda>r _. \<exists>a. r = Inr a)"
      using tail md(2,3) by (cases "a = (d, n)") (simp_all add: md(1) tryM_lift_Inr, simp add: achieves_def)
  qed
  then obtain t where t: "RestoreDirEntry E into crp root snap rel s = (Ret (Inr ()), t)"
    using P unfolding achieves_def by auto
  with restore_env.RestoreDirEntry_content [OF renv env(2) path hold cache(1) md(1-3) t] show ?thesis by blast
qed

end
