(* ===== verification/Witnesses.thy ===== *)
theory Witnesses
  imports Mem_World Usage BucketMetadata Play_Props Restore_Total
    "HOL-Library.Code_Target_Nat" "HOL-Library.Code_Target_Int"
begin

section \<open>The properties at concrete inputs\<close>

text \<open>
  The properties that need an environment, applied in the in-memory one, with the program run on
  concrete data.
\<close>

theorem upload_returns_witness:
  "(\<exists>r t. UploadObjFromBuffer mem_sys ''b'' ''n'' [1] ''e'' (mem_state\<lparr>world := mw0\<lparr>mw_down := 2\<rparr>\<rparr>) = (Ret r, t)) \<and>
    (next_backoff ^^ 2) 5 = min (5 * 2 ^ 2) 300"
  by (rule upload_returns) (simp_all add: mem_sys_def mem_state_def mw0_def eval_nat_numeral unreachable_def mem_put_def
    mem_unreachable_def HasPrefix_def)

subsection \<open>Running the program\<close>

definition returns :: "('s, 'a) prog \<Rightarrow> 's \<Rightarrow> ('a \<Rightarrow> 's \<Rightarrow> bool) \<Rightarrow> bool" where
  "returns m s P = (case m s of (Ret a, t) \<Rightarrow> P a t | _ \<Rightarrow> False)"

lemma returnsE:
  assumes "returns m s P" obtains a t where "m s = (Ret a, t)" "P a t"
  using assms by (auto simp: returns_def split: prod.splits go.splits)

definition right :: "('a \<Rightarrow> bool) \<Rightarrow> 'e + 'a \<Rightarrow> bool" where
  "right P r = (case r of Inl _ \<Rightarrow> False | Inr a \<Rightarrow> P a)"

lemma rightE: assumes "right P r" obtains a where "r = Inr a" "P a"
  using assms by (auto simp: right_def split: sum.splits)

definition mem_file :: "bytes \<Rightarrow> mfile" where
  "mem_file d = (new_file (plain_info 420 (int (length d))))\<lparr>mf_data := d\<rparr>"

definition mem_benv :: "mw benv" where
  "mem_benv = \<lparr>eS = mem_sys, eC = mem_clib, eJ = mem_jidx, eG = mem_gob, eKey = mem_key, eBucket = ''b''\<rparr>"

definition mem_renv :: "mw renv" where
  "mem_renv = \<lparr>rS = mem_sys, rC = mem_clib, rG = mem_gob, rKey = mem_key, rBucket = ''b'', r_uid = 0, r_gid = 0\<rparr>"

lemma mem_envs [simp]:
  "eS mem_benv = mem_sys" "eC mem_benv = mem_clib" "eJ mem_benv = mem_jidx" "eG mem_benv = mem_gob"
  "eKey mem_benv = mem_key" "eBucket mem_benv = ''b''"
  "rS mem_renv = mem_sys" "rC mem_renv = mem_clib" "rG mem_renv = mem_gob"
  "rKey mem_renv = mem_key" "rBucket mem_renv = ''b''"
  by (simp_all add: mem_benv_def mem_renv_def)

definition ready_db :: db where
  "ready_db = empty_db\<lparr>db_tables := [''dirents'', ''backup_info'', ''backup_journal'', ''bandwidth_usage_history'']\<rparr>"

lemma ready_db_ok: "db_ready ready_db" "db_faults ready_db = []"
  by (simp_all add: ready_db_def empty_db_def db_ready_def del: db_readyD)

definition est_of :: "mw \<Rightarrow> db \<Rightarrow> mw est" where
  "est_of w d = \<lparr>world = w, uploadBytes = 0, downloadBytes = 0, sdb = d, fdb = d, lastPersisted = 0, items = [],
     plaintextChunkBuf = [], posInPlaintextChunk = 0, totalCntJournal = 0, finishedCountJournal = 0, stats = None\<rparr>"

definition rst_of :: "mw \<Rightarrow> int \<Rightarrow> mw rst" where
  "rst_of w n = \<lparr>world = w, uploadBytes = 0, downloadBytes = 0, chunks = [], cstats = no_stats,
     MaxCacheSizeOnDisk = n, CacheDirectory = ''/cache'', dirChmodQueue = []\<rparr>"

definition mem_md :: dirEntMetadata where
  "mem_md = \<lparr>IsDir = False, MTime = 1699999999, XAttrs = [], md_Mode = 420, IsSymlink = False, SymlinkOrigin = []\<rparr>"

definition mem_hdr :: bytes where
  "mem_hdr = projr (serializeMetadataStruct mem_gob mem_md)"

subsection \<open>Encryption and serialisation\<close>

theorem buffer_roundtrip_witness:
  "\<exists>c t. EncryptBuffer mem_sys mem_clib mem_key [1, 2] mem_state = (Ret (Inr c), t) \<and>
     DecryptBuffer mem_clib mem_key c = Ret (Inr [1, 2])"
proof -
  have "returns (EncryptBuffer mem_sys mem_clib mem_key [1, 2]) mem_state (\<lambda>r _. right (\<lambda>_. True) r)"
    by code_simp
  then obtain c t where run: "EncryptBuffer mem_sys mem_clib mem_key [1, 2] mem_state = (Ret (Inr c), t)"
    by (elim returnsE rightE) blast
  have "\<forall>w x w'. RandRead mem_sys 12 w = (Inr x, w') \<longrightarrow> length x = 12" by (auto simp: mem_sys_def)
  from buffer_roundtrip [OF mem_clib_ok this run] run show ?thesis by blast
qed

lemma mem_hdr: "serializeMetadataStruct mem_gob mem_md = Inr mem_hdr" "length mem_hdr < 2 ^ 63"
  by code_simp+

theorem header_roundtrip_witness:
  "deserializeMetadataStruct mem_gob (mem_hdr @ [9, 9]) = Ret (Inr (mem_md, [9, 9]))"
  by (rule header_roundtrip [OF mem_gob_ok mem_hdr])

definition attr_state :: "mw gst" where
  "attr_state = \<lparr>world = mw0\<lparr>mw_files := [(''/f'', (mem_file [])\<lparr>mf_xattrs := [(''user.a'', [1, 255]), (''user.b'', [])]\<rparr>),
     (''/g'', mem_file [])]\<rparr>, uploadBytes = 0, downloadBytes = 0\<rparr>"

theorem xattr_roundtrip_witness:
  "\<exists>h t u. serializeXAttrsToHex mem_sys ''/f'' attr_state = (Ret (Inr h), t) \<and>
     deserializeAndSetXAttrs mem_sys ''/g'' h t = (Ret (Inr ()), u) \<and> mem_xattrs (world u) ''/g'' ''user.a'' = Some [1, 255]"
proof -
  have "returns (serializeXAttrsToHex mem_sys ''/f'') attr_state (\<lambda>r t. right (\<lambda>h.
      returns (deserializeAndSetXAttrs mem_sys ''/g'' h) t (\<lambda>r _. right (\<lambda>_. True) r)) r)" by code_simp
  then obtain h t u where run: "serializeXAttrsToHex mem_sys ''/f'' attr_state = (Ret (Inr h), t)"
    "deserializeAndSetXAttrs mem_sys ''/g'' h t = (Ret (Inr ()), u)"
    by (elim returnsE rightE) auto
  have f: "mem_xattrs (world attr_state) ''/f'' = [''user.a'' \<mapsto> [1, 255], ''user.b'' \<mapsto> []]"
    by (auto simp: attr_state_def mem_xattrs_def fun_eq_iff)
  then have "xa = mem_xattrs \<Longrightarrow> xa (world u) ''/g'' ''user.a'' = Some [1, 255]" for xa
    using xattr_roundtrip [OF memx.xattr_store_axioms run(1), of "''/g''" t] run(2) by simp
  with run show ?thesis by blast
qed

subsection \<open>Bucket metadata and usage\<close>

lemma mem_letters:
  "random_letters mem_sys k acc s = (Ret (acc @ map (\<lambda>i. salt_letters ! ((mw_rand (world s) + i) mod 62)) [0..<k]),
     s\<lparr>world := (world s)\<lparr>mw_rand := mw_rand (world s) + k\<rparr>\<rparr>)"
proof (induction k arbitrary: acc s)
  case (Suc k)
  have "salt_letters ! (mw_rand (world s) mod 62) # map (\<lambda>i. salt_letters ! ((mw_rand (world s) + Suc i) mod 62)) [0..<k] =
      map (\<lambda>i. salt_letters ! ((mw_rand (world s) + i) mod 62)) [0..<Suc k]"
    by (subst upt_conv_Cons) (simp_all add: map_Suc_upt [symmetric] del: upt_Suc)
  moreover have "length salt_letters = 62" by (simp add: salt_letters_def)
  ultimately show ?case
    by (simp add: tryM_run sysM_run Suc mem_sys_def [THEN arg_cong [of _ _ RandInt]] del: upt_Suc)
qed simp

lemma mem_salt: "\<exists>w salt. GenerateRandomSalt mem_sys s = (Ret salt, s\<lparr>world := w\<rparr>) \<and> length salt = 32 \<and>
    mw_objs w = mw_objs (world s) \<and> mw_down w = mw_down (world s)"
  by (rule exI [where x = "(world s)\<lparr>mw_rand := mw_rand (world s) + 32\<rparr>"])
    (simp add: GenerateRandomSalt_def SaltLen_def mem_letters del: upt_Suc)

lemma mem_encrypt:
  "aes_key k \<Longrightarrow> EncryptBuffer mem_sys mem_clib k p s =
     (Ret (Inr (replicate 12 (of_nat (mw_rand (world s))) @ mem_tag k @ 0x1f # p)),
      s\<lparr>world := (world s)\<lparr>mw_rand := mw_rand (world s) + 1\<rparr>\<rparr>)"
  by (simp add: EncryptBuffer_def tryM_run sysM_run Let_def gz_def mem_clib_def mem_sys_def)

lemma mem_upload:
  "mw_down (world s) = 0 \<Longrightarrow> UploadObjFromBuffer mem_sys b n x (ComputeETag mem_clib x) s =
     (Ret (Inr ()), s\<lparr>world := (world s)\<lparr>mw_objs := map_put (b, n) x (mw_objs (world s))\<rparr>,
        uploadBytes := uploadBytes s + int (length x)\<rparr>)"
  by (simp add: UploadObjFromBuffer_def mem_sys_def mem_put_def eval_nat_numeral tryM_run sysM_run bindM_Ret)

lemma mem_download:
  "mem_objs (world s) b n = Some x \<Longrightarrow> DownloadObjToBuffer mem_sys b n s =
     (Ret (Inr x), s\<lparr>downloadBytes := downloadBytes s + int (length x)\<rparr>)"
  by (simp add: DownloadObjToBuffer_def mem_sys_def mem_get_def tryM_run sysM_run bindM_Ret)

lemma mem_state_up: "mw_down (world mem_state) = 0"
  by (simp add: mem_state_def mw0_def)

lemma mem_change_password:
  assumes "mw_down (world s) = 0"
  shows "\<exists>t. ChangePassword mem_sys mem_clib mem_jmeta b k1 k2 pw s = (Ret (Inr ()), t)"
proof -
  obtain w salt where salt: "GenerateRandomSalt mem_sys s = (Ret salt, s\<lparr>world := w\<rparr>)" "length salt = 32"
    "mw_down w = 0" using mem_salt [of s] assms by auto
  have "aes_key (IDKey mem_clib (bytes_of_string pw) (bytes_of_string salt))"
    using mem_clib_ok by (simp add: clib_okD)
  then show ?thesis
    using salt by (simp add: ChangePassword_def bindM_Ret [where m = "GenerateRandomSalt mem_sys"] DeriveKey_def SaltLen_def
      tryM_run mem_encrypt writeBucketMetadataFile_def Let_def mem_upload)
qed

theorem bucket_keys_256_bits_witness:
  "\<exists>(s :: mw gst) salt ver encKey hmacKey t.
     GetOrCreateBucketMetadata mem_sys mem_clib mem_jmeta ''b'' ''pw'' s = (Ret (Inr (salt, ver, encKey, hmacKey)), t) \<and>
     length encKey = 32 \<and> length hmacKey = 32 \<and> aes_key encKey"
proof -
  obtain s0 where "ChangePassword mem_sys mem_clib mem_jmeta ''b'' mem_key mem_key ''pw'' mem_state = (Ret (Inr ()), s0)"
    using mem_change_password [OF mem_state_up] by blast
  then obtain md where md: "mem_objs (world s0) ''b'' MetadataObjName = Some (md_marshal mem_jmeta md)"
      "decode_metadata mem_clib ''pw'' md = Ret (Inr (md, mem_key, mem_key))"
      "list_all json_plain (bm_Salt md @ EncryptedEncKeyB64 md @ EncryptedHmacKeyB64 md)"
    using mem.ChangePassword_stores [OF mem_clib_ok] by metis
  define s1 where "s1 = mem_state\<lparr>world := mw0\<lparr>mw_objs := [((''b'', MetadataObjName), md_marshal mem_jmeta md)]\<rparr>\<rparr>"
  have "GetObjList mem_sys ''b'' MetadataObjName False s1 =
      (Ret (Inr [(MetadataObjName, int (length (md_marshal mem_jmeta md)))]), s1)"
    by (simp add: GetObjList_def s1_def sysM_run mem_sys_def mem_list_def mem_objs_def MetadataObjName_def
      list_key_def HasPrefix_def tryM_run)
  moreover have "md_unmarshal mem_jmeta (md_marshal mem_jmeta md) = Inr md"
    using mem_jmeta_ok md(3) by (simp add: jmeta_ok_def)
  moreover have "mem_objs (world s1) ''b'' MetadataObjName = Some (md_marshal mem_jmeta md)"
    by (simp add: s1_def mem_objs_def)
  ultimately have "\<exists>t. GetOrCreateBucketMetadata mem_sys mem_clib mem_jmeta ''b'' ''pw'' s1 =
      (Ret (Inr (bm_Salt md, bm_Version md, mem_key, mem_key)), t)"
    using md(2) by (simp add: GetOrCreateBucketMetadata_def readBucketMetadataFile_def tryM_run mem_download mem_key_def)
  then obtain t where run: "GetOrCreateBucketMetadata mem_sys mem_clib mem_jmeta ''b'' ''pw'' s1 =
      (Ret (Inr (bm_Salt md, bm_Version md, mem_key, mem_key)), t)" ..
  from bucket_keys_256_bits [OF mem.backup_env_axioms mem_clib_ok mem_jmeta_ok run] run show ?thesis by blast
qed

theorem change_password_witness:
  "\<exists>u t md. ChangePassword mem_sys mem_clib mem_jmeta ''b'' mem_key mem_key ''new'' mem_state = (Ret (Inr ()), t) \<and>
     readBucketMetadataFile mem_sys mem_clib mem_jmeta ''b'' ''new'' t = (Ret (Inr (md, mem_key, mem_key)), u)"
proof -
  obtain t where t: "ChangePassword mem_sys mem_clib mem_jmeta ''b'' mem_key mem_key ''new'' mem_state = (Ret (Inr ()), t)"
    using mem_change_password [OF mem_state_up] by blast
  obtain md where "mem_objs (world t) ''b'' MetadataObjName = Some (md_marshal mem_jmeta md)"
    using mem.ChangePassword_stores [OF mem_clib_ok t] by metis
  from change_password [OF mem.backup_env_axioms mem_clib_ok mem_jmeta_ok t mem_download [OF this]] t
  show ?thesis by blast
qed

theorem bandwidth_accounting_witness:
  "\<exists>t. PersistBandwidthUsage mem_sys ((est_of mw0 ready_db)\<lparr>uploadBytes := 5, downloadBytes := 7\<rparr>) = (Ret (Inr ()), t) \<and>
     uploadBytes t = 0 \<and> downloadBytes t = 0 \<and> ur_used (last (bandwidth_usage_history (sdb t))) = 12"
proof -
  have "\<not> LocalDate mem_sys 1700000000 < MonthsBack mem_sys 1700000000 3" by code_simp
  moreover have "TimeNow mem_sys mw0 = (1700000000, mw0\<lparr>mw_time := 1700000001\<rparr>)"
    by (simp add: mem_sys_def mw0_def)
  ultimately show ?thesis
    using bandwidth_accounting [of "(est_of mw0 ready_db)\<lparr>uploadBytes := 5, downloadBytes := 7\<rparr>" mem_sys 1700000000
        "mw0\<lparr>mw_time := 1700000001\<rparr>"]
    by (auto simp: est_of_def ready_db_ok) (auto simp: ready_db_def)
qed

subsection \<open>Traversal, cache\<close>

definition mem_files :: mw where
  "mem_files = mw0\<lparr>mw_files := [(''/d'', new_file (plain_info (or ModeDir 0x1ED) 0)),
     (''/d/f'', mem_file [1, 2, 3, 4, 5, 6, 7, 8, 9, 10])]\<rparr>"

definition tst_of :: "mw \<Rightarrow> db \<Rightarrow> mw tst" where
  "tst_of w d = \<lparr>world = w, uploadBytes = 0, downloadBytes = 0, sdb = d, fdb = d, lastPersisted = 0, items = [],
     plaintextChunkBuf = [], posInPlaintextChunk = 0, totalCntJournal = 0, finishedCountJournal = 0, stats = None,
     knownPaths = [], backupIdsQueue = [], pendingDirEntryInserts = [], reportedEvents = []\<rparr>"

theorem Traverse_diff_witness:
  "\<exists>t. Traverse mem_sys None ''/d'' [] (tst_of mem_files ready_db) = (Ret (Inr []), t) \<and>
    map row_vals (dirents (sdb t)) = [(''d'', ''f'', 0)]"
proof -
  let ?t = "DNode ''d'' True (Inr (plain_info (or ModeDir 0x1ED) 0)) None
    [DNode ''f'' False (Inr (plain_info 420 10)) None []]"
  have "WalkTree mem_sys (StripTrailingSlashes ''/d'') (world (tst_of mem_files ready_db)) = (Inr ?t, mem_files)"
    by code_simp
  from Traverse_diff [OF _ this, of "[]"] have "\<exists>t rows. Traverse mem_sys None ''/d'' [] (tst_of mem_files ready_db) = (Ret (Inr []), t) \<and>
      dirents (sdb t) = dirents ready_db @ rows \<and>
      map row_vals rows = map (\<lambda>rel. (Base (StripTrailingSlashes ''/d''), rel, 0))
         (new_paths ready_db (Base (StripTrailingSlashes ''/d'')) (tree_entries (StripTrailingSlashes ''/d'') [] ?t))"
    using ready_db_ok(1) by (force simp: tst_of_def Let_def)
  moreover have "dirents ready_db = []" by (simp add: ready_db_def empty_db_def)
  moreover have "map (\<lambda>rel. (Base (StripTrailingSlashes ''/d''), rel, 0))
         (new_paths ready_db (Base (StripTrailingSlashes ''/d'')) (tree_entries (StripTrailingSlashes ''/d'') [] ?t)) = [(''d'', ''f'', 0 :: int)]"
    by code_simp
  ultimately show ?thesis by auto
qed

definition mem_chunk :: mw where
  "mem_chunk = mw0\<lparr>mw_objs := [((''b'', ''chunks/c''),
     replicate 12 3 @ mem_tag mem_key @ 0x1f # mem_hdr @ [1, 2, 3, 4])]\<rparr>"

theorem oversize_chunk_hangs_witness:
  "fst (FetchExtentIntoBuffer mem_renv ''chunks/c'' 0 1 (rst_of mem_chunk 10)) = Spin"
proof -
  have "GetObject mem_sys ''b'' ''chunks/c'' mem_chunk = (Inr (replicate 12 3 @ mem_tag mem_key @ 0x1f # mem_hdr @ [1, 2, 3, 4]), mem_chunk)"
    by (simp add: mem_sys_def mem_get_def mem_objs_def mem_chunk_def)
  then show ?thesis
    by (intro oversize_chunk_hangs [where x = "replicate 12 3 @ mem_tag mem_key @ 0x1f # mem_hdr @ [1, 2, 3, 4]" and w = mem_chunk])
      (simp_all add: rst_of_def isObjCached_def)
qed

end
