(* ===== verification/Witness_Files.thy ===== *)
theory Witness_Files
  imports Witnesses
begin

section \<open>Backups and restores of concrete files\<close>

text \<open>
  A ten-byte file read in two pieces, a packed chunk of two files, and a restore from a store that holds
  one chunk, in the in-memory environment.
\<close>

subsection \<open>Large files\<close>

definition mem_d :: "bytes" where "mem_d = [1, 2, 3, 4, 5, 6, 7, 8]"

definition mem_opened :: gofile where
  "mem_opened = \<lparr>gf_size = Inr 10, gf_reads = (\<lambda>n. read_parts n [1, 2, 3, 4, 5, 6, 7, 8, 9, 10])\<rparr>"

lemma mem_opened:
  "fst (OpenFile mem_sys ''/d/f'' (snd (RandRead mem_sys 12 mem_files))) = Inr mem_opened"
  "gf_reads mem_opened (nat ChunkSize) = map ReadData ([1, 2, 3, 4, 5, 6, 7, 8] # [[9, 10]])"
  "\<forall>x \<in> set ([1, 2, 3, 4, 5, 6, 7, 8] # [[9, 10 :: byte]]). x \<noteq> []"
  by (simp_all add: mem_files_def mem_opened_def mem_file_def new_file_def with_file_def
    mem_sys_def parts.simps ChunkSize_def)

lemma mem_name:
  "generateRandomChunkName mem_sys s = (Ret (b64encode (replicate 32 (of_nat (mw_rand (world s))))),
     s\<lparr>world := (world s)\<lparr>mw_rand := mw_rand (world s) + 1\<rparr>\<rparr>)"
  by (simp add: generateRandomChunkName_def tryM_run sysM_run mem_sys_def)

lemma mem_encrypt_nonce:
  "length n = 12 \<Longrightarrow> EncryptBufferWithNonce mem_clib mem_key p n = Ret (Inr (n @ mem_tag mem_key @ 0x1f # p))"
  by (simp add: EncryptBufferWithNonce_def Let_def gz_def mem_clib_def aes_key_def mem_key_def)

lemma mem_increment: "incrementNonce (replicate 12 0) = Ret (replicate 11 0 @ [1])"
  "incrementNonce (replicate 11 0 @ [1]) = Ret (replicate 11 0 @ [2])"
  by code_simp+

lemma mem_names: "b64encode (replicate 32 (1 :: byte)) \<noteq> b64encode (replicate 32 2)"
  by code_simp

lemma mem_files_fields: "mw_down mem_files = 0" "mw_rand mem_files = 0"
  by (simp_all add: mem_files_def mw0_def)

lemma large_run:
  fixes s :: "mw gst"
  assumes "s = mem_state\<lparr>world := mem_files\<rparr>"
  shows "\<exists>ces t. backup_large mem_benv ''/d/f'' mem_hdr s = (Ret (Inr (ces, False)), t) \<and>
    map ChunkName ces = [b64encode (replicate 32 1), b64encode (replicate 32 2)]"
proof -
  have op: "OpenFile mem_sys ''/d/f'' (mem_files\<lparr>mw_rand := Suc 0\<rparr>) = (Inr mem_opened, mem_files\<lparr>mw_rand := Suc 0\<rparr>)"
    by (simp add: mem_files_def mem_opened_def mem_file_def new_file_def with_file_def mem_sys_def)
  have rnd: "RandRead mem_sys 12 mem_files = (Inr (replicate 12 0), mem_files\<lparr>mw_rand := Suc 0\<rparr>)"
    by (simp add: mem_sys_def mem_files_def mw0_def)
  show ?thesis
    using mem_opened(2) by (simp add: backup_large_def assms mem_files_fields tryM_run sysM_run op rnd mem_state_def mem_encrypt_nonce
      bindM_Ret mem_name mem_upload mem_increment Let_def)
qed

theorem large_file_roundtrip_witness:
  "\<exists>(t :: mw gst) ces. restores mem_objs mem_content mem_renv (mem_objs (world t)) \<lparr>RelPath = ''f'', ChunkExtents = ces\<rparr>
     [1, 2, 3, 4, 5, 6, 7, 8, 9, 10]"
proof -
  obtain ces t where run: "backup_large mem_benv ''/d/f'' mem_hdr (mem_state\<lparr>world := mem_files\<rparr>) = (Ret (Inr (ces, False)), t)"
      "map ChunkName ces = [b64encode (replicate 32 1), b64encode (replicate 32 2)]"
    by (metis large_run [OF refl])
  have "distinct (map ChunkName ces)" using mem_names run(2) by simp
  from large_file_roundtrip [where R = mem_renv and E = mem_benv and rel = "''f''", OF _ _ _ _ _ _ _ _ _ mem_opened(2,3) _ _ _ _ run(1) this,
      where objs = mem_objs and fcontent = mem_content and md = mem_md]
  show ?thesis using memf.restore_env_axioms mem_clib_ok mem_gob_ok mem_opened(1) mem_hdr
    by (simp add: mem_state_def mem_md_def) blast
qed

theorem large_file_nonces_witness:
  "\<exists>(t :: mw gst) ce nonce. extent_holds mem_clib mem_key (mem_objs (world t) ''b'') ce (mem_hdr @ [1, 2, 3, 4, 5, 6, 7, 8]) nonce"
proof -
  obtain ces t where run: "backup_large mem_benv ''/d/f'' mem_hdr (mem_state\<lparr>world := mem_files\<rparr>) = (Ret (Inr (ces, False)), t)"
      "map ChunkName ces = [b64encode (replicate 32 1), b64encode (replicate 32 2)]"
    by (metis large_run [OF refl])
  then obtain ce ces' where ces: "ces = ce # ces'" by (cases ces) auto
  have "distinct (map ChunkName (ce # ces'))" using mem_names run(2) ces by simp
  from large_file_nonces [where R = mem_renv and E = mem_benv, OF _ _ _ _ _ _ _ mem_opened(2,3) run(1) [unfolded ces] this,
      where objs = mem_objs and fcontent = mem_content]
  show ?thesis using memf.restore_env_axioms mem_clib_ok mem_opened(1)
    by (simp add: mem_state_def) blast
qed

subsection \<open>Restoring\<close>

interpretation memw: working_env mem_sys mem_objs mem_content
  by unfold_locales (auto simp: mem_sys_def mem_get_def put_file_def upd_file_def with_file_def mem_content_def split: option.splits)

lemma join2_cache:
  "CHR ''/'' \<notin> set m \<Longrightarrow> join2 ''/cache'' m \<in> {''/'', ''/cache'', ''/cache/'' @ m}"
  using SplitChar_append [of "CHR ''/''" "''cache''" m]
  by (auto simp: join2_def Join_def Clean_def HasPrefix_def clean_parts_def clean_step_def SplitChar_no_sep Let_def)

lemma cache_apart_other: "c \<noteq> CHR ''c'' \<Longrightarrow> cache_apart ''/cache'' (CHR ''/'' # c # p)"
  using join2_cache by (fastforce simp: cache_apart_def)

lemma restored_f: "restored_path (StripTrailingSlashes ''/r'') ''d'' ''2024-01-01'' ''f'' = ''/r/d/2024-01-01/f''"
  by code_simp

theorem restore_succeeds_witness:
  "\<exists>t. RestoreDirEntry mem_renv ''/r'' \<lparr>RelPath = ''f'', ChunkExtents = [\<lparr>ChunkName = ''c'', ce_Offset = 0,
       ce_Len = int (length mem_hdr) + 4\<rparr>]\<rparr> ''d'' ''2024-01-01'' ''f'' (rst_of mem_chunk 1000) = (Ret (Inr ()), t) \<and>
     mem_content (world t) (restored_path (StripTrailingSlashes ''/r'') ''d'' ''2024-01-01'' ''f'') = Some [1, 2, 3, 4]"
proof -
  let ?x = "replicate 12 3 @ mem_tag mem_key @ 0x1f # mem_hdr @ [1, 2, 3, 4]"
  have obj: "mem_objs mem_chunk ''b'' ''chunks/c'' = Some ?x" by (simp add: mem_chunk_def mem_objs_def)
  have dec: "DecryptBufferReturningNonce mem_clib mem_key ?x = Ret (Inr (mem_hdr @ [1, 2, 3, 4], replicate 12 3))"
    by code_simp
  have "length mem_hdr < 900" by code_simp
  then have "room (sum_list (map (chunk_bytes (mem_objs mem_chunk ''b'')) [\<lparr>ChunkName = ''c'', ce_Offset = 0,
       ce_Len = int (length mem_hdr) + 4\<rparr>])) (rst_of mem_chunk 1000)"
    using obj by (simp add: room_def rst_of_def chunk_bytes_def totalSizeOnDisk_sum)
  moreover have "extents_hold mem_clib mem_key (mem_objs mem_chunk ''b'') [\<lparr>ChunkName = ''c'', ce_Offset = 0,
       ce_Len = int (length mem_hdr) + 4\<rparr>] [mem_hdr @ [1, 2, 3, 4]] [replicate 12 3]"
    using obj dec by (simp add: extent_holds_def slice_def)
  moreover have "deserializeMetadataStruct mem_gob (mem_hdr @ [1, 2, 3, 4]) = Ret (Inr (mem_md, [1, 2, 3, 4]))"
    using header_back [OF mem_gob_ok mem_hdr] by blast
  moreover have "cache_apart ''/cache'' (restored_path (StripTrailingSlashes ''/r'') ''d'' ''2024-01-01'' ''f'')"
    using cache_apart_other [of "CHR ''r''"] restored_f by simp
  ultimately show ?thesis
    using restore_succeeds [OF memw.working_env_axioms, of mem_renv "rst_of mem_chunk 1000" "''/r''" "''d''" "''2024-01-01''" "''f''"
      "\<lparr>RelPath = ''f'', ChunkExtents = [\<lparr>ChunkName = ''c'', ce_Offset = 0, ce_Len = int (length mem_hdr) + 4\<rparr>]\<rparr>"
      "mem_hdr @ [1, 2, 3, 4]" "[]" "[replicate 12 3]" mem_md "[1, 2, 3, 4]"]
    by (simp add: rst_of_def cache_ok_def mem_md_def xattrs_parse_def)
qed

subsection \<open>Small files\<close>

definition packed_db :: db where
  "packed_db = ready_db\<lparr>backup_journal_seq := 2, backup_journal := [
       \<lparr>bj_id = 1, bj_backup_info_id = 1, bj_dirent_id = 7, bj_change_type = Updated, bj_index_entry = None, bj_status = InProgress\<rparr>,
       \<lparr>bj_id = 2, bj_backup_info_id = 1, bj_dirent_id = 8, bj_change_type = Updated, bj_index_entry = None, bj_status = InProgress\<rparr>]\<rparr>"

definition packed_entries :: "(string \<times> bytes \<times> BackupJournalTask) list" where
  "packed_entries = [(''f'', mem_hdr @ [1, 2, 3], \<lparr>bjt_id = 1, DirEntId = 7, bjt_ChangeType = Updated\<rparr>),
     (''g'', mem_hdr @ [4], \<lparr>bjt_id = 2, DirEntId = 8, bjt_ChangeType = Updated\<rparr>)]"

definition packed_est :: "mw est" where
  "packed_est = (est_of mw0 packed_db)\<lparr>plaintextChunkBuf := mem_hdr @ [1, 2, 3] @ mem_hdr @ [4],
     posInPlaintextChunk := 2 * int (length mem_hdr) + 4,
     items := [\<lparr>cpi_relPath = ''f'', cpi_Offset = 0, cpi_Len = int (length mem_hdr) + 3,
         cpi_bjt = \<lparr>bjt_id = 1, DirEntId = 7, bjt_ChangeType = Updated\<rparr>\<rparr>,
       \<lparr>cpi_relPath = ''g'', cpi_Offset = int (length mem_hdr) + 3, cpi_Len = int (length mem_hdr) + 1,
         cpi_bjt = \<lparr>bjt_id = 2, DirEntId = 8, bjt_ChangeType = Updated\<rparr>\<rparr>]\<rparr>"

lemma mem_hdr_small: "length mem_hdr < 900"
  by code_simp

lemma packed_run: "pack_all packed_entries (est_of mw0 packed_db) = (Ret True, packed_est)"
  using mem_hdr_small
  by (simp add: packed_entries_def packed_est_def est_of_def AddDirEntry_def bindM_Ret ChunkSize_def statsM_def)

lemma packed_finish: "returns (finish_chunk mem_benv nm) (packed_est\<lparr>lastPersisted := l, fdb := d, world := w, uploadBytes := u\<rparr>) (\<lambda>_ _. True)"
  by code_simp

lemma packed_complete: "\<exists>c t. Complete mem_benv packed_est = (Ret c, t)"
proof -
  have w: "world packed_est = mw0" "mw_rand mw0 = 0" "mw_down mw0 = 0" by (simp_all add: packed_est_def est_of_def mw0_def)
  have key: "aes_key mem_key" by (simp add: aes_key_def mem_key_def)
  have buf: "plaintextChunkBuf packed_est \<noteq> []" by (simp add: packed_est_def)
  have "\<exists>l d. persistMemDbToFile mem_benv True False (packed_est\<lparr>world := mw0\<lparr>mw_rand := Suc (Suc 0)\<rparr>\<rparr>) =
      (Ret (), packed_est\<lparr>world := mw0\<lparr>mw_rand := 2, mw_time := 1700000002\<rparr>, lastPersisted := l, fdb := d\<rparr>)"
    by (intro exI [where x = 1700000001] exI [where x = packed_db])
      (simp add: persistMemDbToFile_def copy_db_def BackupTo_def bindM_Ret nowM_def mem_sys_def packed_est_def est_of_def mw0_def
        packed_db_def ready_db_ok)
  then obtain l d where persist: "persistMemDbToFile mem_benv True False (packed_est\<lparr>world := mw0\<lparr>mw_rand := Suc (Suc 0)\<rparr>\<rparr>) =
      (Ret (), packed_est\<lparr>world := mw0\<lparr>mw_rand := 2, mw_time := 1700000002\<rparr>, lastPersisted := l, fdb := d\<rparr>)" by blast
  have "Complete mem_benv packed_est = finish_chunk mem_benv (b64encode (replicate 32 0))
      (packed_est\<lparr>lastPersisted := l, fdb := d, world := mw0\<lparr>mw_rand := Suc (Suc 0), mw_time := 1700000002,
         mw_objs := map_put (''b'', ''chunks/'' @ b64encode (replicate 32 0))
           (replicate 12 1 @ mem_tag mem_key @ 31 # plaintextChunkBuf packed_est) (mw_objs mw0)\<rparr>,
         uploadBytes := uploadBytes packed_est + (29 + int (length (plaintextChunkBuf packed_est)))\<rparr>)"
    using buf by (simp add: Complete_def bindM_Ret mem_name tryM_run mem_encrypt key w persist mem_upload numeral_2_eq_2)
  then have "\<exists>u w. Complete mem_benv packed_est = finish_chunk mem_benv (b64encode (replicate 32 0))
      (packed_est\<lparr>lastPersisted := l, fdb := d, world := w, uploadBytes := u\<rparr>)" by blast
  then obtain u w where "Complete mem_benv packed_est = finish_chunk mem_benv (b64encode (replicate 32 0))
      (packed_est\<lparr>lastPersisted := l, fdb := d, world := w, uploadBytes := u\<rparr>)" by blast
  then show ?thesis using packed_finish [where nm = "b64encode (replicate 32 0)" and l = l and d = d and w = w and u = u]
    by (auto elim!: returnsE)
qed

theorem packed_file_roundtrip_witness:
  "\<exists>c t crp. Complete mem_benv packed_est = (Ret c, t) \<and>
    (\<not> c \<and> engine_view t = engine_view packed_est \<or>
     RelPath crp = ''f'' \<and> restores mem_objs mem_content mem_renv (mem_objs (world t)) crp [1, 2, 3])"
proof -
  obtain c t where run: "Complete mem_benv packed_est = (Ret c, t)" using packed_complete by blast
  have start: "db_ready (sdb (est_of mw0 packed_db))" "packer_ok (est_of mw0 packed_db)"
    by (simp_all add: est_of_def packed_db_def ready_db_def empty_db_def db_ready_def packer_ok_def ChunkSize_def del: db_readyD)
  have "distinct (map (\<lambda>i. bjt_id (cpi_bjt i)) (items packed_est))"
    "(''f'', mem_hdr @ [1, 2, 3], \<lparr>bjt_id = 1, DirEntId = 7, bjt_ChangeType = Updated\<rparr>) \<in> set packed_entries"
    by (simp_all add: packed_est_def packed_entries_def)
  from packed_file_roundtrip [where R = mem_renv and E = mem_benv and rel = "''f''" and contents = "[1, 2, 3]" and
      hdr = mem_hdr and bjt = "\<lparr>bjt_id = 1, DirEntId = 7, bjt_ChangeType = Updated\<rparr>", OF _ _ _ _ _ _ _ _ start packed_run run this,
      where objs = mem_objs and fcontent = mem_content and md = mem_md]
  show ?thesis using memf.restore_env_axioms mem_clib_ok mem_gob_ok run mem_hdr
    by (simp add: mem_md_def) blast
qed

end
