(* ===== verification/Journal_Index.thy ===== *)
theory Journal_Index
  imports JournaledBackup Snapshots_GC Chunk_Store
begin

section \<open>From the journal to the index\<close>

text \<open>
  What the journal recorded is what the next listing of the snapshots shows, unless writing the index
  failed: then the journal is wiped all the same. And the chunk that is being packed stays within its
  bounds, whatever is added to it.
\<close>

subsection \<open>The law of the JSON package\<close>

text \<open>
  Text of plain ASCII characters survives \<^verbatim>\<open>encoding/json\<close>; a map comes back as the same map, whatever
  the order of its entries.
\<close>

definition ascii :: "string \<Rightarrow> bool" where
  "ascii n \<longleftrightarrow> (\<forall>c \<in> set n. of_char c < (128 :: nat))"

definition plain_crp :: "CloudRelPath \<Rightarrow> bool" where
  "plain_crp crp \<longleftrightarrow> ascii (RelPath crp) \<and> (\<forall>ce \<in> set (ChunkExtents crp). ascii (ChunkName ce))"

definition plain_snapshot :: "Snapshot \<Rightarrow> bool" where
  "plain_snapshot ss \<longleftrightarrow> ascii (ss_EncryptedName ss) \<and> ascii (ss_DecryptedName ss) \<and>
     (\<forall>(p, crp) \<in> set (RelPaths ss). ascii p \<and> plain_crp crp)"

definition same_snapshot :: "Snapshot \<Rightarrow> Snapshot \<Rightarrow> bool" where
  "same_snapshot a b \<longleftrightarrow> ss_EncryptedName a = ss_EncryptedName b \<and> ss_DecryptedName a = ss_DecryptedName b \<and>
     Datetime a = Datetime b \<and> map_of (RelPaths a) = map_of (RelPaths b)"

definition jidx_ok :: "jidx \<Rightarrow> bool" where
  "jidx_ok J \<longleftrightarrow> (\<forall>ss. plain_snapshot ss \<and> distinct (map_keys (RelPaths ss)) \<longrightarrow>
     (\<exists>ss'. ss_unmarshal J (ss_marshal J ss) = Inr ss' \<and> same_snapshot ss ss'))"

lemma ascii_b64encode: "ascii (b64encode b)"
proof -
  have "of_char c < (128 :: nat)" if "json_plain c" for c
    using that unfolding json_plain_def salt_letters_def by auto
  then show ?thesis using b64encode_plain [of b] by (auto simp: ascii_def list_all_iff)
qed

subsection \<open>The entries of the journal\<close>

text \<open>The parsed entries of the journal, in the order of its rows; the last one of a path counts.\<close>

fun journal_entries :: "jidx \<Rightarrow> bytes option list \<Rightarrow> CloudRelPath list" where
  "journal_entries J [] = []"
| "journal_entries J (None # es) = journal_entries J es"
| "journal_entries J (Some b # es) = (case (if b = [] then None else crp_unmarshal J b) of
     None \<Rightarrow> journal_entries J es | Some crp \<Rightarrow> crp # journal_entries J es)"

definition indexed :: "CloudRelPath list \<Rightarrow> string \<Rightarrow> CloudRelPath option" where
  "indexed cs p = (case filter (\<lambda>c. RelPath c = p) cs of [] \<Rightarrow> None | xs \<Rightarrow> Some (last xs))"

lemma indexed_Cons:
  "indexed (c # cs) p = (case indexed cs p of Some x \<Rightarrow> Some x | None \<Rightarrow> if RelPath c = p then Some c else None)"
  by (auto simp: indexed_def split: list.splits)

lemma collect_entries_indexed:
  "collect_entries J es m = Ret out \<Longrightarrow>
     map_of out p = (case indexed (journal_entries J es) p of Some x \<Rightarrow> Some x | None \<Rightarrow> map_of m p)"
proof (induction J es m rule: collect_entries.induct)
  case (2 J e rest m)
  then show ?case
    by (cases e) (auto simp: indexed_Cons NewCloudRelPathFromJson_def split: option.splits if_splits)
qed (simp add: indexed_def)

lemma collect_entries_keys:
  "collect_entries J es m = Ret out \<Longrightarrow> distinct (map_keys m) \<Longrightarrow> distinct (map_keys out)"
  by (induction J es m rule: collect_entries.induct) (auto split: option.splits if_splits simp: distinct_update)

lemma set_map_put: "set (map_put k v m) \<subseteq> insert (k, v) (set m)"
  by (induction m) auto

lemma collect_entries_plain:
  "collect_entries J es m = Ret out \<Longrightarrow> \<forall>c \<in> set (journal_entries J es). plain_crp c \<Longrightarrow>
     \<forall>e \<in> set m. ascii (fst e) \<and> plain_crp (snd e) \<Longrightarrow> \<forall>e \<in> set out. ascii (fst e) \<and> plain_crp (snd e)"
proof (induction es arbitrary: m)
  case (Cons e es)
  show ?case
  proof (cases "Option.bind e (\<lambda>b. if b = [] then None else crp_unmarshal J b)")
    case None
    then have same: "collect_entries J (e # es) m = collect_entries J es m"
        "journal_entries J (e # es) = journal_entries J es"
      if "e = None \<or> e = Some []" using that by auto
    have "e = None \<or> e = Some [] \<or> (\<exists>b. e = Some b \<and> b \<noteq> [] \<and> crp_unmarshal J b = None)"
      using None by (cases e) (auto split: if_splits)
    then have "e = None \<or> e = Some []" using Cons.prems(1) by (auto simp: NewCloudRelPathFromJson_def)
    from same [OF this] Cons.IH [of m] Cons.prems show ?thesis by simp
  next
    case (Some c)
    then obtain b where b: "e = Some b" "b \<noteq> []" "crp_unmarshal J b = Some c" by (auto split: if_splits bind_splits)
    then have c: "plain_crp c" and rest: "\<forall>c \<in> set (journal_entries J es). plain_crp c"
      and run: "collect_entries J es (map_put (RelPath c) c m) = Ret out"
      using Cons.prems(1,2) by (simp_all add: NewCloudRelPathFromJson_def)
    have "\<forall>e \<in> set (map_put (RelPath c) c m). ascii (fst e) \<and> plain_crp (snd e)"
      using set_map_put [of "RelPath c" c m] Cons.prems(3) c by (auto simp: plain_crp_def)
    from Cons.IH [OF run rest this] show ?thesis .
  qed
qed simp

subsection \<open>The index that is written\<close>

lemma WriteIndexFile_RetE:
  assumes "WriteIndexFile S C J b key bk name s = (Ret (Inr ()), t)"
  obtains e1 e2 m s1 s2 buf where "EncryptFilename C key bk = Inr e1" "EncryptFilename C key name = Inr e2"
    "collect_entries J (map bj_index_entry (backup_journal (sdb s))) [] = Ret m" "world s1 = world s"
    "EncryptBuffer S C key (ss_marshal J \<lparr>ss_EncryptedName = e2, ss_DecryptedName = name,
       Datetime = (case parse_snapshot_name name of None \<Rightarrow> zero_time | Some t \<Rightarrow> t), RelPaths = m\<rparr>) s1 = (Ret (Inr buf), s2)"
    "UploadObjFromBuffer S b (e1 @ ''/@'' @ e2) buf (ComputeETag C buf) s2 = (Ret (Inr ()), t)"
proof -
  from assms obtain e1 e2 where e: "EncryptFilename C key bk = Inr e1" "EncryptFilename C key name = Inr e2"
    by (auto simp: WriteIndexFile_def split: sum.splits)
  let ?ss = "\<lambda>m. \<lparr>ss_EncryptedName = e2, ss_DecryptedName = name,
       Datetime = (case parse_snapshot_name name of None \<Rightarrow> zero_time | Some t \<Rightarrow> t), RelPaths = m\<rparr>"
  from assms e obtain es s1 m s2 where q: "dbM GetAllBackupJournalRowIndexEntries s = (Ret (Inr es), s1)"
    and c: "liftGo (collect_entries J es []) s1 = (Ret m, s2)"
    and w: "SerializeAndWriteSnapshotObj S C J (?ss m) key e1 e2 b s2 = (Ret (Inr ()), t)"
    by (auto simp: WriteIndexFile_def Let_def elim!: tryM_RetE bindM_RetE)
  from q obtain d where d: "GetAllBackupJournalRowIndexEntries (sdb s) = (Ret (Inr es), d)" "s1 = s\<lparr>sdb := d\<rparr>"
    by (auto simp: dbM_def zoomM_def split: prod.splits)
  have es: "es = map bj_index_entry (backup_journal (sdb s))"
    using d(1) unfolding GetAllBackupJournalRowIndexEntries_def by (elim stmtM_cases) auto
  have s2: "collect_entries J es [] = Ret m" "s2 = s1" using c by auto
  from w obtain buf s3 where "EncryptBuffer S C key (ss_marshal J (?ss m)) s2 = (Ret (Inr buf), s3)"
    "UploadObjFromBuffer S b (e1 @ ''/'' @ ''@'' @ e2) buf (ComputeETag C buf) s3 = (Ret (Inr ()), t)"
    by (auto simp: SerializeAndWriteSnapshotObj_def Let_def elim!: tryM_RetE)
  with that [OF e _ _ _ _, of m s2 buf s3] s2 es d(2) show thesis by simp
qed

text \<open>
  C4. From the journal to the listing. After a successful \<^verbatim>\<open>WriteIndexFile\<close> the next successful
  \<^verbatim>\<open>GetGroupedSnapshots\<close> shows the snapshot, and under every path the entry the journal last recorded for
  it, and nothing else. This takes that names are plain text and that the bucket has no foreign objects.
\<close>

theorem index_roundtrip:
  assumes env: "backup_env S objs" "keyed_store S objs C key" "jidx_ok J"
    and names: "bucket_names_ok C key (objs (world s) b)" "backup_name_ok C key bk" "ascii name"
      "\<forall>c \<in> set (journal_entries J (map bj_index_entry (backup_journal (sdb s)))). plain_crp c"
    and run: "WriteIndexFile S C J b key bk name s = (Ret (Inr ()), t)"
      "GetGroupedSnapshots S C J key b pr t = (Ret (Inr g), u)"
  shows "\<exists>snap. has_snapshot g bk name snap \<and> ss_DecryptedName snap = name \<and>
    (\<forall>p. map_of (RelPaths snap) p = indexed (journal_entries J (map bj_index_entry (backup_journal (sdb s)))) p)"
proof -
  from run(1) obtain e1 e2 m s1 s2 buf where e: "EncryptFilename C key bk = Inr e1" "EncryptFilename C key name = Inr e2"
    and m: "collect_entries J (map bj_index_entry (backup_journal (sdb s))) [] = Ret m" and s1: "world s1 = world s"
    and enc: "EncryptBuffer S C key (ss_marshal J \<lparr>ss_EncryptedName = e2, ss_DecryptedName = name,
       Datetime = (case parse_snapshot_name name of None \<Rightarrow> zero_time | Some t \<Rightarrow> t), RelPaths = m\<rparr>) s1 = (Ret (Inr buf), s2)"
    and up: "UploadObjFromBuffer S b (e1 @ ''/@'' @ e2) buf (ComputeETag C buf) s2 = (Ret (Inr ()), t)"
    by (rule WriteIndexFile_RetE) blast
  define ss where "ss = \<lparr>ss_EncryptedName = e2, ss_DecryptedName = name,
       Datetime = (case parse_snapshot_name name of None \<Rightarrow> zero_time | Some t \<Rightarrow> t), RelPaths = m\<rparr>"
  have clib: "clib_ok C" "length key = 32"
    using keyed_store.clib [OF env(2)] keyed_store.key32 [OF env(2)] .
  have "ascii e2" using EncryptFilename_ok [OF clib, of name] e(2) ascii_b64encode
    by (cases "name = []") (auto simp: EncryptFilename_def)
  moreover have "\<forall>e \<in> set m. ascii (fst e) \<and> plain_crp (snd e)" using collect_entries_plain [OF m names(4)] by simp
  ultimately have "plain_snapshot ss" using names(3) by (auto simp: plain_snapshot_def ss_def)
  moreover have "distinct (map_keys (RelPaths ss))" using collect_entries_keys [OF m] by (simp add: ss_def)
  ultimately obtain snap where snap: "ss_unmarshal J (ss_marshal J ss) = Inr snap" "same_snapshot ss snap"
    using env(3) unfolding jidx_ok_def by blast
  from enc obtain nonce w where rnd: "RandRead S 12 (world s1) = (Inr nonce, w)" "s2 = s1\<lparr>world := w\<rparr>" and key: "aes_key key"
    and buf: "buf = nonce @ GcmSeal C key nonce (bytes_of_string (gz C (string_of_bytes (ss_marshal J ss))))"
    by (elim EncryptBuffer_RetE) (auto simp: ss_def)
  have dec: "DecryptBuffer C key buf = Ret (Inr (ss_marshal J ss))"
    unfolding buf using DecryptBuffer_seal [OF clib(1) key backup_env.rand_len [OF env(1) rnd(1)]] .
  have z: "objs (world s2) = objs (world s)"
    using preservesD' [OF backup_env.frame_encrypt [OF env(1)] enc, of "objs (world s)"] s1 by simp
  let ?n = "e1 @ ''/@'' @ e2"
  have t: "objs (world t) = (objs (world s))(b := (objs (world s) b)(?n \<mapsto> buf))"
    using object_store.Upload_ok [OF keyed_store.axioms(1) [OF env(2)] up] z by simp
  have idx: "index_obj C key bk name ?n" using e by (simp add: index_obj_def)
  have "bucket_names_ok C key (objs (world t) b)"
    using names(1,2) idx by (auto simp: t bucket_names_ok_def)
  moreover have "objs (world t) b ?n = Some buf" by (simp add: t)
  ultimately have "has_snapshot g bk name snap"
    using keyed_store.GetGroupedSnapshots_has [OF env(2) _ idx names(2) _ dec snap(1) run(2)] by blast
  moreover have "map_of (RelPaths snap) p = indexed (journal_entries J (map bj_index_entry (backup_journal (sdb s)))) p" for p
    using snap(2) collect_entries_indexed [OF m, of p] by (simp add: same_snapshot_def ss_def split: option.splits)
  moreover have "ss_DecryptedName snap = name" using snap(2) by (simp add: same_snapshot_def ss_def)
  ultimately show ?thesis by blast
qed

lemma WriteIndexFile_dirents:
  "preserves (\<lambda>s. dirents (sdb s) = ds) (WriteIndexFile S C J b key dir name)"
proof -
  have rows: "preserves (\<lambda>s. dirents (sdb s) = ds) (dbM GetAllBackupJournalRowIndexEntries)"
    by (rule preservesI) (auto simp: dbM_def zoomM_def GetAllBackupJournalRowIndexEntries_def split: prod.splits elim!: stmtM_cases)
  have up: "preserves (\<lambda>s. dirents (sdb s) = ds) (upload_loop n S b nm x e k)" for n nm x e k
    by (induction n arbitrary: k) (auto intro!: go_preserves)
  show ?thesis
    unfolding WriteIndexFile_def SerializeAndWriteSnapshotObj_def UploadObjFromBuffer_def Let_def
    by (auto intro!: preserves_bindM preserves_tryM rows preserves_liftGo preserves_retM preserves_EncryptBuffer up
        split: sum.splits option.splits)
qed

text \<open>
  C5. A failed index loses the backup. Whatever the progress callback does, as long as it returns
  (\<open>s0\<close> is the state it leaves): when the \<^verbatim>\<open>WriteIndexFile\<close> that follows fails, for instance because the upload
  does, the journal is wiped just as if it had succeeded, and the caller is told nothing. The last backup
  times of the files are kept, so they count as backed up, and the journal is clean, so nothing is replayed.
\<close>

theorem index_failure_wipes_journal:
  assumes "progressUpdate cb s = (Ret (), s0)"
    and "WriteIndexFile (eS E) (eC E) (eJ E) (eBucket E) (eKey E) (Base dir) name s0 = (Ret (Inl e), s1)"
    and "db_ready (sdb s1)"
  shows "\<exists>t. writeIndexFileAndWipeJournal E cb dir name s = (Ret (), t) \<and> world t = world s1 \<and>
    backup_journal (sdb t) = [] \<and> fst (HasDirtyBackupJournal (sdb t)) = Ret (Inr False) \<and>
    dirents (sdb t) = dirents (sdb s0)"
proof -
  have "preserves (\<lambda>x. dirents (sdb x) = dirents (sdb s0))
      (WriteIndexFile (eS E) (eC E) (eJ E) (eBucket E) (eKey E) (Base dir) name)"
    by (rule WriteIndexFile_dirents)
  from preservesD' [OF this assms(2)] have "dirents (sdb s1) = dirents (sdb s0)" by simp
  with assms show ?thesis
    by (auto simp: writeIndexFileAndWipeJournal_def bindM_Ret dbM_def zoomM_def WipeBackupJournal_def
      deleteAllRowsBackupJournal_def execM_ready HasDirtyBackupJournal_def rowM_ready tryM_def bindM_def)
qed

subsection \<open>The chunk packer stays within its bounds\<close>

lemma contiguous_sum: "contiguous p is e \<Longrightarrow> p + sum_list (map cpi_Len is) = e"
  by (induction p "is" e rule: contiguous.induct) auto

lemma contiguous_offsets:
  "contiguous p is e \<Longrightarrow> n < length is \<Longrightarrow>
     0 \<le> cpi_Len (is ! n) \<and> cpi_Offset (is ! n) = p + sum_list (map cpi_Len (take n is))"
proof (induction p "is" e arbitrary: n rule: contiguous.induct)
  case (2 pos i "is" e)
  then show ?case by (cases n) auto
qed simp

text \<open>The states of the packer: entries are added and chunks are completed, in any order.\<close>

inductive packer_reach :: "'w benv \<Rightarrow> ('w, 'z) est_scheme \<Rightarrow> bool" for E where
  created: "packer_reach E (newChunkPacker s)"
| added: "packer_reach E s \<Longrightarrow> packer_reach E (snd (AddDirEntry relPath buf bjt s))"
| completed: "packer_reach E s \<Longrightarrow> packer_reach E (snd (Complete E s))"

lemma packer_ok_same [simp]:
  "packer_ok (s\<lparr>world := w\<rparr>) = packer_ok s" "packer_ok (s\<lparr>uploadBytes := u\<rparr>) = packer_ok s"
  "packer_ok (s\<lparr>fdb := f\<rparr>) = packer_ok s" "packer_ok (s\<lparr>lastPersisted := l\<rparr>) = packer_ok s"
  "packer_ok (s\<lparr>finishedCountJournal := x\<rparr>) = packer_ok s" "packer_ok (s\<lparr>totalCntJournal := y\<rparr>) = packer_ok s"
  by (simp_all add: packer_ok_def)

lemma packer_ok_sdb [simp]: "packer_ok (s\<lparr>sdb := d\<rparr>) = packer_ok s"
  by (simp add: packer_ok_def)

lemma packer_dbM: "preserves packer_ok (dbM m)"
  by (rule preservesI) (simp add: dbM_def zoomM_def split: prod.splits)

lemma packer_upload: "preserves packer_ok (upload_loop n S b nm x e k)"
  by (induction n arbitrary: k) (auto intro!: go_preserves)

lemma packer_finish: "preserves packer_ok (finish_chunk E nm)"
proof -
  have "preserves packer_ok (finalize_items E nm its c)" for its c
    by (induction its arbitrary: c)
      (auto simp: updateLastBackupTime_def completeTask_def Let_def intro!: preserves_bindM packer_dbM preserves_modifyM
        preserves_nowM preserves_if split: prod.splits)
  then show ?thesis unfolding finish_chunk_def by (intro preserves_bindM preserves_getM preserves_modifyM preserves_retM) simp_all
qed

lemma Complete_packer_ok: "preserves packer_ok (Complete E)"
proof -
  have "preserves packer_ok (copy_db :: (('w, 'z) est_scheme, unit) prog)"
    by (rule preservesI) (simp add: copy_db_def split: prod.splits)
  then have persist: "preserves packer_ok (persistMemDbToFile E a b)" for a b
    unfolding persistMemDbToFile_def Let_def
    by (intro preserves_bindM preserves_nowM preserves_getM preserves_if preserves_modifyM preserves_retM) simp_all
  show ?thesis
    unfolding Complete_def generateRandomChunkName_def UploadObjFromBuffer_def
    by (intro preserves_bindM preserves_tryM preserves_getM preserves_if preserves_sysM preserves_liftGo preserves_retM
        preserves_EncryptBuffer packer_upload packer_finish persist) simp_all
qed

lemma packer_reach_ok: "packer_reach E s \<Longrightarrow> packer_ok s"
  by (induction rule: packer_reach.induct) (auto dest: preservesD [OF AddDirEntry_packer_ok] preservesD [OF Complete_packer_ok])

text \<open>
  C6. Whatever is added to the packer and however often a chunk is completed, uploaded or not: the chunk
  being packed is at most 128 MiB, the position is its length, and the entries partition it: every one
  begins where those before it end, so there is no gap and no overlap, and the last ends with the chunk.
\<close>

theorem packer_bounds:
  assumes "packer_reach E s"
  shows "int (length (plaintextChunkBuf s)) \<le> ChunkSize \<and> posInPlaintextChunk s = int (length (plaintextChunkBuf s)) \<and>
    (\<forall>n < length (items s). 0 \<le> cpi_Len (items s ! n) \<and>
       cpi_Offset (items s ! n) = sum_list (map cpi_Len (take n (items s)))) \<and>
    sum_list (map cpi_Len (items s)) = int (length (plaintextChunkBuf s))"
proof -
  have ok: "packer_ok s" by (rule packer_reach_ok [OF assms])
  then have "contiguous 0 (items s) (int (length (plaintextChunkBuf s)))" by (simp add: packer_ok_def)
  from contiguous_offsets [OF this] contiguous_sum [OF this] ok show ?thesis by (simp add: packer_ok_def)
qed

end
