(* ===== verification/Witness_Gc.thy ===== *)
theory Witness_Gc
  imports Witnesses Journal_Index
begin

section \<open>Garbage collection and replay at concrete inputs\<close>

text \<open>A bucket with one snapshot and two chunks, a bucket without one, a journal to play, and
  an index written and listed.\<close>

subsection \<open>Garbage collection\<close>

definition gc_index_name :: string where
  "gc_index_name = projr (EncryptFilename mem_clib mem_key ''d'') @ ''/@'' @
     projr (EncryptFilename mem_clib mem_key ''2024-01-01_00.00.00'')"

definition gc_snapshot :: Snapshot where
  "gc_snapshot = \<lparr>ss_EncryptedName = [], ss_DecryptedName = ''2024-01-01_00.00.00'', Datetime = 1704067200,
     RelPaths = [(''f'', \<lparr>RelPath = ''f'', ChunkExtents = [\<lparr>ChunkName = ''c1'', ce_Offset = 0, ce_Len = 3\<rparr>]\<rparr>)]\<rparr>"

definition gc_index :: bytes where
  "gc_index = replicate 12 0 @ mem_tag mem_key @ 0x1f # ss_marshal mem_jidx gc_snapshot"

definition gc_world :: mw where
  "gc_world = mw0\<lparr>mw_objs := [((''b'', gc_index_name), gc_index), ((''b'', ''chunks/c1''), [1, 2, 3]),
     ((''b'', ''chunks/c2''), [4, 5, 6])]\<rparr>"

lemma mem_filename: "name \<noteq> [] \<Longrightarrow> \<exists>r. EncryptFilename mem_clib mem_key name = Inr (''BwcH'' @ r)"
proof -
  assume "name \<noteq> []"
  then have "EncryptFilename mem_clib mem_key name =
      Inr (b64encode (SivSeal mem_clib mem_key (replicate 12 0) (bytes_of_string (gz mem_clib name))))"
    using mem_clib_ok by (simp add: EncryptFilename_ok mem_key_def)
  moreover have "mem_tag mem_key = 7 # 7 # 7 # replicate 13 7" by code_simp
  moreover have "b64encode (7 # 7 # 7 # x) = ''BwcH'' @ b64encode x" for x
  proof -
    have "b64encode [7, 7, 7] = ''BwcH''" by code_simp
    then show ?thesis by simp
  qed
  ultimately show ?thesis by (simp add: mem_clib_def)
qed

lemma gc_names:
  "index_obj mem_clib mem_key ''d'' ''2024-01-01_00.00.00'' gc_index_name" "backup_name_ok mem_clib mem_key ''d''"
  "gc_index_name \<noteq> ''chunks/c1''" "gc_index_name \<noteq> ''chunks/c2''"
proof -
  obtain e1 e2 where e: "EncryptFilename mem_clib mem_key ''d'' = Inr (''BwcH'' @ e1)"
    "EncryptFilename mem_clib mem_key ''2024-01-01_00.00.00'' = Inr (''BwcH'' @ e2)"
    using mem_filename [of "''d''"] mem_filename [of "''2024-01-01_00.00.00''"] by auto
  then show "index_obj mem_clib mem_key ''d'' ''2024-01-01_00.00.00'' gc_index_name"
    "backup_name_ok mem_clib mem_key ''d''" "gc_index_name \<noteq> ''chunks/c1''" "gc_index_name \<noteq> ''chunks/c2''"
    by (simp_all add: index_obj_def gc_index_name_def backup_name_ok_def HasPrefix_def)
qed

lemma length_mem_key: "length mem_key = 32"
  by (simp add: mem_key_def)

theorem gc_keeps_referenced_witness:
  "mem_objs (world (snd (GCChunks mem_sys mem_clib mem_jidx ''b'' mem_key False (mem_state\<lparr>world := gc_world\<rparr>)))) ''b'' ''chunks/c1''
     = Some [1, 2, 3]"
proof -
  let ?s = "mem_state\<lparr>world := gc_world\<rparr>"
  have objs: "mem_objs (world ?s) ''b'' n =
      (if n = gc_index_name then Some gc_index else if n = ''chunks/c1'' then Some [1, 2, 3]
       else if n = ''chunks/c2'' then Some [4, 5, 6] else None)" for n
    by (auto simp: mem_objs_def gc_world_def)
  have names: "bucket_names_ok mem_clib mem_key (mem_objs (world ?s) ''b'')"
    unfolding bucket_names_ok_def objs using gc_names by (auto split: if_splits)
  have dec: "DecryptBuffer mem_clib mem_key gc_index = Ret (Inr (ss_marshal mem_jidx gc_snapshot))"
    using DecryptBuffer_seal [OF mem_clib_ok, of mem_key "replicate 12 0" "ss_marshal mem_jidx gc_snapshot"]
    by (simp add: gc_index_def mem_clib_def gz_def aes_key_def length_mem_key)
  have un: "ss_unmarshal mem_jidx (ss_marshal mem_jidx gc_snapshot) = Inr gc_snapshot"
    by (simp add: mem_jidx_def ssc.dec_enc_end)
  obtain r t where run: "GCChunks mem_sys mem_clib mem_jidx ''b'' mem_key False ?s = (r, t)" by fastforce
  have "mem_objs (world ?s) ''b'' gc_index_name = Some gc_index" unfolding objs by simp
  from gc_keeps_referenced [OF memk.keyed_store_axioms names gc_names(1,2) this dec un _ _ run,
      where p = "''f''" and crp = "\<lparr>RelPath = ''f'', ChunkExtents = [\<lparr>ChunkName = ''c1'', ce_Offset = 0, ce_Len = 3\<rparr>]\<rparr>"
        and ce = "\<lparr>ChunkName = ''c1'', ce_Offset = 0, ce_Len = 3\<rparr>"]
  show ?thesis using run objs [of "''chunks/c1''"] gc_names(3) by (simp add: gc_snapshot_def)
qed

definition gc_unused :: mw where
  "gc_unused = mw0\<lparr>mw_objs := [((''b'', ''chunks/c2''), [4, 5, 6])]\<rparr>"

theorem gc_removes_unreferenced_witness:
  "mem_objs (world (snd (GCChunks mem_sys mem_clib mem_jidx ''b'' mem_key False (mem_state\<lparr>world := gc_unused\<rparr>)))) ''b'' ''chunks/c2''
     = None"
proof -
  let ?s = "mem_state\<lparr>world := gc_unused\<rparr>"
  have "returns (GCChunks mem_sys mem_clib mem_jidx ''b'' mem_key False) ?s (\<lambda>r _. right (\<lambda>_. True) r)" by code_simp
  then obtain u t where run: "GCChunks mem_sys mem_clib mem_jidx ''b'' mem_key False ?s = (Ret (Inr u), t)"
    by (elim returnsE rightE) blast
  have "returns (GetGroupedSnapshots mem_sys mem_clib mem_jidx mem_key ''b'' False) ?s (\<lambda>r _. right (\<lambda>g. g = []) r)" by code_simp
  then obtain s1 where g: "GetGroupedSnapshots mem_sys mem_clib mem_jidx mem_key ''b'' False ?s = (Ret (Inr []), s1)"
    by (elim returnsE rightE) blast
  show ?thesis
    using gc_removes_unreferenced [OF mem.object_store_axioms run g, of "''c2''"] run by (simp add: chunk_refs_def)
qed

subsection \<open>Playing the journal\<close>

definition steady_sys :: "mw sys" where
  "steady_sys = mem_sys\<lparr>PutObject := (\<lambda>b n x w. mem_put b n x (w\<lparr>mw_down := 0\<rparr>))\<rparr>"

theorem PlayBackupJournal_ends_witness:
  "fst (PlayBackupJournal (mem_benv\<lparr>eS := steady_sys\<rparr>) \<lparr>checkAndHandleTraversalCancelation = None, checkAndHandleCancelation = None,
     setInitialProgress = None, updateProgress = None\<rparr> ''/d'' ''snap'' ''low'' (est_of mem_files sample_journal)) \<noteq> Spin"
proof -
  have "\<not> unreachable (fst (PutObject steady_sys b n x w))" for b n x w
    by (simp add: unreachable_def steady_sys_def mem_put_def)
  then have "outages_end steady_sys" by (auto simp: outages_end_def steady_sys_def mem_sys_def intro!: exI [of _ 0])
  moreover have "unstarted_count sample_journal < 10"
    by (simp add: unstarted_count_def sample_journal_def is_status_def)
  ultimately show ?thesis
    by (intro PlayBackupJournal_ends) (simp_all add: callbacks_quiet_def est_of_def steady_sys_def mem_sys_def)
qed

subsection \<open>The index\<close>

lemma mem_jidx_ok: "jidx_ok mem_jidx"
  by (simp add: jidx_ok_def mem_jidx_def ssc.dec_enc_end same_snapshot_def)

definition indexed_db :: db where
  "indexed_db = sample_journal\<lparr>backup_journal := [\<lparr>bj_id = 1, bj_backup_info_id = 1, bj_dirent_id = 7, bj_change_type = Updated,
     bj_index_entry = Some (enc_crp \<lparr>RelPath = ''f'', ChunkExtents = [\<lparr>ChunkName = ''c'', ce_Offset = 0, ce_Len = 3\<rparr>]\<rparr>),
     bj_status = Finished\<rparr>]\<rparr>"

lemma enc_crp_nonempty: "enc_crp c \<noteq> []"
  using crpc.dec_enc_end [of c] by (auto simp: dec_crp_def dec_string_def dec_nat_def)

lemma indexed_entries: "journal_entries mem_jidx (map bj_index_entry (backup_journal indexed_db)) =
    [\<lparr>RelPath = ''f'', ChunkExtents = [\<lparr>ChunkName = ''c'', ce_Offset = 0, ce_Len = 3\<rparr>]\<rparr>]"
  by (simp add: indexed_db_def mem_jidx_def crpc.dec_enc_end enc_crp_nonempty)

text \<open>Listing a bucket that holds one index.\<close>

lemma mem_grouped:
  fixes t :: "(mw, 'z) gst_scheme"
  assumes e: "EncryptFilename mem_clib mem_key bk = Inr e1" "EncryptFilename mem_clib mem_key ss = Inr e2"
    and pre: "\<not> HasPrefix e1 ''metadata''" "\<not> HasPrefix e1 ''chunks''"
    and w: "mw_objs (world t) = [((''b'', e1 @ ''/@'' @ e2), x)]"
    and x: "DecryptBuffer mem_clib mem_key x = Ret (Inr j)" "ss_unmarshal J j = Inr snap"
  shows "\<exists>g u. GetGroupedSnapshots mem_sys mem_clib J mem_key ''b'' False t = (Ret (Inr g), u)"
proof -
  note c1 = memk.enc_component [OF e(1)] and c2 = memk.enc_component [OF e(2)]
  note k = memk.list_key_index [OF e]
  have skip: "\<not> skip_prefix [''metadata'', ''chunks''] (e1 @ ''/'')"
    using pre by (simp add: skip_prefix_iff HasPrefix_slash [where r = "[]"])
  have top: "GetObjListTopLevel mem_sys ''b'' [''metadata'', ''chunks''] t = (Ret (Inr [e1]), t)"
    using w k(1) skip c1 StripTrailingSlashes_component [of e1]
    by (simp add: GetObjListTopLevel_def tryM_run sysM_run mem_sys_def mem_list_def HasPrefix_def)
  have "HasPrefix (e1 @ ''/@'' @ e2) (e1 @ ''/@'')" using HasPrefix_append [of "e1 @ ''/@''" e2] by simp
  then have idx: "\<exists>n. GetObjList mem_sys ''b'' (e1 @ ''/@'') False t = (Ret (Inr [(e1 @ ''/@'' @ e2, n)]), t)"
    using w k(2) by (simp add: GetObjList_def tryM_run sysM_run mem_sys_def mem_list_def)
  have get: "mem_objs (world t) ''b'' (e1 @ ''/@'' @ e2) = Some x" using w by (simp add: mem_objs_def)
  have trim: "TrimPrefix (e1 @ ''/@'' @ e2) (e1 @ ''/@'') = e2" using TrimPrefix_append [of "e1 @ ''/@''" e2] by simp
  from idx obtain n where n: "GetObjList mem_sys ''b'' (e1 @ ''/@'') False t = (Ret (Inr [(e1 @ ''/@'' @ e2, n)]), t)" ..
  have "\<exists>g u. group_backups mem_sys mem_clib J mem_key ''b'' [e1] [] t = (Ret (Inr g), u)"
    using n x memk.dec_enc [OF e(1)] memk.dec_enc [OF e(2)] trim get
    by (simp add: tryM_run Let_def GetSnapshotIndexFile_def mem_download decryptIndexFile_def UnmarshalSnapshotObj_def
      del: append_assoc append.simps)
  then show ?thesis by (simp add: GetGroupedSnapshots_def tryM_run top)
qed

theorem index_roundtrip_witness:
  "\<exists>g t u snap. WriteIndexFile mem_sys mem_clib mem_jidx ''b'' mem_key ''d'' ''s'' (est_of mw0 indexed_db) = (Ret (Inr ()), t) \<and>
     GetGroupedSnapshots mem_sys mem_clib mem_jidx mem_key ''b'' False t = (Ret (Inr g), u) \<and> has_snapshot g ''d'' ''s'' snap \<and>
     map_of (RelPaths snap) ''f'' = Some \<lparr>RelPath = ''f'', ChunkExtents = [\<lparr>ChunkName = ''c'', ce_Offset = 0, ce_Len = 3\<rparr>]\<rparr>"
proof -
  let ?s = "est_of mw0 indexed_db"
  let ?crp = "\<lparr>RelPath = ''f'', ChunkExtents = [\<lparr>ChunkName = ''c'', ce_Offset = 0, ce_Len = 3\<rparr>]\<rparr>"
  obtain r1 r2 where e: "EncryptFilename mem_clib mem_key ''d'' = Inr (''BwcH'' @ r1)"
    "EncryptFilename mem_clib mem_key ''s'' = Inr (''BwcH'' @ r2)"
    using mem_filename [of "''d''"] mem_filename [of "''s''"] by auto
  define ss where "ss = \<lparr>ss_EncryptedName = ''BwcH'' @ r2, ss_DecryptedName = ''s'',
     Datetime = (case parse_snapshot_name ''s'' of None \<Rightarrow> zero_time | Some t \<Rightarrow> t), RelPaths = [(''f'', ?crp)]\<rparr>"
  have up: "mw_down mw0 = 0" "mw_rand mw0 = 0" "mw_objs mw0 = []" by (simp_all add: mw0_def)
  have wd: "world ?s = mw0" by (simp add: est_of_def)
  have key: "aes_key mem_key" by (simp add: aes_key_def length_mem_key)
  have q: "dbM GetAllBackupJournalRowIndexEntries ?s = (Ret (Inr (map bj_index_entry (backup_journal indexed_db))), ?s)"
    by (simp add: dbM_def zoomM_def GetAllBackupJournalRowIndexEntries_def stmtM_ready est_of_def indexed_db_def
      sample_journal_def empty_db_def)
  have c: "collect_entries mem_jidx (map bj_index_entry (backup_journal indexed_db)) [] = Ret [(''f'', ?crp)]"
    by (simp add: indexed_db_def mem_jidx_def NewCloudRelPathFromJson_def crpc.dec_enc_end enc_crp_nonempty)
  let ?x = "replicate 12 0 @ mem_tag mem_key @ 0x1f # ss_marshal mem_jidx ss"
  have "\<exists>t. WriteIndexFile mem_sys mem_clib mem_jidx ''b'' mem_key ''d'' ''s'' ?s = (Ret (Inr ()), t) \<and>
      mw_objs (world t) = [((''b'', (''BwcH'' @ r1) @ ''/@'' @ (''BwcH'' @ r2)), ?x)]"
    using e up key
    by (simp add: WriteIndexFile_def tryM_run q bindM_Ret c SerializeAndWriteSnapshotObj_def Let_def ss_def
      mem_encrypt mem_upload wd)
  then obtain t where t: "WriteIndexFile mem_sys mem_clib mem_jidx ''b'' mem_key ''d'' ''s'' ?s = (Ret (Inr ()), t)"
    "mw_objs (world t) = [((''b'', (''BwcH'' @ r1) @ ''/@'' @ (''BwcH'' @ r2)), ?x)]" by blast
  have dec: "DecryptBuffer mem_clib mem_key ?x = Ret (Inr (ss_marshal mem_jidx ss))"
    using DecryptBuffer_seal [OF mem_clib_ok key, of "replicate 12 0" "ss_marshal mem_jidx ss"]
    by (simp add: mem_clib_def gz_def)
  have un: "ss_unmarshal mem_jidx (ss_marshal mem_jidx ss) = Inr ss" by (simp add: mem_jidx_def ssc.dec_enc_end)
  have pre: "\<not> HasPrefix (''BwcH'' @ r1) ''metadata''" "\<not> HasPrefix (''BwcH'' @ r1) ''chunks''"
    by (simp_all add: HasPrefix_def)
  obtain g u where g: "GetGroupedSnapshots mem_sys mem_clib mem_jidx mem_key ''b'' False t = (Ret (Inr g), u)"
    using mem_grouped [OF e pre t(2) dec un] by blast
  have "bucket_names_ok mem_clib mem_key (mem_objs (world ?s) ''b'')" "backup_name_ok mem_clib mem_key ''d''"
    using e pre by (auto simp: bucket_names_ok_def backup_name_ok_def mem_objs_def est_of_def up)
  moreover have "ascii ''s''" "plain_crp ?crp" by (simp_all add: ascii_def plain_crp_def)
  ultimately have "\<exists>snap. has_snapshot g ''d'' ''s'' snap \<and> ss_DecryptedName snap = ''s'' \<and>
      (\<forall>p. map_of (RelPaths snap) p = indexed (journal_entries mem_jidx (map bj_index_entry (backup_journal (sdb ?s)))) p)"
    using indexed_entries
    by (intro index_roundtrip [OF mem.backup_env_axioms memk.keyed_store_axioms mem_jidx_ok _ _ _ _ t(1) g])
      (simp_all add: est_of_def)
  then show ?thesis using t(1) g indexed_entries
    by (fastforce simp: est_of_def indexed_def)
qed

theorem packer_bounds_witness:
  "int (length (plaintextChunkBuf (snd (AddDirEntry ''f'' [1, 2] \<lparr>bjt_id = 1, DirEntId = 7, bjt_ChangeType = Updated\<rparr>
     (newChunkPacker (est_of mw0 ready_db)))))) \<le> ChunkSize"
  using packer_bounds [OF packer_reach.added [OF packer_reach.created, of mem_benv "''f''" "[1, 2]"]] by blast

end
