(* ===== verification/Frontend.thy ===== *)
theory Frontend
  imports JournaledBackup Usage Restore BucketMetadata
begin

section \<open>What the daemon and the command line share\<close>

text \<open>
  Both drive the packages under \<^verbatim>\<open>pkg\<close> over the state of the engine: they connect to the store, use the
  database file (the field \<open>fdb\<close>) where the engine expects a database, and run a restore over a chunk
  cache of their own, whose directory and size are variables of the package \<^verbatim>\<open>backup\<close>.
\<close>

record 'w pst = "'w tst" +
  gCacheDirectory :: string
  gMaxCacheSizeOnDisk :: int

definition ErrConfigFileNotFound :: goerr where
  "ErrConfigFileNotFound = GoErr ''Config File Not Found''"

definition SupportedBucketVersions :: "int list" where
  "SupportedBucketVersions = [1]"

subsection \<open>The connection to the store\<close>

record objconn =
  oc_endpoint :: string
  oc_accessKey :: string
  oc_secretKey :: string
  oc_trust :: bool

text \<open>The argument \<open>dial\<close> is \<^verbatim>\<open>minio.New\<close>.\<close>

definition NewObjStore :: "(objconn \<Rightarrow> goerr + 'w sys) \<Rightarrow> objconn \<Rightarrow> ('s, 'w sys) prog" where
  "NewObjStore dial c = (case dial c of Inl e \<Rightarrow> liftGo Fatal | Inr S \<Rightarrow> retM S)"

subsection \<open>The database file in the place of the engine's database\<close>

definition onFile :: "(('w, 'z) est_scheme, 'a) prog \<Rightarrow> (('w, 'z) est_scheme, 'a) prog" where
  "onFile m = (\<lambda>s. case m (s\<lparr>sdb := fdb s\<rparr>) of (r, t) \<Rightarrow> (r, t\<lparr>fdb := sdb t, sdb := sdb s\<rparr>))"

subsection \<open>A chunk cache of its own\<close>

record rcache =
  rc_chunks :: "(string \<times> CachedChunk) list"
  rc_stats :: CacheStatistics
  rc_queue :: "DirChmodQueueItem list"

definition rst_of_pst :: "rcache \<Rightarrow> ('w, 'z) pst_scheme \<Rightarrow> 'w rst" where
  "rst_of_pst c s = \<lparr>world = world s, uploadBytes = uploadBytes s, downloadBytes = downloadBytes s,
     chunks = rc_chunks c, cstats = rc_stats c, MaxCacheSizeOnDisk = gMaxCacheSizeOnDisk s,
     CacheDirectory = gCacheDirectory s, dirChmodQueue = rc_queue c\<rparr>"

definition withCache :: "rcache \<Rightarrow> ('w rst, 'a) prog \<Rightarrow> (('w, 'z) pst_scheme, 'a \<times> rcache) prog" where
  "withCache c m = (\<lambda>s. case m (rst_of_pst c s) of (r, t) \<Rightarrow>
     (bindGo r (\<lambda>a. Ret (a, \<lparr>rc_chunks = chunks t, rc_stats = cstats t, rc_queue = dirChmodQueue t\<rparr>)),
      s\<lparr>world := world t, uploadBytes := uploadBytes t, downloadBytes := downloadBytes t,
        gCacheDirectory := CacheDirectory t, gMaxCacheSizeOnDisk := MaxCacheSizeOnDisk t\<rparr>))"

definition empty_cache :: rcache where
  "empty_cache = \<lparr>rc_chunks = [], rc_stats = no_stats, rc_queue = []\<rparr>"

fun chmod_queue :: "'w sys \<Rightarrow> DirChmodQueueItem list \<Rightarrow> (('w, 'z) gst_scheme, unit) prog" where
  "chmod_queue S [] = retM ()"
| "chmod_queue S (dirChmodQueueItem # rest) =
     bindM (sysM (Chmod S (dcq_AbsPath dirChmodQueueItem) (FinalMode dirChmodQueueItem))) (\<lambda>_. chmod_queue S rest)"

end
