(* ===== verification/Daemon.thy ===== *)
theory Daemon
  imports Frontend
begin

section \<open>The daemon: state, status and configuration (daemon)\<close>

text \<open>
  The daemon's globals (\<^verbatim>\<open>main.go\<close>, \<^verbatim>\<open>config.go\<close>, \<^verbatim>\<open>status.go\<close>) are the fields the record \<open>dmn\<close> adds to
  the state of the engine, and a remote call is a program over them; \<^verbatim>\<open>gDb\<close> is the database file, the
  field \<open>fdb\<close>. Here every call runs by itself; \<open>Daemon_Steps\<close> takes the calls apart at their locks and
  interleaves them. Log lines are left out, but not what is computed for the client.

  Percentages are kept as the two numbers whose quotient the code sends, since nothing depends on their
  rounding to \<^verbatim>\<open>float32\<close>. The configuration file is read by the package viper, the store is reached through
  minio-go, local times and localised numbers are printed by libraries: all are fields of \<open>denv\<close>.
\<close>

subsection \<open>State\<close>

datatype dstate = Idle | CheckingConn | BackingUp | Restoring | CleaningUp

datatype percent = Pct int | PctOf int int   \<comment> \<open>\<open>PctOf x y\<close>: x of y, in percent\<close>

record Status =
  st_state :: dstate
  st_msg :: string
  st_percentage :: percent
  st_events :: "ReportedEvent list"

text \<open>What a handler starts with \<^verbatim>\<open>go\<close>.\<close>

datatype job = BackupJob | RestoreJob string string "string list" | ReplayJob

record 'w dmn = "'w pst" +
  gStatus :: Status
  gCancelRequested :: bool
  gCfg :: "CfgSettings option"
  gUsername :: string
  gUserHomeDir :: string
  gEncKey :: "bytes option"
  gHmacKey :: "bytes option"
  gDbOpen :: bool
  goroutines :: "job list"

record 'w denv =
  dS :: "'w sys"                                  \<comment> \<open>clock, users and files of the machine\<close>
  dConn :: "objconn \<Rightarrow> goerr + 'w sys"            \<comment> \<open>\<^verbatim>\<open>minio.New\<close>\<close>
  dC :: clib
  dJ :: jidx
  dG :: gob
  dM :: jmeta
  dViper :: "string \<Rightarrow> ('w, CfgSettings) op"       \<comment> \<open>\<^verbatim>\<open>viper.ReadInConfig\<close> in a directory\<close>
  dReadAt :: "string \<Rightarrow> int \<Rightarrow> nat \<Rightarrow> ('w, string \<times> bool) op"   \<comment> \<open>\<^verbatim>\<open>ReadAt\<close>: what was read, and whether the file ended\<close>
  dFormatTime :: "int \<Rightarrow> string"                  \<comment> \<open>local time, \<^verbatim>\<open>Jan 2, 2006 3:04pm\<close>\<close>
  dFormatNumber :: "int \<Rightarrow> string"                \<comment> \<open>\<^verbatim>\<open>FormatNumberAsString\<close>\<close>
  dFormatFloat :: "string \<Rightarrow> int \<Rightarrow> int \<Rightarrow> string"   \<comment> \<open>\<^verbatim>\<open>FormatFloatAsString\<close> of a quotient\<close>

definition initialStatus :: Status where
  "initialStatus = \<lparr>st_state = Idle, st_msg = [], st_percentage = Pct (-1), st_events = []\<rparr>"

text \<open>The daemon before the first call, with a database file and a memory database.\<close>

definition daemon_start :: "'w \<Rightarrow> db \<Rightarrow> db \<Rightarrow> 'w dmn" where
  "daemon_start w memdb dbfile = \<lparr>world = w, uploadBytes = 0, downloadBytes = 0, sdb = memdb, fdb = dbfile, lastPersisted = 0,
     items = [], plaintextChunkBuf = [], posInPlaintextChunk = 0, totalCntJournal = 0, finishedCountJournal = 0,
     stats = None, knownPaths = [], backupIdsQueue = [], pendingDirEntryInserts = [], reportedEvents = [],
     gCacheDirectory = ''/tmp/tless-cache/Chunks'', gMaxCacheSizeOnDisk = 1 * 1024 * 1024 * 1024,
     gStatus = initialStatus, gCancelRequested = False, gCfg = None, gUsername = [], gUserHomeDir = [], gEncKey = None,
     gHmacKey = None, gDbOpen = False, goroutines = []\<rparr>"

subsection \<open>Reading and writing the globals\<close>

definition statusM :: "(Status \<Rightarrow> Status) \<Rightarrow> (('w, 'z) dmn_scheme, unit) prog" where
  "statusM f = modifyM (\<lambda>s. s\<lparr>gStatus := f (gStatus s)\<rparr>)"

definition setStatus :: "dstate \<Rightarrow> string \<Rightarrow> percent \<Rightarrow> (('w, 'z) dmn_scheme, unit) prog" where
  "setStatus st m p = statusM (\<lambda>g. g\<lparr>st_state := st, st_msg := m, st_percentage := p\<rparr>)"

definition reportM :: "ReportedEvent \<Rightarrow> (('w, 'z) dmn_scheme, unit) prog" where
  "reportM e = statusM (\<lambda>g. g\<lparr>st_events := st_events g @ [e]\<rparr>)"

text \<open>Following the pointer \<^verbatim>\<open>gCfg\<close>, which panics when it is nil.\<close>

definition cfgM :: "(CfgSettings \<Rightarrow> 'a) \<Rightarrow> (('w, 'z) dmn_scheme, 'a) prog" where
  "cfgM f = bindM (getM gCfg) (\<lambda>c. case c of None \<Rightarrow> liftGo Panic | Some c \<Rightarrow> retM (f c))"

text \<open>A call on \<^verbatim>\<open>gDb\<close>: it panics when the handle is nil, otherwise it works on the file.\<close>

definition gDbM :: "(db, 'a) prog \<Rightarrow> (('w, 'z) dmn_scheme, 'a) prog" where
  "gDbM m = bindM (getM gDbOpen) (\<lambda>b.
     if b then zoomM fdb (\<lambda>d s. s\<lparr>fdb := d\<rparr>) m else liftGo Panic)"

text \<open>\<^verbatim>\<open>make([]byte, 32)\<close> and \<^verbatim>\<open>copy\<close>: a nil key leaves zeros.\<close>

definition copy32 :: "bytes option \<Rightarrow> bytes" where
  "copy32 k = (let b = (case k of None \<Rightarrow> [] | Some b \<Rightarrow> b) in take 32 b @ replicate (32 - length b) 0)"

definition keyM :: "(('w, 'z) dmn_scheme, bytes) prog" where
  "keyM = bindM (getM gEncKey) (\<lambda>k. retM (copy32 k))"

subsection \<open>The connection to the store\<close>

definition conn_of :: "CfgSettings \<Rightarrow> objconn" where
  "conn_of c = \<lparr>oc_endpoint = Endpoint c, oc_accessKey = AccessKeyId c, oc_secretKey = SecretAccessKey c,
     oc_trust = TrustSelfSignedCerts c\<rparr>"

text \<open>The settings are copied under the lock, then the client is made: the store and the bucket.\<close>

definition openStore :: "'w denv \<Rightarrow> (('w, 'z) dmn_scheme, 'w sys \<times> string) prog" where
  "openStore D = bindM (cfgM (\<lambda>c. (conn_of c, Bucket c))) (\<lambda>(c, bucket).
     bindM (NewObjStore (dConn D) c) (\<lambda>S. retM (S, bucket)))"

definition benv_of :: "'w denv \<Rightarrow> 'w sys \<Rightarrow> string \<Rightarrow> bytes \<Rightarrow> 'w benv" where
  "benv_of D S bucket key = \<lparr>eS = S, eC = dC D, eJ = dJ D, eG = dG D, eKey = key, eBucket = bucket\<rparr>"

subsection \<open>Status (status.go)\<close>

definition getLastBackupTimeFormatted :: "'w denv \<Rightarrow> (('w, 'z) dmn_scheme, string) prog" where
  "getLastBackupTimeFormatted D =
     bindM (gDbM GetLastCompletedBackupUnixTime) (\<lambda>r.
     let lastBackupUnixtime = (case r of Inl _ \<Rightarrow> 0 | Inr t \<Rightarrow> t) in
     retM (if lastBackupUnixtime \<le> 0 then ''none'' else dFormatTime D lastBackupUnixtime))"

text \<open>Back to \<open>Idle\<close>, as every operation that ran through ends.\<close>

definition backToIdle :: "'w denv \<Rightarrow> (('w, 'z) dmn_scheme, unit) prog" where
  "backToIdle D = bindM (getLastBackupTimeFormatted D) (\<lambda>t. setStatus Idle (''Last backup: '' @ t) (Pct (-1)))"

datatype pbStatus = NEED_HELLO | IDLE | CHECKING_CONN | BACKING_UP | RESTORING | CLEANING_UP

datatype pbEventKind = ErrOperationNotPermitted | InfoBackupCompleted | ErrIncompatibleBucketVersion
  | InfoBackupCompletedWithErrors | InfoBackupCanceled | InfoAutopruneCompleted

record DaemonStatusResponse =
  ds_Status :: pbStatus
  ds_Msg :: string
  ds_Percentage :: percent
  ds_ReportedEvents :: "(pbEventKind \<times> ReportedEvent) list"

definition pb_kind :: "ReportedEventKind \<Rightarrow> pbEventKind" where
  "pb_kind k = (case k of
       ERR_OP_NOT_PERMITTED \<Rightarrow> ErrOperationNotPermitted
     | INFO_BACKUP_COMPLETED \<Rightarrow> InfoBackupCompleted
     | ERR_INCOMPATIBLE_BUCKET_VERSION \<Rightarrow> ErrIncompatibleBucketVersion
     | INFO_BACKUP_COMPLETED_WITH_ERRORS \<Rightarrow> InfoBackupCompletedWithErrors
     | INFO_BACKUP_CANCELED \<Rightarrow> InfoBackupCanceled
     | INFO_AUTOPRUNE_COMPLETED \<Rightarrow> InfoAutopruneCompleted)"

definition pb_status :: "dstate \<Rightarrow> pbStatus" where
  "pb_status st = (case st of Idle \<Rightarrow> IDLE | CheckingConn \<Rightarrow> CHECKING_CONN | BackingUp \<Rightarrow> BACKING_UP
     | Restoring \<Rightarrow> RESTORING | CleaningUp \<Rightarrow> CLEANING_UP)"

definition server_Status :: "(('w, 'z) dmn_scheme, DaemonStatusResponse) prog" where
  "server_Status =
     bindM (getM (\<lambda>s. gUsername s = [] \<or> gUserHomeDir s = [] \<or> gCfg s = None \<or> gEncKey s = None)) (\<lambda>need.
     bindM (getM (\<lambda>s. need \<or> \<not> gDbOpen s)) (\<lambda>isNeedingHello.
     if isNeedingHello
     then retM \<lparr>ds_Status = NEED_HELLO, ds_Msg = [], ds_Percentage = Pct 0, ds_ReportedEvents = []\<rparr>
     else bindM (getM gStatus) (\<lambda>g.
       bindM (if st_state g = Idle then statusM (\<lambda>g. g\<lparr>st_events := []\<rparr>) else retM ()) (\<lambda>_.
       retM \<lparr>ds_Status = pb_status (st_state g), ds_Msg = st_msg g, ds_Percentage = st_percentage g,
         ds_ReportedEvents = (if st_state g = Idle then map (\<lambda>e. (pb_kind (ev_Kind e), e)) (st_events g) else [])\<rparr>))))"

subsection \<open>Checking a connection (check\_conn.go), version (version.go)\<close>

record CheckConnRequest =
  cc_conn :: objconn
  cc_BucketName :: string

text \<open>The daemon is claimed in one critical section, and released at the end in another.\<close>

definition CheckConn_claim :: "(('w, 'z) dmn_scheme, bool) prog" where
  "CheckConn_claim = (\<lambda>s. if st_state (gStatus s) = Idle
     then (Ret False, s\<lparr>gStatus := (gStatus s)\<lparr>st_state := CheckingConn, st_msg := []\<rparr>\<rparr>) else (Ret True, s))"

definition CheckConn_probe :: "'w denv \<Rightarrow> CheckConnRequest \<Rightarrow> (('w, 'z) dmn_scheme, bool \<times> goerr option) prog" where
  "CheckConn_probe D req =
     bindM (NewObjStore (dConn D) (cc_conn req)) (\<lambda>S.
     if cc_BucketName req = [] then bindM (ListBuckets S) (\<lambda>(_, err). retM (err = None, err))
     else IsReachable S (cc_BucketName req))"

definition CheckConn_release :: "string \<Rightarrow> (('w, 'z) dmn_scheme, unit) prog" where
  "CheckConn_release t = statusM (\<lambda>g. g\<lparr>st_state := Idle, st_msg := ''Last backup: '' @ t\<rparr>)"

definition server_CheckConn :: "'w denv \<Rightarrow> CheckConnRequest \<Rightarrow> (('w, 'z) dmn_scheme, bool \<times> string) prog" where
  "server_CheckConn D req =
     bindM CheckConn_claim (\<lambda>isBusy.
     if isBusy then retM (False, ''busy with other work'')
     else bindM (CheckConn_probe D req) (\<lambda>(isSuccessful, err).
       bindM (getLastBackupTimeFormatted D) (\<lambda>t.
       bindM (CheckConn_release t) (\<lambda>_.
       retM (if isSuccessful then (True, []) else (False, case err of None \<Rightarrow> [] | Some e \<Rightarrow> error_text e))))))"

definition server_Version :: "string \<Rightarrow> string \<Rightarrow> string \<times> string" where
  "server_Version gConstVersion gConstCommitHash = (gConstVersion, gConstCommitHash)"

end
