(* ===== verification/Daemon_Config.thy ===== *)
theory Daemon_Config
  imports Daemon
begin

section \<open>Configuration, start-up and accounting (config.go, main.go, usage.go)\<close>

text \<open>
  Reading and writing the configuration, the \<^verbatim>\<open>Hello\<close> call that brings the daemon up, and the calls that
  persist and report usage. An error of \<^verbatim>\<open>initConfig\<close> is its error value; \<^verbatim>\<open>log.Fatal\<close> is \<open>Fatal\<close>.
\<close>

subsection \<open>The configuration file\<close>

definition standardConfigFileName :: string where
  "standardConfigFileName = ''config.toml''"

definition makeTemplateConfigFile :: "'w denv \<Rightarrow> string \<Rightarrow> string \<Rightarrow> CfgSettings option
    \<Rightarrow> (('w, 'z) dmn_scheme, unit) prog" where
  "makeTemplateConfigFile D username userHomeDir configValues =
     (let S = dS D in
      tryM (sysM (UserLookup S username)) (\<lambda>e. liftGo Fatal) (\<lambda>(u, g).
      case Atoi u of Inl e \<Rightarrow> liftGo Fatal | Inr uid \<Rightarrow>
      (case Atoi g of Inl e \<Rightarrow> liftGo Fatal | Inr gid \<Rightarrow>
      tryM (MkdirUserConfig S username userHomeDir) (\<lambda>e. liftGo Fatal) (\<lambda>configFileDir.
      let configFilePath = join2 configFileDir standardConfigFileName in
      bindM (GenerateConfigTemplate S configValues) (\<lambda>template.
      tryM (sysM (CreateFile S configFilePath)) (\<lambda>e. liftGo Fatal) (\<lambda>_.
      tryM (sysM (WriteFile S configFilePath (bytes_of_string template))) (\<lambda>e. liftGo Fatal) (\<lambda>_.
      tryM (sysM (Chmod S configFilePath mode_0600)) (\<lambda>e. liftGo Fatal) (\<lambda>_.
      tryM (sysM (Chown S configFilePath uid gid)) (\<lambda>e. liftGo Fatal) (\<lambda>_. retM ())))))))))"

text \<open>The first part reads the file, and makes one when there is none.\<close>

definition readConfigFile :: "'w denv \<Rightarrow> (('w, 'z) dmn_scheme, CfgSettings) prog" where
  "readConfigFile D =
     bindM (getM (\<lambda>s. (gUsername s, gUserHomeDir s))) (\<lambda>(username, userHomeDir).
     let dir = join2 userHomeDir ''.tless'' in
     tryM (sysM (dViper D dir))
       (\<lambda>e. if e = ErrConfigFileNotFound
            then bindM (makeTemplateConfigFile D username userHomeDir None) (\<lambda>_.
              tryM (sysM (dViper D dir)) (\<lambda>e. liftGo Fatal) retM)
            else liftGo Fatal)
       retM)"

definition initConfig :: "'w denv \<Rightarrow> (('w, 'z) dmn_scheme, goerr + unit) prog" where
  "initConfig D =
     bindM (readConfigFile D) (\<lambda>cfg.
     bindM (modifyM (\<lambda>s. s\<lparr>gCfg := Some (cfg\<lparr>Salt := []\<rparr>)\<rparr>)) (\<lambda>_.
     bindM (openStore D) (\<lambda>(S, bucket).
     bindM (IsReachable S bucket) (\<lambda>(ok, err).
     if \<not> ok then retM (Inl (GoErr (''error: cloud server not reachable:  '' @
       (case err of None \<Rightarrow> ''<nil>'' | Some e \<Rightarrow> error_text e) @ [CHR 0x0A])))
     else bindM (cfgM MasterPassword) (\<lambda>masterPassword.
     tryM (GetOrCreateBucketMetadata S (dC D) (dM D) bucket masterPassword)
       (\<lambda>e. retM (Inl (GoErr (''error: could not read or initialize bucket metadata: '' @ error_text e))))
       (\<lambda>(salt, bucketVersion, encKey, hmacKey).
     if salt = [] then retM (Inl (GoErr (''error: invalid salt (value='' @ [CHR 0x27] @ salt @ [CHR 0x27] @ '')'')))
     else if \<not> IntSliceContains SupportedBucketVersions bucketVersion
     then retM (Inl (GoErr (''error: bucket version '' @ show_int bucketVersion @
       '' is not supported by this version of the program'')))
     else tryM (VerifyKeys S (dC D) (dM D) bucket masterPassword encKey hmacKey) (\<lambda>e. retM (Inl e)) (\<lambda>_.
       bindM (modifyM (\<lambda>s. s\<lparr>gCfg := map_option (\<lambda>c. c\<lparr>Salt := salt\<rparr>) (gCfg s), gEncKey := Some encKey,
         gHmacKey := Some hmacKey\<rparr>)) (\<lambda>_. retM (Inr ())))))))))"

definition server_ReadDaemonConfig :: "(('w, 'z) dmn_scheme, string + CfgSettings) prog" where
  "server_ReadDaemonConfig =
     bindM (getM gCfg) (\<lambda>c. retM (case c of None \<Rightarrow> Inl ''Config not available yet'' | Some c \<Rightarrow> Inr c))"

text \<open>The result of \<^verbatim>\<open>initConfig\<close> is dropped: the call reports success.\<close>

definition server_WriteToDaemonConfig :: "'w denv \<Rightarrow> CfgSettings \<Rightarrow> (('w, 'z) dmn_scheme, bool \<times> string) prog" where
  "server_WriteToDaemonConfig D req =
     bindM (getM gCfg) (\<lambda>c.
     if c = None then retM (False, ''Not ready yet'')
     else bindM (getM (\<lambda>s. (gUsername s, gUserHomeDir s))) (\<lambda>(username, userHomeDir).
       bindM (makeTemplateConfigFile D username userHomeDir (Some (req\<lparr>Salt := []\<rparr>))) (\<lambda>_.
       bindM (initConfig D) (\<lambda>_. retM (True, [])))))"

subsection \<open>Accounting\<close>

definition persist_space :: "'w denv \<Rightarrow> 'w sys \<Rightarrow> string \<Rightarrow> (('w, 'z) dmn_scheme, unit) prog" where
  "persist_space D S bucket =
     tryM (ComputeTotalCloudSpaceUsage S bucket) (\<lambda>e. retM ()) (\<lambda>cloudSizeUsageBytes.
     bindM (nowM (dS D)) (\<lambda>now.
     bindM (gDbM (AddSpaceUsageReport (LocalDate (dS D)) (MonthsBack (dS D)) now now cloudSizeUsageBytes)) (\<lambda>_. retM ())))"

definition persistUsage :: "'w denv \<Rightarrow> bool \<Rightarrow> bool \<Rightarrow> (('w, 'z) dmn_scheme, unit) prog" where
  "persistUsage D doSpaceUsage doBandwidthUsage =
     bindM (getM (\<lambda>s. gCfg s \<noteq> None \<and> (case gEncKey s of None \<Rightarrow> False | Some k \<Rightarrow> k \<noteq> []))) (\<lambda>ready.
     bindM (getM gDbOpen) (\<lambda>isDbReady.
     if \<not> isDbReady \<or> \<not> ready then retM ()
     else bindM (openStore D) (\<lambda>(S, bucket).
       bindM (if doSpaceUsage then persist_space D S bucket else retM ()) (\<lambda>_.
       if doBandwidthUsage then bindM (onFile (PersistBandwidthUsage S)) (\<lambda>_. retM ()) else retM ()))))"

record UsageHistory =
  uh_PeakSpaceUsage :: "DailyUsage list"
  uh_TotalBandwidthUsage :: "DailyUsage list"

definition usageErr :: "goerr \<Rightarrow> ('s, goerr + 'a) prog" where
  "usageErr e = retM (Inl (GoErr (''error: GetUsageHistory:  '' @ error_text e @ [CHR 0x0A])))"

definition server_GetUsageHistory :: "'w denv \<Rightarrow> (('w, 'z) dmn_scheme, goerr + UsageHistory) prog" where
  "server_GetUsageHistory D =
     bindM (persistUsage D True True) (\<lambda>_.
     bindM (getM gDbOpen) (\<lambda>isDbReady.
     if \<not> isDbReady then retM (Inl (GoErr (''error: GetUsageHistory: database not yet initialized'' @ [CHR 0x0A])))
     else bindM (nowM (dS D)) (\<lambda>now.
       tryM (gDbM (GetPeakDailySpaceUsage (LocalDate (dS D)) (MonthsBack (dS D)) now 3)) usageErr (\<lambda>peak.
       bindM (nowM (dS D)) (\<lambda>now.
       tryM (gDbM (GetTotalDailyBandwidthUsage (LocalDate (dS D)) (MonthsBack (dS D)) now 3)) usageErr (\<lambda>tot.
       retM (Inr \<lparr>uh_PeakSpaceUsage = peak, uh_TotalBandwidthUsage = tot\<rparr>)))))))"

subsection \<open>Start-up\<close>

text \<open>
  Opening the database replaces the handle, whatever the daemon is doing; only the old handle is closed
  when it is idle. \<^verbatim>\<open>GetUidGid\<close> answers zeros with an error.
\<close>

definition initDbConn :: "'w denv \<Rightarrow> (('w, 'z) dmn_scheme, unit) prog" where
  "initDbConn D =
     bindM (getM (\<lambda>s. (gUsername s, gUserHomeDir s))) (\<lambda>(username, userHomeDir).
     tryM (MkdirUserConfig (dS D) username userHomeDir) (\<lambda>e. liftGo Fatal) (\<lambda>sqliteDir.
     let sqliteFilePath = join2 sqliteDir ''state.db'' in
     tryM (zoomM fdb (\<lambda>d s. s\<lparr>fdb := d\<rparr>) (sqlM [] (\<lambda>d. ((), d)))) (\<lambda>e. liftGo Fatal) (\<lambda>_.
     bindM (modifyM (\<lambda>s. s\<lparr>gDbOpen := True\<rparr>)) (\<lambda>_.
     tryM (gDbM PerformDbMigrations) (\<lambda>e. liftGo Fatal) (\<lambda>_.
     bindM (GetUidGid (dS D) username) (\<lambda>r.
     let (uid, gid) = (case r of Inl _ \<Rightarrow> (0, 0) | Inr ug \<Rightarrow> ug) in
     bindM (sysM (Chown (dS D) sqliteFilePath uid gid)) (\<lambda>_.
     bindM (getLastBackupTimeFormatted D) (\<lambda>t.
     statusM (\<lambda>g. if st_state g = Idle then g\<lparr>st_msg := ''Last backup: '' @ t\<rparr> else g)))))))))"

definition server_Hello :: "'w denv \<Rightarrow> string \<Rightarrow> string \<Rightarrow> (('w, 'z) dmn_scheme, bool \<times> string) prog" where
  "server_Hello D username userHomeDir =
     bindM (modifyM (\<lambda>s. s\<lparr>gUsername := username, gUserHomeDir := userHomeDir\<rparr>)) (\<lambda>_.
     bindM (initDbConn D) (\<lambda>_.
     tryM (initConfig D) (\<lambda>e. retM (False, error_text e)) (\<lambda>_.
     bindM (modifyM (\<lambda>s. s\<lparr>goroutines := goroutines s @ [ReplayJob]\<rparr>)) (\<lambda>_. retM (True, [])))))"

end
