(* ===== verification/Daemon_Work.thy ===== *)
theory Daemon_Work
  imports Daemon_Config Prune
begin

section \<open>Backups, restores and upkeep by the daemon\<close>

text \<open>
  \<^verbatim>\<open>backup.go\<close>, \<^verbatim>\<open>restore.go\<close>, \<^verbatim>\<open>prune.go\<close>, \<^verbatim>\<open>wipe_cloud.go\<close>, \<^verbatim>\<open>buckets.go\<close>, \<^verbatim>\<open>password.go\<close> and
  \<^verbatim>\<open>timer.go\<close>. A handler that starts work with \<^verbatim>\<open>go\<close> appends it to \<open>goroutines\<close>; the work itself is a
  program of its own. A stream to the client is the list of the messages sent.
\<close>

subsection \<open>Cancelation (backup.go)\<close>

definition cancelBackup :: "'w denv \<Rightarrow> 'w sys \<Rightarrow> bytes \<Rightarrow> string \<Rightarrow> string \<Rightarrow> string \<Rightarrow> (('w, 'z) dmn_scheme, unit) prog" where
  "cancelBackup D S key bucket backupDirPath snapshotName =
     bindM (setStatus CleaningUp ''Canceling...'' (Pct 0)) (\<lambda>_.
     bindM (tryM (DeleteSnapshots S (dC D) (dJ D) key
             [\<lparr>sd_BackupDirName = Base backupDirPath, sd_SnapshotName = snapshotName\<rparr>] bucket False)
         (\<lambda>e. bindM (GCChunks S (dC D) (dJ D) bucket key False) (\<lambda>_. retM ())) (\<lambda>_. retM ())) (\<lambda>_.
     bindM (gDbM CancelationResetLastBackupTime) (\<lambda>_.
     bindM (gDbM CancelationCleanupJournal) (\<lambda>_. retM ()))))"

definition handleCancelation :: "'w denv \<Rightarrow> 'w sys \<Rightarrow> bytes \<Rightarrow> string \<Rightarrow> string \<Rightarrow> string \<Rightarrow> (('w, 'z) dmn_scheme, bool) prog" where
  "handleCancelation D S key bucket backupDirPath snapshotName =
     bindM (getM gCancelRequested) (\<lambda>isCancelRequested.
     if isCancelRequested
     then bindM (cancelBackup D S key bucket backupDirPath snapshotName) (\<lambda>_.
       bindM (modifyM (\<lambda>s. s\<lparr>gCancelRequested := False\<rparr>)) (\<lambda>_. retM True))
     else retM False)"

definition server_CancelBackup :: "(('w, 'z) dmn_scheme, bool \<times> string) prog" where
  "server_CancelBackup =
     bindM (modifyM (\<lambda>s. s\<lparr>gCancelRequested := True, gStatus := (gStatus s)\<lparr>st_msg := ''Canceling...''\<rparr>\<rparr>)) (\<lambda>_.
     retM (True, []))"

subsection \<open>Backup (backup.go)\<close>

text \<open>The state is read in one critical section and set in the next.\<close>

definition stateM :: "(('w, 'z) dmn_scheme, dstate) prog" where
  "stateM = getM (\<lambda>s. st_state (gStatus s))"

definition Backup_decide :: "bool \<Rightarrow> dstate \<Rightarrow> (('w, 'z) dmn_scheme, bool \<times> string) prog" where
  "Backup_decide forceFullBackup st =
     (if st \<noteq> Idle
      then retM (False, if st = BackingUp then ''already doing a backup right now'' else ''busy with other work'')
      else bindM (setStatus BackingUp ''Preparing'' (Pct 0)) (\<lambda>_.
        let start = bindM (modifyM (\<lambda>s. s\<lparr>goroutines := goroutines s @ [BackupJob]\<rparr>)) (\<lambda>_. retM (True, [])) in
        if forceFullBackup
        then tryM (gDbM ResetLastBackedUpTimeForAllDirents) (\<lambda>e. retM (False, ''internal database failure'')) (\<lambda>_. start)
        else start))"

definition server_Backup :: "bool \<Rightarrow> (('w, 'z) dmn_scheme, bool \<times> string) prog" where
  "server_Backup forceFullBackup = bindM stateM (Backup_decide forceFullBackup)"

definition backupProgress :: "int \<Rightarrow> int \<Rightarrow> (('w, 'z) dmn_scheme, unit) prog" where
  "backupProgress finished tot = statusM (\<lambda>g. g\<lparr>st_percentage := PctOf finished tot\<rparr>)"

definition backupCallbacks :: "'w denv \<Rightarrow> 'w sys \<Rightarrow> string \<Rightarrow> bytes \<Rightarrow> ('w, 'z) dmn_scheme callbacks" where
  "backupCallbacks D S bucket key =
     \<lparr>checkAndHandleTraversalCancelation = Some (bindM (getM gCancelRequested) (\<lambda>c.
        bindM (modifyM (\<lambda>s. s\<lparr>gCancelRequested := False\<rparr>)) (\<lambda>_. retM c))),
      checkAndHandleCancelation = Some (handleCancelation D S key bucket),
      setInitialProgress = Some (\<lambda>finished tot backupDirName. backupProgress finished tot),
      updateProgress = Some backupProgress\<rparr>"

definition reportEvents :: "ReportedEvent list \<Rightarrow> (('w, 'z) dmn_scheme, bool) prog" where
  "reportEvents es = bindM (statusM (\<lambda>g. g\<lparr>st_events := st_events g @ es\<rparr>))
     (\<lambda>_. retM (\<exists>e \<in> set es. ev_Kind e = ERR_OP_NOT_PERMITTED))"

datatype backup_end = EndCompleted | EndErrors | EndCanceled | EndFatal

text \<open>The loop over the directories; \<open>err\<close> is \<^verbatim>\<open>backupEndedInError\<close>.\<close>

fun backup_dirs :: "'w denv \<Rightarrow> 'w sys \<Rightarrow> string \<Rightarrow> bytes \<Rightarrow> string list \<Rightarrow> string list \<Rightarrow> bool
    \<Rightarrow> (('w, 'z) dmn_scheme, backup_end) prog" where
  "backup_dirs D S bucket key excludes [] err = retM (if err then EndErrors else EndCompleted)"
| "backup_dirs D S bucket key excludes (backupDirPath # rest) err =
     bindM (statusM (\<lambda>g. g\<lparr>st_msg := Base backupDirPath, st_percentage := Pct 0\<rparr>)) (\<lambda>_.
     bindM (cfgM ResourceUtilization) (\<lambda>resourceUtilization.
     bindM (DoJournaledBackup (benv_of D S bucket key) (backupCallbacks D S bucket key) backupDirPath excludes
       resourceUtilization) (\<lambda>r.
     bindM (reportEvents (br_events r)) (\<lambda>denied.
     if fatalError r then retM EndFatal
     else if continueLoop r then backup_dirs D S bucket key excludes rest (err \<or> denied)
     else if breakFromLoop r then retM (if err \<or> denied then EndErrors else EndCanceled)
     else bindM (statusM (\<lambda>g. g\<lparr>st_percentage := Pct 100\<rparr>)) (\<lambda>_. bindM (sleepM (dS D) 2) (\<lambda>_.
       backup_dirs D S bucket key excludes rest (err \<or> denied)))))))"

definition FinalReport :: "'w denv \<Rightarrow> int \<Rightarrow> BackupStats \<Rightarrow> string" where
  "FinalReport D now bs =
     (let durationSeconds = now - startTimeUnix bs in
      dFormatNumber D (cntFiles bs) @ '' files ('' @ FormatBytesAsString (cntBytes bs) @ '') in '' @
      FormatSecondsAsString durationSeconds @ '' ~= '' @ FormatDataRateAsString (dFormatFloat D) (cntBytes bs) durationSeconds)"

definition reportEnd :: "'w denv \<Rightarrow> backup_end \<Rightarrow> (('w, 'z) dmn_scheme, unit) prog" where
  "reportEnd D fin =
     (if fin = EndFatal then retM ()
      else bindM (nowM (dS D)) (\<lambda>now.
        if fin = EndCanceled
        then reportM \<lparr>ev_Kind = INFO_BACKUP_CANCELED, ev_Path = [], ev_IsDir = False, ev_Datetime = now, ev_Msg = []\<rparr>
        else bindM (nowM (dS D)) (\<lambda>now'. bindM (getM stats) (\<lambda>st.
          reportM \<lparr>ev_Kind = (if fin = EndErrors then INFO_BACKUP_COMPLETED_WITH_ERRORS else INFO_BACKUP_COMPLETED),
            ev_Path = [], ev_IsDir = False, ev_Datetime = now,
            ev_Msg = (case st of None \<Rightarrow> [] | Some bs \<Rightarrow> FinalReport D now' bs)\<rparr>))))"

text \<open>Connecting and refreshing the keys; \<open>None\<close> when the backup stops here.\<close>

definition backup_setup :: "'w denv \<Rightarrow> (('w, 'z) dmn_scheme, ('w sys \<times> string \<times> bytes) option) prog" where
  "backup_setup D =
     bindM (openStore D) (\<lambda>(S, bucket).
     bindM (IsReachable S bucket) (\<lambda>(ok, _).
     if \<not> ok then bindM (setStatus Idle ''Cannot connect to cloud'' (Pct (-1))) (\<lambda>_. retM None)
     else bindM (cfgM MasterPassword) (\<lambda>masterPassword.
     bindM (GetOrCreateBucketMetadata S (dC D) (dM D) bucket masterPassword) (\<lambda>r. case r of
         Inr (salt, _, encKey, hmacKey) \<Rightarrow>
           if salt = [] then bindM (setStatus Idle ''Cannot init cloud bucket'' (Pct (-1))) (\<lambda>_. retM None)
           else bindM (modifyM (\<lambda>s. s\<lparr>gCfg := map_option (\<lambda>c. c\<lparr>Salt := salt\<rparr>) (gCfg s), gEncKey := Some encKey,
                 gHmacKey := Some hmacKey\<rparr>)) (\<lambda>_.
             bindM keyM (\<lambda>key. retM (Some (S, bucket, key))))
       | Inl e \<Rightarrow> bindM (setStatus Idle ''Cannot init cloud bucket'' (Pct (-1))) (\<lambda>_. retM None)))))"

definition daemon_Backup :: "'w denv \<Rightarrow> (('w, 'z) dmn_scheme, unit) prog" where
  "daemon_Backup D =
     bindM (backup_setup D) (\<lambda>r. case r of None \<Rightarrow> retM () | Some (S, bucket, key) \<Rightarrow>
     bindM (nowM (dS D)) (\<lambda>now.
     bindM (modifyM (\<lambda>s. s\<lparr>stats := Some (NewBackupStats now)\<rparr>)) (\<lambda>_.
     bindM (cfgM (\<lambda>c. (Dirs c, ExcludePaths c))) (\<lambda>(dirs, excludes).
     bindM (backup_dirs D S bucket key excludes dirs False) (\<lambda>fin.
     bindM (reportEnd D fin) (\<lambda>_.
     bindM (persistUsage D True True) (\<lambda>_.
     backToIdle D)))))))"

text \<open>The journal left by an interruption is played again, with the callbacks of a replay.\<close>

definition replayCallbacks :: "'w denv \<Rightarrow> 'w sys \<Rightarrow> string \<Rightarrow> bytes \<Rightarrow> ('w, 'z) dmn_scheme callbacks" where
  "replayCallbacks D S bucket key =
     \<lparr>checkAndHandleTraversalCancelation = None,
      checkAndHandleCancelation = Some (handleCancelation D S key bucket),
      setInitialProgress = Some (\<lambda>finished tot backupDirName.
        setStatus BackingUp backupDirName (PctOf finished tot)),
      updateProgress = Some backupProgress\<rparr>"

definition replayBackupJournal :: "'w denv \<Rightarrow> (('w, 'z) dmn_scheme, unit) prog" where
  "replayBackupJournal D =
     bindM (openStore D) (\<lambda>(S, bucket).
     bindM (IsReachable S bucket) (\<lambda>(ok, _).
     if \<not> ok then setStatus Idle ''Cannot connect to cloud'' (Pct (-1))
     else bindM keyM (\<lambda>key.
       bindM (cfgM ResourceUtilization) (\<lambda>resourceUtilization.
       bindM (ReplayBackupJournal (benv_of D S bucket key) (replayCallbacks D S bucket key) resourceUtilization) (\<lambda>re.
       bindM (reportM re) (\<lambda>_.
       bindM (persistUsage D True True) (\<lambda>_.
       backToIdle D)))))))"

text \<open>
  The goroutine of \<^verbatim>\<open>Hello\<close> (\<^verbatim>\<open>main.go\<close>) repeats this until the journal is clean, without a pause when
  the daemon is idle; \<open>Attempts\<close> bounds the rounds observed.
\<close>

fun replay_loop :: "nat \<Rightarrow> 'w denv \<Rightarrow> (('w, 'z) dmn_scheme, unit) prog" where
  "replay_loop 0 D = liftGo Spin"
| "replay_loop (Suc n) D =
     bindM (gDbM HasDirtyBackupJournal) (\<lambda>r.
     if (case r of Inl _ \<Rightarrow> False | Inr b \<Rightarrow> b)
     then bindM (getM (\<lambda>s. st_state (gStatus s) = Idle)) (\<lambda>isIdle.
       bindM (if isIdle then replayBackupJournal D else sleepM (dS D) 30) (\<lambda>_. replay_loop n D))
     else retM ())"

subsection \<open>Restore (restore.go)\<close>

text \<open>A request arrives in batches: the last one names the snapshot and the target, the paths add up.\<close>

record RestoreRequest =
  SnapshotRawName :: string
  RestorePath :: string
  SelectedRelPaths :: "string list"

definition receive_requests :: "RestoreRequest list \<Rightarrow> string \<times> string \<times> string list" where
  "receive_requests reqs = fold (\<lambda>req (_, _, selRelPaths).
     (SnapshotRawName req, RestorePath req, selRelPaths @ SelectedRelPaths req)) reqs ([], [], [])"

definition Restore_decide :: "RestoreRequest list \<Rightarrow> dstate \<Rightarrow> (('w, 'z) dmn_scheme, bool \<times> string) prog" where
  "Restore_decide reqs st =
     (let (snapshotRawName, restorePath, selRelPaths) = receive_requests reqs in
      if st \<noteq> Idle
      then retM (False, if st = Restoring then ''already doing a restore right now'' else ''busy with other work'')
      else bindM (setStatus Restoring ''Preparing to restore'' (Pct 0)) (\<lambda>_.
        bindM (modifyM (\<lambda>s. s\<lparr>goroutines := goroutines s @ [RestoreJob snapshotRawName restorePath selRelPaths]\<rparr>)) (\<lambda>_.
        retM (True, []))))"

definition server_Restore :: "RestoreRequest list \<Rightarrow> (('w, 'z) dmn_scheme, bool \<times> string) prog" where
  "server_Restore reqs = bindM stateM (Restore_decide reqs)"

text \<open>The loop over the paths: \<open>None\<close> when it was canceled. An error of one entry is logged only.\<close>

fun restore_items :: "'w denv \<Rightarrow> 'w renv \<Rightarrow> string \<Rightarrow> string \<Rightarrow> string \<Rightarrow> int \<Rightarrow> (string \<times> CloudRelPath) list \<Rightarrow> int
    \<Rightarrow> rcache \<Rightarrow> (('w, 'z) dmn_scheme, rcache option) prog" where
  "restore_items D E restorePath backupName snapshotName totalItems [] doneItems cc = retM (Some cc)"
| "restore_items D E restorePath backupName snapshotName totalItems ((relPath, crp) # rest) doneItems cc =
     bindM (getM gCancelRequested) (\<lambda>isCancelRequested.
     if isCancelRequested
     then bindM (modifyM (\<lambda>s. s\<lparr>gCancelRequested := False\<rparr>)) (\<lambda>_. retM None)
     else bindM (withCache cc (RestoreDirEntry E restorePath crp backupName snapshotName relPath)) (\<lambda>(_, cc).
       bindM (setStatus Restoring backupName (PctOf (doneItems + 1) totalItems)) (\<lambda>_.
       restore_items D E restorePath backupName snapshotName totalItems rest (doneItems + 1) cc)))"

definition split_raw_name :: "string \<Rightarrow> (string \<times> string) option" where
  "split_raw_name snapshotRawName =
     (let parts = SplitChar (CHR ''/'') snapshotRawName in
      if length parts = 2 then Some (parts ! 0, parts ! 1)
      else if HasPrefix snapshotRawName ''//'' then Some (''/'', TrimPrefix snapshotRawName ''//'')
      else None)"

text \<open>The index of the snapshot to restore, \<open>None\<close> when it cannot be had.\<close>

definition restore_snapshot :: "'w denv \<Rightarrow> 'w sys \<Rightarrow> string \<Rightarrow> bytes \<Rightarrow> string \<Rightarrow> string
    \<Rightarrow> (('w, 'z) dmn_scheme, Snapshot option) prog" where
  "restore_snapshot D S bucket key backupName snapshotName =
     (case EncryptFilename (dC D) key backupName of Inl e \<Rightarrow> retM None | Inr encBackupName \<Rightarrow>
     (case EncryptFilename (dC D) key snapshotName of Inl e \<Rightarrow> retM None | Inr encSnapshotName \<Rightarrow>
      tryM (GetSnapshotIndexFile S (dC D) bucket key (encBackupName @ ''/@'' @ encSnapshotName)) (\<lambda>e. retM None)
        (\<lambda>ssIndexJson. case UnmarshalSnapshotObj (dJ D) ssIndexJson of
           Inl e \<Rightarrow> retM None | Inr snapshotObj \<Rightarrow> retM (Some snapshotObj))))"

definition restore_all :: "'w denv \<Rightarrow> 'w sys \<Rightarrow> string \<Rightarrow> bytes \<Rightarrow> string \<Rightarrow> string list \<Rightarrow> string \<Rightarrow> string \<Rightarrow> Snapshot
    \<Rightarrow> (('w, 'z) dmn_scheme, unit) prog" where
  "restore_all D S bucket key restorePath selectedRelPaths backupName snapshotName snapshotObj =
     (let items = FilterRelPaths snapshotObj selectedRelPaths [] in
      bindM (getM gUsername) (\<lambda>username.
      bindM (GetUidGid (dS D) username) (\<lambda>r.
      let (uid, gid) = (case r of Inl _ \<Rightarrow> (0, 0) | Inr ug \<Rightarrow> ug);
        E = \<lparr>rS = S, rC = dC D, rG = dG D, rKey = key, rBucket = bucket, r_uid = uid, r_gid = gid\<rparr> in
      bindM (cfgM (\<lambda>c. (CachesPath c, MaxChunkCacheMb c))) (\<lambda>(cachesPath, maxChunkCacheMb).
      bindM (withCache empty_cache (NewChunkCache E cachesPath maxChunkCacheMb)) (\<lambda>(_, cc).
      bindM (restore_items D E restorePath backupName snapshotName (int (length items)) (sort_key fst items) 0 cc) (\<lambda>r.
      case r of None \<Rightarrow> retM () | Some cc \<Rightarrow> chmod_queue (dS D) (rc_queue cc)))))))"

definition restore_job :: "'w denv \<Rightarrow> string \<Rightarrow> string \<Rightarrow> string list \<Rightarrow> (('w, 'z) dmn_scheme, unit) prog" where
  "restore_job D snapshotRawName restorePath selectedRelPaths =
     bindM (openStore D) (\<lambda>(S, bucket).
     bindM keyM (\<lambda>key.
     bindM (IsReachable S bucket) (\<lambda>(ok, _).
     if \<not> ok then setStatus Idle ''Cannot connect to cloud'' (Pct (-1))
     else bindM (case split_raw_name snapshotRawName of
         None \<Rightarrow> retM ()
       | Some (backupName, snapshotName) \<Rightarrow>
           bindM (restore_snapshot D S bucket key backupName snapshotName) (\<lambda>r. case r of
             None \<Rightarrow> retM ()
           | Some snapshotObj \<Rightarrow>
               restore_all D S bucket key restorePath selectedRelPaths backupName snapshotName snapshotObj)) (\<lambda>_.
       backToIdle D))))"

definition daemon_Restore :: "'w denv \<Rightarrow> string \<Rightarrow> string \<Rightarrow> string list \<Rightarrow> (('w, 'z) dmn_scheme, unit) prog" where
  "daemon_Restore D snapshotRawName restorePath selectedRelPaths =
     deferM (restore_job D snapshotRawName restorePath selectedRelPaths) (persistUsage D True True)"

definition server_CancelRestore :: "(('w, 'z) dmn_scheme, bool \<times> string) prog" where
  "server_CancelRestore =
     bindM (modifyM (\<lambda>s. s\<lparr>gCancelRequested := True, gStatus := (gStatus s)\<lparr>st_msg := ''Canceling...''\<rparr>\<rparr>)) (\<lambda>_.
     retM (True, []))"

text \<open>The work started by a handler.\<close>

fun run_job :: "'w denv \<Rightarrow> job \<Rightarrow> (('w, 'z) dmn_scheme, unit) prog" where
  "run_job D BackupJob = daemon_Backup D"
| "run_job D (RestoreJob raw path sel) = daemon_Restore D raw path sel"
| "run_job D ReplayJob = replay_loop (Attempts (dS D)) D"

end
