(* ===== verification/Daemon_Steps.thy ===== *)
theory Daemon_Steps
  imports Daemon_Work
begin

section \<open>Concurrent calls: interleaving at the locks\<close>

text \<open>
  gRPC runs every call in a goroutine of its own; between two critical sections any other call may run.
  A configuration is the daemon's state and the calls in progress; a step runs one critical section of
  one call, which is a program of \<open>Daemon\<close> or \<open>Daemon_Work\<close>. \<^verbatim>\<open>CheckConn\<close> claims the daemon in a
  single critical section, \<^verbatim>\<open>Backup\<close> reads the state in one and sets it in the next.
\<close>

datatype client =
    CheckCall CheckConnRequest | CheckRefused | Probing CheckConnRequest | Probed | Checked
  | BackupCall bool | BackupRead bool dstate | BackupAnswered bool string

type_synonym 'w config = "'w dmn \<times> client list"

inductive dstep :: "'w denv \<Rightarrow> 'w config \<Rightarrow> 'w config \<Rightarrow> bool" for D where
  check_claim: "i < length cs \<Longrightarrow> cs ! i = CheckCall req \<Longrightarrow> CheckConn_claim s = (Ret isBusy, t) \<Longrightarrow>
    dstep D (s, cs) (t, cs[i := if isBusy then CheckRefused else Probing req])"
| check_probe: "i < length cs \<Longrightarrow> cs ! i = Probing req \<Longrightarrow> CheckConn_probe D req s = (Ret r, t) \<Longrightarrow>
    dstep D (s, cs) (t, cs[i := Probed])"
| check_release: "i < length cs \<Longrightarrow> cs ! i = Probed \<Longrightarrow>
    bindM (getLastBackupTimeFormatted D) CheckConn_release s = (Ret u, t) \<Longrightarrow>
    dstep D (s, cs) (t, cs[i := Checked])"
| backup_read: "i < length cs \<Longrightarrow> cs ! i = BackupCall f \<Longrightarrow> stateM s = (Ret st, t) \<Longrightarrow>
    dstep D (s, cs) (t, cs[i := BackupRead f st])"
| backup_decide: "i < length cs \<Longrightarrow> cs ! i = BackupRead f st \<Longrightarrow> Backup_decide f st s = (Ret (b, msg), t) \<Longrightarrow>
    dstep D (s, cs) (t, cs[i := BackupAnswered b msg])"

abbreviation dsteps :: "'w denv \<Rightarrow> 'w config \<Rightarrow> 'w config \<Rightarrow> bool" where
  "dsteps D \<equiv> (dstep D)\<^sup>*\<^sup>*"

subsection \<open>Checks exclude each other\<close>

definition probes :: "client list \<Rightarrow> nat set" where
  "probes cs = {i. i < length cs \<and> (cs ! i = Probed \<or> (\<exists>req. cs ! i = Probing req))}"

fun check_client :: "client \<Rightarrow> bool" where
  "check_client (BackupCall f) = False"
| "check_client (BackupRead f st) = False"
| "check_client (BackupAnswered b m) = False"
| "check_client _ = True"

definition check_inv :: "'w config \<Rightarrow> bool" where
  "check_inv c = (case c of (s, cs) \<Rightarrow> list_all check_client cs \<and>
     (st_state (gStatus s) = Idle \<and> probes cs = {} \<or> st_state (gStatus s) = CheckingConn \<and> (\<exists>i. probes cs = {i})))"

lemma probes_update:
  "i < length cs \<Longrightarrow> probes (cs[i := c]) =
     (if c = Probed \<or> (\<exists>req. c = Probing req) then insert i (probes cs) else probes cs - {i})"
  by (auto simp: probes_def nth_list_update split: if_splits)

text \<open>Talking to the store leaves the status alone, and so does reading the time of the last backup.\<close>

abbreviation same_status :: "Status \<Rightarrow> ('w, 'z) dmn_scheme \<Rightarrow> bool" where
  "same_status g \<equiv> \<lambda>s. gStatus s = g"

lemma status_sysM: "preserves (same_status g) (sysM f)"
  by (rule preserves_sysM) simp

lemma status_probe: "preserves (same_status g) (CheckConn_probe D req)"
proof -
  have store: "preserves (same_status g) (NewObjStore (dConn D) c)" for c
    unfolding NewObjStore_def by (auto split: sum.splits)
  have list: "preserves (same_status g) (ListBuckets S)" for S
    unfolding ListBuckets_def by (intro preserves_tryM status_sysM preserves_retM)
  have reach: "preserves (same_status g) (IsReachable S b)" for S b
    unfolding IsReachable_def GetObjList_def by (intro preserves_tryM status_sysM preserves_retM)
  show ?thesis unfolding CheckConn_probe_def
    by (intro preserves_bindM [OF store] preserves_if reach preserves_bindM [OF list]) (auto split: prod.splits)
qed

lemma status_gDbM: "preserves (same_status g) (gDbM m)"
  by (auto simp: preserves_def gDbM_def bindM_def getM_def zoomM_def liftGo_def split: prod.splits go.splits)

lemma status_lastBackup: "preserves (same_status g) (getLastBackupTimeFormatted D)"
  unfolding getLastBackupTimeFormatted_def Let_def
  by (intro preserves_bindM [OF status_gDbM] preserves_retM)

lemma check_inv_step:
  assumes "dstep D c d" "check_inv c"
  shows "check_inv d"
proof -
  have nth: "list_all check_client cs \<Longrightarrow> i < length cs \<Longrightarrow> check_client (cs ! i)" for i cs
    by (simp add: list_all_length)
  have upd: "list_all check_client cs \<Longrightarrow> check_client x \<Longrightarrow> list_all check_client (cs[i := x])" for i x cs
    using set_update_subset_insert [of cs] by (fastforce simp: list_all_iff)
  from assms(1) show ?thesis
  proof (cases rule: dstep.cases)
    case (check_claim i cs req s isBusy t)
    then have "i \<notin> probes cs" by (simp add: probes_def)
    with check_claim assms(2) show ?thesis
      by (auto simp: check_inv_def upd probes_update CheckConn_claim_def split: if_splits)
  next
    case (check_probe i cs req s r t)
    then have "gStatus t = gStatus s" using preservesD' [OF status_probe] by metis
    moreover have "i \<in> probes cs" using check_probe by (simp add: probes_def)
    ultimately show ?thesis using check_probe assms(2)
      by (auto simp: check_inv_def upd probes_update insert_absorb)
  next
    case (check_release i cs s u t)
    then have "st_state (gStatus t) = Idle"
      by (auto simp: bindM_def CheckConn_release_def statusM_def modifyM_def split: prod.splits go.splits)
    moreover have "i \<in> probes cs" using check_release by (simp add: probes_def)
    ultimately show ?thesis using check_release assms(2)
      by (auto simp: check_inv_def upd probes_update)
  next
    case (backup_read i cs f s st t)
    then show ?thesis using assms(2) nth [of cs i] by (simp add: check_inv_def)
  next
    case (backup_decide i cs f st s b msg t)
    then show ?thesis using assms(2) nth [of cs i] by (simp add: check_inv_def)
  qed
qed

lemma check_inv_steps: "dsteps D c d \<Longrightarrow> check_inv c \<Longrightarrow> check_inv d"
  by (induction rule: rtranclp_induct) (auto intro: check_inv_step)

text \<open>
  C14. Connection checks exclude each other. However many \<^verbatim>\<open>CheckConn\<close> calls are interleaved, starting
  from an idle daemon, at most one of them talks to the store at any time, and the status says
  \<^verbatim>\<open>CheckingConn\<close> exactly while one does and \<^verbatim>\<open>Idle\<close> otherwise.
\<close>

theorem check_conn_exclusive:
  assumes "dsteps D (s, map CheckCall reqs) (t, cs)" "st_state (gStatus s) = Idle"
  shows "card (probes cs) \<le> 1 \<and> st_state (gStatus t) = (if probes cs = {} then Idle else CheckingConn)"
proof -
  have "check_inv (s, map CheckCall reqs)"
    using assms(2) by (auto simp: check_inv_def probes_def list_all_length)
  from check_inv_steps [OF assms(1) this] show ?thesis by (auto simp: check_inv_def)
qed

subsection \<open>Backups do not\<close>

lemma Backup_decide_idle:
  "Backup_decide False Idle s = (Ret (True, []), s\<lparr>gStatus := (gStatus s)\<lparr>st_state := BackingUp, st_msg := ''Preparing'',
     st_percentage := Pct 0\<rparr>, goroutines := goroutines s @ [BackupJob]\<rparr>)"
  by (simp add: Backup_decide_def setStatus_def statusM_def)

text \<open>
  C15. Two \<^verbatim>\<open>Backup\<close> calls that are interleaved can both start a backup. One after the other, the second
  is refused; but the state is read in one critical section and set in another, so from any idle
  daemon the two calls can both be answered that a backup is starting, with two backups running.
\<close>

theorem backup_race:
  assumes "st_state (gStatus s) = Idle"
  shows "(\<exists>t. dsteps D (s, [BackupCall False, BackupCall False]) (t, [BackupAnswered True [], BackupAnswered True []]) \<and>
      goroutines t = goroutines s @ [BackupJob, BackupJob]) \<and>
    (\<exists>t u. server_Backup False s = (Ret (True, []), t) \<and>
      server_Backup False t = (Ret (False, ''already doing a backup right now''), u) \<and>
      goroutines u = goroutines s @ [BackupJob])"
proof
  define busy where "busy s = s\<lparr>gStatus := (gStatus s)\<lparr>st_state := BackingUp, st_msg := ''Preparing'',
    st_percentage := Pct 0\<rparr>, goroutines := goroutines s @ [BackupJob]\<rparr>" for s :: "'a dmn"
  have go: "Backup_decide False Idle s = (Ret (True, []), busy s)" for s :: "'a dmn"
    by (simp add: Backup_decide_idle busy_def)
  have "dstep D (s, [BackupCall False, BackupCall False]) (s, [BackupRead False Idle, BackupCall False])"
    using backup_read [of 0 "[BackupCall False, BackupCall False]" False s Idle s D] assms by (simp add: stateM_def)
  moreover have "dstep D (s, [BackupRead False Idle, BackupCall False]) (s, [BackupRead False Idle, BackupRead False Idle])"
    using backup_read [of 1 "[BackupRead False Idle, BackupCall False]" False s Idle s D] assms by (simp add: stateM_def)
  moreover have "dstep D (s, [BackupRead False Idle, BackupRead False Idle]) (busy s, [BackupAnswered True [], BackupRead False Idle])"
    using backup_decide [of 0 "[BackupRead False Idle, BackupRead False Idle]" False Idle s True "[]" "busy s" D] by (simp add: go)
  moreover have "dstep D (busy s, [BackupAnswered True [], BackupRead False Idle]) (busy (busy s), [BackupAnswered True [], BackupAnswered True []])"
    using backup_decide [of 1 "[BackupAnswered True [], BackupRead False Idle]" False Idle "busy s" True "[]" "busy (busy s)" D] by (simp add: go)
  ultimately have "dsteps D (s, [BackupCall False, BackupCall False]) (busy (busy s), [BackupAnswered True [], BackupAnswered True []])"
    by (meson converse_rtranclp_into_rtranclp rtranclp.rtrancl_refl)
  moreover have "goroutines (busy (busy s)) = goroutines s @ [BackupJob, BackupJob]" by (simp add: busy_def)
  ultimately show "\<exists>t. dsteps D (s, [BackupCall False, BackupCall False]) (t, [BackupAnswered True [], BackupAnswered True []]) \<and>
      goroutines t = goroutines s @ [BackupJob, BackupJob]" by blast
  show "\<exists>t u. server_Backup False s = (Ret (True, []), t) \<and>
      server_Backup False t = (Ret (False, ''already doing a backup right now''), u) \<and>
      goroutines u = goroutines s @ [BackupJob]"
    using assms by (simp add: server_Backup_def stateM_def Backup_decide_idle) (simp add: Backup_decide_def)
qed

subsection \<open>A forced backup that fails to start\<close>

text \<open>
  When the database refuses to reset the times for a forced full backup, the call answers that no backup
  is starting, but the daemon stays in \<^verbatim>\<open>BackingUp\<close> with no work to end it: every later call that needs
  an idle daemon is refused.
\<close>

lemma forced_backup_stuck:
  assumes "st_state (gStatus s) = Idle" "gDbOpen s" "db_faults (fdb s) = Some e # fs"
  shows "\<exists>t. server_Backup True s = (Ret (False, ''internal database failure''), t) \<and>
    st_state (gStatus t) = BackingUp \<and> goroutines t = goroutines s \<and>
    fst (server_Backup f t) = Ret (False, ''already doing a backup right now'') \<and>
    fst (server_Restore reqs t) = Ret (False, ''busy with other work'')"
  using assms
  by (simp add: server_Backup_def stateM_def Backup_decide_def setStatus_def statusM_def tryM_def gDbM_def zoomM_def bindM_def
      ResetLastBackedUpTimeForAllDirents_def execM_def stmtM_def sqlM_def server_Restore_def Restore_decide_def split: prod.splits)

end
