(* ===== verification/Blind.thy ===== *)
theory Blind
  imports Chunk_Store Snapshots_GC BucketMetadata
begin

section \<open>Frames of the programs on the store\<close>

text \<open>
  A program that only uses the store keeps every property of the state that does not look at the world
  and at the bandwidth counters; the operations of the journal that end a canceled or rolled back backup
  leave the journal empty. Both the daemon and the command line rest on these facts.
\<close>

subsection \<open>Programs that only use the store\<close>

text \<open>A property of the state that does not look at the world and at the bandwidth counters.\<close>

definition blind :: "(('w, 'z) gst_scheme \<Rightarrow> bool) \<Rightarrow> bool" where
  "blind P \<longleftrightarrow> (\<forall>s w u d. P s \<longrightarrow> P (s\<lparr>world := w\<rparr>) \<and> P (s\<lparr>uploadBytes := u\<rparr>) \<and> P (s\<lparr>downloadBytes := d\<rparr>))"

lemma blind_sysM: "blind P \<Longrightarrow> preserves P (sysM f)"
  by (rule preserves_sysM) (simp add: blind_def)

lemma blind_nowM: "blind P \<Longrightarrow> preserves P (nowM S)"
  by (rule preserves_nowM) (simp add: blind_def)

lemma blind_sleepM: "blind P \<Longrightarrow> preserves P (sleepM S n)"
  by (rule preserves_sleepM) (simp add: blind_def)

lemma blind_store:
  assumes "blind P"
  shows "preserves P (GetObjList S b p r)" "preserves P (GetObjListTopLevel S b ex)" "preserves P (DeleteObj S b n)"
    "preserves P (DownloadObjToBuffer S b n)"
  unfolding GetObjList_def GetObjListTopLevel_def DeleteObj_def DownloadObjToBuffer_def
  by (intro preserves_tryM preserves_bindM blind_sysM preserves_retM preserves_modifyM assms;
      use assms in \<open>simp add: blind_def\<close>)+

lemma blind_index: "blind P \<Longrightarrow> preserves P (GetSnapshotIndexFile S C b key n)"
  unfolding GetSnapshotIndexFile_def by (intro preserves_tryM blind_store preserves_retM preserves_liftGo)

lemma blind_read_indices: "blind P \<Longrightarrow> preserves P (read_indices S C J b key enc ns acc)"
proof (induction ns arbitrary: acc)
  case (Cons n ns)
  show ?case unfolding read_indices.simps Let_def
    by (intro preserves_tryM blind_index preserves_retM preserves_liftGo Cons)
      (auto split: sum.splits intro!: Cons)
qed (simp add: preserves_retM)

lemma blind_group_backups: "blind P \<Longrightarrow> preserves P (group_backups S C J key b es ret)"
  by (induction es arbitrary: ret)
    (auto intro!: preserves_tryM blind_store blind_read_indices preserves_retM preserves_liftGo)

lemma blind_count_indices: "blind P \<Longrightarrow> preserves P (count_indices S b es n)"
  by (induction es arbitrary: n) (auto intro!: preserves_tryM blind_store preserves_retM)

lemma blind_grouped: "blind P \<Longrightarrow> preserves P (GetGroupedSnapshots S C J key b p)"
  unfolding GetGroupedSnapshots_def
  by (intro preserves_tryM preserves_if blind_store blind_group_backups blind_count_indices preserves_retM)

lemma blind_gc_delete: "blind P \<Longrightarrow> preserves P (gc_delete S b refs ns)"
  by (induction ns) (auto simp: Let_def intro!: preserves_tryM blind_store preserves_retM)

lemma blind_gc: "blind P \<Longrightarrow> preserves P (GCChunks S C J b key p)"
  unfolding GCChunks_def by (intro preserves_tryM blind_grouped blind_store blind_gc_delete preserves_retM)

lemma blind_delete_indices: "blind P \<Longrightarrow> preserves P (delete_indices S C key ds b)"
  by (induction ds) (auto simp: Let_def split: sum.splits intro!: preserves_tryM blind_store preserves_retM)

lemma blind_delete: "blind P \<Longrightarrow> preserves P (DeleteSnapshots S C J key ds b p)"
  unfolding DeleteSnapshots_def by (intro preserves_tryM blind_delete_indices blind_gc preserves_retM)

lemma blind_upload: "blind P \<Longrightarrow> preserves P (UploadObjFromBuffer S b n x e)"
proof -
  assume P: "blind P"
  have "preserves P (upload_loop m S b n x e k)" for m k
  proof (induction m arbitrary: k)
    case (Suc m)
    show ?case unfolding upload_loop.simps
      by (intro preserves_tryM preserves_bindM preserves_if blind_sysM blind_sleepM preserves_retM Suc P preserves_modifyM)
        (use P in \<open>simp add: blind_def\<close>)
  qed (simp add: preserves_liftGo)
  then show ?thesis by (simp add: UploadObjFromBuffer_def)
qed

lemma blind_reachable: "blind P \<Longrightarrow> preserves P (IsReachable S b)"
  unfolding IsReachable_def by (intro preserves_tryM blind_store preserves_retM)

lemma blind_salt: "blind P \<Longrightarrow> preserves P (GenerateRandomSalt S)"
proof -
  assume P: "blind P"
  have "preserves P (random_letters S k acc)" for k acc
    by (induction k arbitrary: acc) (auto intro!: preserves_tryM preserves_retM preserves_liftGo blind_sysM P)
  then show ?thesis by (simp add: GenerateRandomSalt_def)
qed

lemma blind_read_metadata: "blind P \<Longrightarrow> preserves P (readBucketMetadataFile S C J b pw)"
  unfolding readBucketMetadataFile_def
  by (intro preserves_tryM blind_store preserves_retM) (auto split: sum.splits)

lemma blind_create_metadata: "blind P \<Longrightarrow> preserves P (create_metadata S C J b pw)"
  unfolding create_metadata_def EncryptBuffer_def writeBucketMetadataFile_def Let_def
  by (intro preserves_bindM blind_salt)
    (auto split: sum.splits prod.splits intro!: preserves_tryM preserves_if blind_sysM preserves_retM blind_upload blind_read_metadata)

lemma blind_metadata: "blind P \<Longrightarrow> preserves P (GetOrCreateBucketMetadata S C J b pw)"
  unfolding GetOrCreateBucketMetadata_def isBucketEmpty_def Let_def
  by (auto split: option.splits prod.splits
    intro!: preserves_tryM preserves_if blind_store blind_read_metadata blind_create_metadata preserves_retM)

lemma blind_verify: "blind P \<Longrightarrow> preserves P (VerifyKeys S C J b pw k h)"
  unfolding VerifyKeys_def
  by (auto split: list.splits prod.splits
    intro!: preserves_tryM preserves_if blind_store blind_read_metadata preserves_retM preserves_liftGo)

subsection \<open>The database after a cancelation\<close>

definition rolled_back :: "db \<Rightarrow> db" where
  "rolled_back d = (set_last_backup (\<lambda>r. de_id r \<in> bj_dirent_id `
      set (filter (\<lambda>j. is_status InProgress j \<or> is_status Finished j) (backup_journal d))) 0 d)
    \<lparr>backup_info := filter (\<lambda>b. bi_id b \<notin> bj_backup_info_id ` set (backup_journal d)) (backup_info d),
     backup_journal := []\<rparr>"

lemma rolled_back_simps [simp]:
  "backup_journal (rolled_back d) = []" "db_ready (rolled_back d) = db_ready d"
  by (simp_all add: rolled_back_def set_last_backup_def db_ready_def del: db_readyD)

lemma rolled_back_rows:
  "b \<in> set (backup_info (rolled_back d)) \<Longrightarrow> j \<in> set (backup_journal d) \<Longrightarrow> bi_id b \<noteq> bj_backup_info_id j"
  "r \<in> set (dirents (rolled_back d)) \<Longrightarrow> j \<in> set (backup_journal d) \<Longrightarrow> bj_status j \<noteq> Unstarted \<Longrightarrow>
     bj_dirent_id j = de_id r \<Longrightarrow> de_last_backup r = 0"
  by (auto simp: rolled_back_def set_last_backup_def is_status_def image_iff) (metis JournalStatus.exhaust)+

lemma cancel_database:
  assumes "db_ready d"
  shows "\<exists>d1. CancelationResetLastBackupTime d = (Ret (Inr ()), d1) \<and> CancelationCleanupJournal d1 = (Ret (Inr ()), rolled_back d)"
proof -
  obtain p :: "dirent_row \<Rightarrow> bool" where p: "p = (\<lambda>r. de_id r \<in> bj_dirent_id `
      set (filter (\<lambda>j. is_status InProgress j \<or> is_status Finished j) (backup_journal d)))" by blast
  have "CancelationResetLastBackupTime d = (Ret (Inr ()), set_last_backup p 0 d)"
    using assms by (simp add: CancelationResetLastBackupTime_def execM_ready p)
  moreover have "CancelationCleanupJournal (set_last_backup p 0 d) = (Ret (Inr ()), rolled_back d)"
    using assms by (simp add: CancelationCleanupJournal_def deleteAllRowsBackupJournal_def tryM_def bindM_def execM_ready
      rolled_back_def p set_last_backup_def db_ready_def del: db_readyD)
  ultimately show ?thesis by blast
qed

end
