(* ===== verification/Daemon_Cancel.thy ===== *)
theory Daemon_Cancel
  imports Daemon_Work Blind
begin

section \<open>Canceling a backup\<close>

text \<open>
  A canceled backup deletes its snapshot, collects its chunks and empties the journal; but it empties
  the journal of the database file, while \<^verbatim>\<open>DoJournaledBackup\<close> works on the copy in memory and, when it
  returns, copies this back over the file.
\<close>

subsection \<open>What a cancelation does\<close>

lemma gDbM_run: "gDbOpen s \<Longrightarrow> m (fdb s) = (r, d) \<Longrightarrow> gDbM m s = (r, s\<lparr>fdb := d\<rparr>)"
  by (simp add: gDbM_def zoomM_def)

text \<open>It touches only the file: the memory database keeps the journal.\<close>

lemma cancelBackup_effect:
  fixes s :: "('w, 'z) dmn_scheme"
  assumes run: "cancelBackup D S key bucket dir name s = (Ret u, t)" and "gDbOpen s" "db_ready (fdb s)"
  shows "sdb t = sdb s \<and> backup_journal (fdb t) = [] \<and> db_ready (fdb t) \<and> gDbOpen t"
proof -
  let ?P = "\<lambda>x :: ('w, 'z) dmn_scheme. (sdb x, fdb x, gDbOpen x) = (sdb s, fdb s, True)"
  have P: "blind ?P" by (simp add: blind_def)
  let ?del = "tryM (DeleteSnapshots S (dC D) (dJ D) key [\<lparr>sd_BackupDirName = Base dir, sd_SnapshotName = name\<rparr>] bucket False)
         (\<lambda>e. bindM (GCChunks S (dC D) (dJ D) bucket key False) (\<lambda>_. retM ())) (\<lambda>_. retM ())"
  let ?s1 = "s\<lparr>gStatus := (gStatus s)\<lparr>st_state := CleaningUp, st_msg := ''Canceling...'', st_percentage := Pct 0\<rparr>\<rparr>"
  have P1: "?P ?s1" using assms(2) by simp
  from run have run1: "bindM ?del (\<lambda>_.
     bindM (gDbM CancelationResetLastBackupTime) (\<lambda>_. bindM (gDbM CancelationCleanupJournal) (\<lambda>_. retM ()))) ?s1 = (Ret u, t)"
    unfolding cancelBackup_def setStatus_def statusM_def bindM_modifyM .
  from run1 obtain v s2 where s2: "?del ?s1 = (Ret v, s2)"
    "bindM (gDbM CancelationResetLastBackupTime) (\<lambda>_. bindM (gDbM CancelationCleanupJournal) (\<lambda>_. retM ())) s2 = (Ret u, t)"
    by (rule bindM_RetE)
  have "preserves ?P ?del" by (intro preserves_tryM preserves_bindM blind_delete blind_gc preserves_retM P)
  from preservesD' [OF this, OF s2(1) P1] have P2: "?P s2" .
  obtain d1 d2 where d: "CancelationResetLastBackupTime (fdb s) = (Ret (Inr ()), d1)"
    "CancelationCleanupJournal d1 = (Ret (Inr ()), d2)" "backup_journal d2 = []" "db_ready d2"
    using cancel_database [OF assms(3)] assms(3) by auto
  have "gDbM CancelationResetLastBackupTime s2 = (Ret (Inr ()), s2\<lparr>fdb := d1\<rparr>)"
    by (rule gDbM_run) (use P2 d(1) in auto)
  moreover have "gDbM CancelationCleanupJournal (s2\<lparr>fdb := d1\<rparr>) = (Ret (Inr ()), s2\<lparr>fdb := d2\<rparr>)"
    using gDbM_run [of "s2\<lparr>fdb := d1\<rparr>" CancelationCleanupJournal "Ret (Inr ())" d2] P2 d(2) by simp
  ultimately have "t = s2\<lparr>fdb := d2\<rparr>" using s2(2) by (simp add: bindM_Ret)
  with P2 d(3,4) show ?thesis by simp
qed

lemma cancelBackup_returns:
  fixes s :: "('w, 'z) dmn_scheme"
  assumes "DeleteSnapshots S (dC D) (dJ D) key [\<lparr>sd_BackupDirName = Base dir, sd_SnapshotName = name\<rparr>] bucket False
      (s\<lparr>gStatus := (gStatus s)\<lparr>st_state := CleaningUp, st_msg := ''Canceling...'', st_percentage := Pct 0\<rparr>\<rparr>) = (Ret (Inr ()), s2)"
    and "gDbOpen s" "db_ready (fdb s)"
  shows "\<exists>t. cancelBackup D S key bucket dir name s = (Ret (), t)"
proof -
  let ?P = "\<lambda>x :: ('w, 'z) dmn_scheme. (fdb x, gDbOpen x) = (fdb s, True)"
  have "blind ?P" by (simp add: blind_def)
  from preservesD' [OF blind_delete [OF this], OF assms(1)] assms(2) have P: "?P s2" by simp
  obtain d1 d2 where d: "CancelationResetLastBackupTime (fdb s) = (Ret (Inr ()), d1)"
    "CancelationCleanupJournal d1 = (Ret (Inr ()), d2)" using cancel_database [OF assms(3)] by blast
  have "gDbM CancelationResetLastBackupTime s2 = (Ret (Inr ()), s2\<lparr>fdb := d1\<rparr>)"
    by (rule gDbM_run) (use P d(1) in auto)
  moreover have "gDbM CancelationCleanupJournal (s2\<lparr>fdb := d1\<rparr>) = (Ret (Inr ()), s2\<lparr>fdb := d2\<rparr>)"
    using gDbM_run [of "s2\<lparr>fdb := d1\<rparr>" CancelationCleanupJournal "Ret (Inr ())" d2] P d(2) by simp
  ultimately show ?thesis using assms(1)
    by (simp add: cancelBackup_def setStatus_def statusM_def tryM_def bindM_assoc bindM_Ret)
qed

lemma persist_forced:
  assumes "db_faults (fdb s) = []"
  shows "\<exists>t. persistMemDbToFile E True True s = (Ret (), t) \<and> fdb t = (sdb s)\<lparr>db_faults := []\<rparr> \<and> sdb t = sdb s"
  using assms by (simp add: persistMemDbToFile_def bindM_def nowM_def copy_db_def BackupTo_def split: prod.splits)

text \<open>The round of the loop that notices the request.\<close>

lemma play_loop_cancel:
  assumes "(if resourceUtilization = ''low'' then sleepM (eS E) 0 else retM ()) s = (Ret (), s1)" "gCancelRequested s1"
    and "cancelBackup D S key bucket dir name s1 = (x, s2)"
  shows "play_loop (Suc k) E (backupCallbacks D S bucket key) prev dir name resourceUtilization n s =
    (case x of Ret _ \<Rightarrow> (Ret True, s2\<lparr>gCancelRequested := False\<rparr>) | Fatal \<Rightarrow> (Fatal, s2) | Panic \<Rightarrow> (Panic, s2) | Spin \<Rightarrow> (Spin, s2))"
proof -
  let ?sleep = "if resourceUtilization = ''low'' then sleepM (eS E) 0 else retM ()"
  have h: "handleCancelation D S key bucket dir name s1 =
      (case x of Ret _ \<Rightarrow> (Ret True, s2\<lparr>gCancelRequested := False\<rparr>) | Fatal \<Rightarrow> (Fatal, s2) | Panic \<Rightarrow> (Panic, s2) | Spin \<Rightarrow> (Spin, s2))"
    using assms(2,3) by (simp add: handleCancelation_def bindM_def split: go.splits)
  have "play_round E (backupCallbacks D S bucket key) prev dir name resourceUtilization n s =
      (case x of Ret _ \<Rightarrow> (Ret (Some True), s2\<lparr>gCancelRequested := False\<rparr>) | Fatal \<Rightarrow> (Fatal, s2) | Panic \<Rightarrow> (Panic, s2) | Spin \<Rightarrow> (Spin, s2))"
    unfolding play_round_def bindM_Ret [where m = ?sleep, OF assms(1)] backupCallbacks_def
    using h by (cases x) (simp_all add: bindM_Ret bindM_stop)
  then show ?thesis by (cases x) (simp_all add: bindM_Ret bindM_stop)
qed

text \<open>
  C12. A cancelation is undone by the forced persist. When the daemon's backup notices the request to
  cancel, \<^verbatim>\<open>cancelBackup\<close> empties the journal of the database file and the loop over the journal answers
  that it was canceled; but the persist that \<^verbatim>\<open>DoJournaledBackup\<close> defers then copies the memory database
  back, with the journal as it was, finished tasks included, although their chunks may just have been
  collected. If the journal had rows, the file is dirty again and the next \<^verbatim>\<open>Hello\<close> replays it.
\<close>

theorem cancel_undone:
  assumes run: "deferM (play_loop (Suc k) E (backupCallbacks D S bucket key) prev dir name resourceUtilization n)
      (persistMemDbToFile E True True) s = (Ret r, u)"
    and cancel: "gCancelRequested s" "gDbOpen s" "db_ready (fdb s)" and mem: "db_ready (sdb s)"
  shows "r \<and> \<not> gCancelRequested u \<and>
    (\<exists>t. play_loop (Suc k) E (backupCallbacks D S bucket key) prev dir name resourceUtilization n s = (Ret True, t) \<and>
       backup_journal (fdb t) = []) \<and>
    backup_journal (fdb u) = backup_journal (sdb s) \<and>
    fst (HasDirtyBackupJournal (fdb u)) = Ret (Inr (backup_journal (sdb s) \<noteq> []))"
proof -
  let ?loop = "play_loop (Suc k) E (backupCallbacks D S bucket key) prev dir name resourceUtilization n"
  let ?sleep = "if resourceUtilization = ''low'' then sleepM (eS E) 0 else retM ()"
  obtain s1 where s1: "?sleep s = (Ret (), s1)" "gCancelRequested s1" "gDbOpen s1" "fdb s1 = fdb s" "sdb s1 = sdb s"
    using cancel(1,2) by (cases "resourceUtilization = ''low''") simp_all
  obtain x s2 where c: "cancelBackup D S key bucket dir name s1 = (x, s2)" by fastforce
  have loop: "?loop s = (case x of Ret _ \<Rightarrow> (Ret True, s2\<lparr>gCancelRequested := False\<rparr>) | Fatal \<Rightarrow> (Fatal, s2) | Panic \<Rightarrow> (Panic, s2) | Spin \<Rightarrow> (Spin, s2))"
    by (rule play_loop_cancel [OF s1(1,2) c])
  with run obtain v where x: "x = Ret v" by (cases x) (auto simp: deferM_def bindM_def split: prod.splits go.splits)
  let ?t = "s2\<lparr>gCancelRequested := False\<rparr>"
  have t: "sdb ?t = sdb s" "backup_journal (fdb ?t) = []" "db_ready (fdb ?t)"
    using cancelBackup_effect [of D S key bucket dir name s1 v s2] c x s1 cancel by auto
  obtain u' where p: "persistMemDbToFile E True True ?t = (Ret (), u')" "fdb u' = (sdb s)\<lparr>db_faults := []\<rparr>"
    using persist_forced [of ?t E] t(1,3) by auto
  have "gCancelRequested u' = False"
    using p(1) by (auto simp: persistMemDbToFile_def copy_db_def bindM_def nowM_def split: prod.splits go.splits)
  moreover have "(Ret r, u) = (Ret True, u')"
    using run loop x p(1) by (simp add: deferM_def bindM_Ret)
  ultimately show ?thesis using loop x t(2) p(2) mem
    by (simp add: HasDirtyBackupJournal_def tryM_def bindM_def rowM_ready)
qed

end
