(* ===== verification/Daemon_Calls.thy ===== *)
theory Daemon_Calls
  imports Daemon_Work
begin

section \<open>Upkeep, buckets and snapshots: the remaining calls of the daemon\<close>

text \<open>
  \<^verbatim>\<open>prune.go\<close>, \<^verbatim>\<open>wipe_cloud.go\<close>, \<^verbatim>\<open>timer.go\<close>, \<^verbatim>\<open>buckets.go\<close>, \<^verbatim>\<open>password.go\<close> and \<^verbatim>\<open>snapshots.go\<close>. The
  messages streamed to the client are the list a handler returns; a failed \<^verbatim>\<open>Send\<close> is only logged by
  the code and not modelled.
\<close>

subsection \<open>Pruning (prune.go)\<close>

fun prune_backup :: "'w denv \<Rightarrow> 'w sys \<Rightarrow> string \<Rightarrow> bytes \<Rightarrow> string \<Rightarrow> SnapshotInfo list \<Rightarrow> SnapshotInfo list
    \<Rightarrow> int \<Rightarrow> (('w, 'z) dmn_scheme, int) prog" where
  "prune_backup D S bucket key backupName keeps [] cntDeletedSnapshots = retM cntDeletedSnapshots"
| "prune_backup D S bucket key backupName keeps (ss # rest) cntDeletedSnapshots =
     (if ss \<in> set keeps then prune_backup D S bucket key backupName keeps rest cntDeletedSnapshots
      else bindM (DeleteSnapshots S (dC D) (dJ D) key
          [\<lparr>sd_BackupDirName = backupName, sd_SnapshotName = si_Name ss\<rparr>] bucket False) (\<lambda>r.
        prune_backup D S bucket key backupName keeps rest
          (case r of Inl _ \<Rightarrow> cntDeletedSnapshots | Inr _ \<Rightarrow> cntDeletedSnapshots + 1)))"

fun prune_backups :: "'w denv \<Rightarrow> 'w sys \<Rightarrow> string \<Rightarrow> bytes \<Rightarrow> (string \<times> SnapshotInfo list) list \<Rightarrow> int
    \<Rightarrow> (('w, 'z) dmn_scheme, int) prog" where
  "prune_backups D S bucket key [] cnt = retM cnt"
| "prune_backups D S bucket key ((backupName, infos) # rest) cnt =
     bindM (nowM (dS D)) (\<lambda>now.
     bindM (prune_backup D S bucket key backupName (GetPruneKeepsList now infos) infos cnt) (\<lambda>cnt.
     prune_backups D S bucket key rest cnt))"

definition prune_all :: "'w denv \<Rightarrow> (('w, 'z) dmn_scheme, goerr + unit) prog" where
  "prune_all D =
     bindM (openStore D) (\<lambda>(S, bucket). bindM keyM (\<lambda>key.
     tryM (GetAllSnapshotInfos S (dC D) key bucket) (\<lambda>e. retM (Inl e)) (\<lambda>mSnapshots.
     bindM (prune_backups D S bucket key mSnapshots 0) (\<lambda>cntDeletedSnapshots.
     bindM (nowM (dS D)) (\<lambda>now.
     bindM (reportM \<lparr>ev_Kind = INFO_AUTOPRUNE_COMPLETED, ev_Path = [], ev_IsDir = False, ev_Datetime = now,
       ev_Msg = ''deleted '' @ show_int cntDeletedSnapshots @ '' snapshots''\<rparr>) (\<lambda>_.
     retM (Inr ())))))))"

definition PruneSnapshots :: "'w denv \<Rightarrow> (('w, 'z) dmn_scheme, goerr + unit) prog" where
  "PruneSnapshots D =
     bindM (getM (\<lambda>s. st_state (gStatus s) = Idle)) (\<lambda>isIdle.
     if \<not> isIdle then retM (Inl (GoErr ''error: not in Idle state''))
     else bindM (setStatus CleaningUp ''Pruning snapshots'' (Pct 0)) (\<lambda>_.
       deferM (prune_all D) (backToIdle D)))"

subsection \<open>Wiping the bucket (wipe\_cloud.go)\<close>

type_synonym wipe_msg = "bool \<times> percent \<times> string"

fun wipe_objects :: "'w sys \<Rightarrow> string \<Rightarrow> int \<Rightarrow> int \<Rightarrow> string list \<Rightarrow> wipe_msg list
    \<Rightarrow> (('w, 'z) dmn_scheme, wipe_msg list) prog" where
  "wipe_objects S bucket totalObjects doneObjects [] sent = retM sent"
| "wipe_objects S bucket totalObjects doneObjects (objName # rest) sent =
     bindM (DeleteObj S bucket objName) (\<lambda>_.
     let percentDone = PctOf (doneObjects + 1) totalObjects in
     bindM (statusM (\<lambda>g. g\<lparr>st_percentage := percentDone\<rparr>)) (\<lambda>_.
     wipe_objects S bucket totalObjects (doneObjects + 1) rest (sent @ [(True, percentDone, [])])))"

definition wipe_all :: "'w denv \<Rightarrow> (('w, 'z) dmn_scheme, wipe_msg list) prog" where
  "wipe_all D =
     bindM (persistUsage D True True) (\<lambda>_.
     bindM (openStore D) (\<lambda>(S, bucket).
     tryM (GetObjList S bucket [] True)
       (\<lambda>e. retM [(False, Pct 0, ''error: WipeCloud: GetObjList failed: '' @ error_text e)]) (\<lambda>allObjects.
     wipe_objects S bucket (int (length allObjects)) 0 (map_keys allObjects) [])))"

text \<open>The deferred step reports success, also after the listing failed.\<close>

definition server_WipeCloud :: "'w denv \<Rightarrow> (('w, 'z) dmn_scheme, wipe_msg list) prog" where
  "server_WipeCloud D =
     bindM (getM (\<lambda>s. st_state (gStatus s) = Idle)) (\<lambda>isIdle.
     if \<not> isIdle then retM [(False, Pct 0, ''not in Idle state'')]
     else bindM (setStatus CleaningUp ''Deleting all cloud data'' (Pct 0)) (\<lambda>_.
       bindM (deferM (wipe_all D) (backToIdle D)) (\<lambda>sent. retM (sent @ [(True, Pct 100, [])]))))"

subsection \<open>The timer (timer.go)\<close>

definition wakeEveryNSeconds :: nat where "wakeEveryNSeconds = 60"
definition dontDoAnythingFirstNSeconds :: int where "dontDoAnythingFirstNSeconds = 15 * 60"
definition automaticBackupEveryNSeconds :: int where "automaticBackupEveryNSeconds = 24 * 60 * 60"
definition automaticPruneEveryNSeconds :: int where "automaticPruneEveryNSeconds = 24 * 60 * 60"
definition persistUsageEveryNSeconds :: int where "persistUsageEveryNSeconds = 6 * 60 * 60"

record timer =
  startedAtUnixtime :: int
  lastAutopruneUnixtime :: int
  lastPersistUsage :: int

definition isIdleM :: "(('w, 'z) dmn_scheme, bool) prog" where
  "isIdleM = getM (\<lambda>s. st_state (gStatus s) = Idle)"

definition timer_backup :: "'w denv \<Rightarrow> int \<Rightarrow> (('w, 'z) dmn_scheme, unit) prog" where
  "timer_backup D nowUnixtime =
     bindM (gDbM GetLastCompletedBackupUnixTime) (\<lambda>r.
     let lastBackupUnixtime = (case r of Inl _ \<Rightarrow> 0 | Inr t \<Rightarrow> t) in
     if nowUnixtime - lastBackupUnixtime > automaticBackupEveryNSeconds
     then bindM isIdleM (\<lambda>isIdle. if isIdle then bindM (server_Backup False) (\<lambda>_. retM ()) else retM ())
     else retM ())"

definition timer_prune :: "'w denv \<Rightarrow> int \<Rightarrow> timer \<Rightarrow> (('w, 'z) dmn_scheme, timer) prog" where
  "timer_prune D nowUnixtime t =
     (if nowUnixtime - lastAutopruneUnixtime t > automaticPruneEveryNSeconds
      then bindM isIdleM (\<lambda>isIdle. if \<not> isIdle then retM t
        else tryM (PruneSnapshots D) (\<lambda>e. retM t) (\<lambda>_.
          bindM (nowM (dS D)) (\<lambda>t1. bindM (persistUsage D True True) (\<lambda>_. bindM (nowM (dS D)) (\<lambda>t2.
          retM (t\<lparr>lastAutopruneUnixtime := t1, lastPersistUsage := t2\<rparr>))))))
      else retM t)"

definition timer_usage :: "'w denv \<Rightarrow> int \<Rightarrow> timer \<Rightarrow> (('w, 'z) dmn_scheme, timer) prog" where
  "timer_usage D nowUnixtime t =
     (if nowUnixtime - lastPersistUsage t > persistUsageEveryNSeconds
      then bindM isIdleM (\<lambda>isIdle. if \<not> isIdle then retM t
        else bindM (persistUsage D True True) (\<lambda>_. bindM (nowM (dS D)) (\<lambda>t2. retM (t\<lparr>lastPersistUsage := t2\<rparr>))))
      else retM t)"

text \<open>One round of the endless loop.\<close>

definition timer_round :: "'w denv \<Rightarrow> timer \<Rightarrow> (('w, 'z) dmn_scheme, timer) prog" where
  "timer_round D t =
     bindM (sleepM (dS D) wakeEveryNSeconds) (\<lambda>_.
     bindM (nowM (dS D)) (\<lambda>nowUnixtime.
     bindM (getM (\<lambda>s. gCfg s \<noteq> None \<and> gUsername s \<noteq> [] \<and> gUserHomeDir s \<noteq> [] \<and> gEncKey s \<noteq> None)) (\<lambda>ready.
     bindM (getM (\<lambda>s. ready \<and> gDbOpen s)) (\<lambda>isReadyForPeriodics.
     if \<not> isReadyForPeriodics \<or> nowUnixtime - startedAtUnixtime t < dontDoAnythingFirstNSeconds then retM t
     else bindM (timer_backup D nowUnixtime) (\<lambda>_.
       bindM (timer_prune D nowUnixtime t) (\<lambda>t. timer_usage D nowUnixtime t))))))"

definition timer_start :: "'w denv \<Rightarrow> (('w, 'z) dmn_scheme, timer) prog" where
  "timer_start D =
     bindM (nowM (dS D)) (\<lambda>t0. bindM (nowM (dS D)) (\<lambda>t1. bindM (nowM (dS D)) (\<lambda>t2.
     retM \<lparr>startedAtUnixtime = t0, lastAutopruneUnixtime = t1, lastPersistUsage = t2\<rparr>)))"

subsection \<open>Buckets (buckets.go)\<close>

definition not_initialized :: string where
  "not_initialized = ''global config not yet initialized''"

definition connect :: "'w denv \<Rightarrow> (('w, 'z) dmn_scheme, 'w sys) prog" where
  "connect D = bindM (openStore D) (\<lambda>(S, bucket). retM S)"

definition server_ListBuckets :: "'w denv \<Rightarrow> (('w, 'z) dmn_scheme, (string list \<times> string) \<times> goerr option) prog" where
  "server_ListBuckets D =
     bindM (getM gCfg) (\<lambda>c.
     if c = None then retM (([], not_initialized), None)
     else bindM (connect D) (\<lambda>S.
       bindM (ListBuckets S) (\<lambda>(buckets, err). retM (case err of
         Some e \<Rightarrow> (([], error_text e), Some e) | None \<Rightarrow> ((buckets, []), None)))))"

definition server_MakeBucket :: "'w denv \<Rightarrow> string \<Rightarrow> string
    \<Rightarrow> (('w, 'z) dmn_scheme, (bool \<times> string) \<times> goerr option) prog" where
  "server_MakeBucket D bucketName region =
     bindM (getM gCfg) (\<lambda>c.
     if c = None then retM ((False, not_initialized), None)
     else bindM (connect D) (\<lambda>S.
       tryM (MakeBucket S bucketName region) (\<lambda>e. retM ((False, error_text e), Some e))
         (\<lambda>_. retM ((True, []), None))))"

datatype check_result = SUCCESS | ERR_PASSWORD_WRONG | ERR_INCOMPATIBLE_VERSION | ERR_OTHER

definition server_CheckBucketPassword :: "'w denv \<Rightarrow> string \<Rightarrow> string
    \<Rightarrow> (('w, 'z) dmn_scheme, check_result \<times> string) prog" where
  "server_CheckBucketPassword D bucketName password =
     bindM (getM gCfg) (\<lambda>c.
     if c = None then retM (ERR_OTHER, not_initialized)
     else bindM (connect D) (\<lambda>S.
       tryM (GetOrCreateBucketMetadata S (dC D) (dM D) bucketName password)
         (\<lambda>e. retM (if Contains (error_text e) ''message authentication failed''
           then (ERR_PASSWORD_WRONG, ''Old password is incorrect for bucket.'') else (ERR_OTHER, error_text e)))
         (\<lambda>(_, bucketVersion, encKey, hmacKey).
       if \<not> IntSliceContains SupportedBucketVersions bucketVersion
       then retM (ERR_INCOMPATIBLE_VERSION, ''error: bucket version '' @ show_int bucketVersion @
         '' is not supported by this version of the program'')
       else tryM (VerifyKeys S (dC D) (dM D) bucketName password encKey hmacKey)
         (\<lambda>e. retM (ERR_PASSWORD_WRONG, error_text e)) (\<lambda>_. retM (SUCCESS, [])))))"

subsection \<open>The password (password.go)\<close>

record ChangePasswordRequest =
  OldPassword :: string
  NewPassword :: string
  UpdateConfigFile :: bool

definition server_ChangePassword :: "'w denv \<Rightarrow> ChangePasswordRequest \<Rightarrow> (('w, 'z) dmn_scheme, bool \<times> string) prog" where
  "server_ChangePassword D req =
     bindM (getM gCfg) (\<lambda>c.
     if c = None then retM (False, not_initialized)
     else bindM (openStore D) (\<lambda>(S, bucket).
       let old = OldPassword req; new = NewPassword req; C = dC D; M = dM D in
       tryM (GetOrCreateBucketMetadata S C M bucket old)
         (\<lambda>e. retM (False, if Contains (error_text e) ''message authentication failed''
           then ''Old password is incorrect for bucket.'' else error_text e)) (\<lambda>(_, _, encKey, hmacKey).
       tryM (VerifyKeys S C M bucket old encKey hmacKey)
         (\<lambda>e. retM (False, ''Old password is incorrect for bucket'')) (\<lambda>_.
       tryM (ChangePassword S C M bucket encKey hmacKey new) (\<lambda>e. retM (False, error_text e)) (\<lambda>_.
       tryM (GetOrCreateBucketMetadata S C M bucket new) (\<lambda>e. retM (False, error_text e))
         (\<lambda>(salt, _, encKey, hmacKey).
       tryM (VerifyKeys S C M bucket new encKey hmacKey) (\<lambda>e. retM (False, ''New password was not set correctly'')) (\<lambda>_.
       bindM (modifyM (\<lambda>s. s\<lparr>gCfg := map_option (\<lambda>c. c\<lparr>Salt := salt\<rparr>) (gCfg s), gEncKey := Some encKey,
         gHmacKey := Some hmacKey\<rparr>)) (\<lambda>_.
       bindM (if UpdateConfigFile req
         then bindM (cfgM (\<lambda>c. c\<lparr>MasterPassword := new, Salt := []\<rparr>)) (\<lambda>configToWrite.
           bindM (getM (\<lambda>s. (gUsername s, gUserHomeDir s))) (\<lambda>(username, userHomeDir).
           bindM (makeTemplateConfigFile D username userHomeDir (Some configToWrite)) (\<lambda>_.
           bindM (initConfig D) (\<lambda>_. retM ()))))
         else retM ()) (\<lambda>_. retM (True, []))))))))))"

definition server_GeneratePassphrase :: "'w denv \<Rightarrow> (('w, 'z) dmn_scheme, bool \<times> string \<times> string) prog" where
  "server_GeneratePassphrase D =
     bindM (GenerateRandomPassphrase (dS D) 10) (\<lambda>passphrase. retM (True, [], passphrase))"

end
