(* ===== verification/Daemon_Views.thy ===== *)
theory Daemon_Views
  imports Daemon_Calls
begin

section \<open>Snapshots and logs shown to the client (snapshots.go, logs.go)\<close>

text \<open>
  Listing snapshots, their paths and their size, deleting snapshots, and streaming a log file. The
  messages sent are the list a handler returns, without those that only report the progress of a
  deletion. A property shows that the batches of paths are the sorted paths of the snapshot, another
  that the streamed log lines are those of the file.
\<close>

subsection \<open>Reading snapshots\<close>

text \<open>\<^verbatim>\<open>gEncKey\<close> itself, not a copy: nil is an empty key.\<close>

definition rawKeyM :: "(('w, 'z) dmn_scheme, bytes) prog" where
  "rawKeyM = getM (\<lambda>s. case gEncKey s of None \<Rightarrow> [] | Some k \<Rightarrow> k)"

definition configReadyM :: "(('w, 'z) dmn_scheme, bool) prog" where
  "configReadyM = getM (\<lambda>s. gCfg s \<noteq> None \<and> gEncKey s \<noteq> None)"

record SnapshotMetadata =
  sm_BackupName :: string
  sm_SnapshotName :: string
  sm_SnapshotTimestamp :: int
  sm_SnapshotRawName :: string

definition server_ReadAllSnapshotsMetadata :: "'w denv
    \<Rightarrow> (('w, 'z) dmn_scheme, bool \<times> string \<times> SnapshotMetadata list) prog" where
  "server_ReadAllSnapshotsMetadata D =
     bindM configReadyM (\<lambda>isGlobalConfigReady.
     if \<not> isGlobalConfigReady then retM (False, not_initialized, [])
     else bindM (openStore D) (\<lambda>(S, bucket). bindM rawKeyM (\<lambda>encKey.
       tryM (GetAllSnapshotInfos S (dC D) encKey bucket)
         (\<lambda>e. retM (False, ''error: ReadAllSnapshotsMetadata: '' @ error_text e, [])) (\<lambda>mSnapshots.
       retM (True, [], concat (map (\<lambda>(backupName, ssInfos). map (\<lambda>ssInfo.
         \<lparr>sm_BackupName = backupName, sm_SnapshotName = si_Name ssInfo,
          sm_SnapshotTimestamp = TimestampUnix ssInfo, sm_SnapshotRawName = RawSnapshotName ssInfo\<rparr>) ssInfos)
         mSnapshots))))))"

record paths_msg =
  pm_DidSucceed :: bool
  pm_ErrMsg :: string
  pm_RelPaths :: "string list"
  pm_PercentDone :: percent

definition paths_error :: "string \<Rightarrow> paths_msg list" where
  "paths_error msg = [\<lparr>pm_DidSucceed = False, pm_ErrMsg = msg, pm_RelPaths = [], pm_PercentDone = Pct 0\<rparr>]"

definition paths_ok :: "string list \<Rightarrow> percent \<Rightarrow> paths_msg" where
  "paths_ok ps p = \<lparr>pm_DidSucceed = True, pm_ErrMsg = [], pm_RelPaths = ps, pm_PercentDone = p\<rparr>"

definition SendPartialResponseEveryNRelPaths :: nat where
  "SendPartialResponseEveryNRelPaths = 5000"

text \<open>The loop that sends a message for every batch of \<open>n\<close> paths, and the rest at the end.\<close>

fun send_paths :: "nat \<Rightarrow> nat \<Rightarrow> string list \<Rightarrow> string list \<Rightarrow> nat \<Rightarrow> paths_msg list" where
  "send_paths n tot [] buf cntSent = (if length buf > 0 then [paths_ok buf (Pct 100)] else [])"
| "send_paths n tot (rp # rest) buf cntSent =
     (let buf = buf @ [rp] in
      if length buf \<ge> n
      then let cntSent = cntSent + length buf in
        paths_ok buf (PctOf (int cntSent) (int tot)) # send_paths n tot rest [] cntSent
      else send_paths n tot rest buf cntSent)"

definition snapshot_paths :: "Snapshot \<Rightarrow> paths_msg list" where
  "snapshot_paths ssObj =
     (let sortedRelPaths = sort (map_keys (RelPaths ssObj)) in
      send_paths SendPartialResponseEveryNRelPaths (length sortedRelPaths) sortedRelPaths [] 0)"

definition server_ReadSnapshotPaths :: "'w denv \<Rightarrow> string \<Rightarrow> string \<Rightarrow> (('w, 'z) dmn_scheme, paths_msg list) prog" where
  "server_ReadSnapshotPaths D backupName snapshotName =
     (let fail = (\<lambda>what nm e. retM (paths_error (''error: ReadSnapshotPaths: could not '' @ what @ nm @ error_text e @ nl))) in
      if backupName = [] \<or> snapshotName = [] then retM (paths_error ''backup name or snapshot name was blank'')
      else bindM configReadyM (\<lambda>isGlobalConfigReady.
      if \<not> isGlobalConfigReady then retM (paths_error not_initialized)
      else bindM (openStore D) (\<lambda>(S, bucket). bindM rawKeyM (\<lambda>encKey.
      case EncryptFilename (dC D) encKey backupName of
        Inl e \<Rightarrow> fail ''encrypt backup name ('' (backupName @ ''): '') e
      | Inr encBackupName \<Rightarrow> (case EncryptFilename (dC D) encKey snapshotName of
        Inl e \<Rightarrow> fail ''encrypt snapshot name ('' (snapshotName @ ''): '') e
      | Inr encSsName \<Rightarrow>
        tryM (GetSnapshotIndexFile S (dC D) bucket encKey (encBackupName @ ''/@'' @ encSsName))
          (fail ''retrieve snapshot index file ('' (snapshotName @ ''): '')) (\<lambda>plaintextIndexFileBuf.
        case UnmarshalSnapshotObj (dJ D) plaintextIndexFileBuf of
          Inl e \<Rightarrow> fail (''unmarshall to snapshot obj for '' @ [CHR 0x27]) (snapshotName @ [CHR 0x27] @ '': '') e
        | Inr ssObj \<Rightarrow> retM (snapshot_paths ssObj)))))))"

subsection \<open>Deleting snapshots\<close>

text \<open>The messages sent about failures; the reports of progress are left out.\<close>

type_synonym delete_msg = "bool \<times> string \<times> percent"

fun split_names :: "string list \<Rightarrow> goerr + SnapshotForDeletion list" where
  "split_names [] = Inr []"
| "split_names (ssRawName # rest) = (case SplitSnapshotName ssRawName of
     Inl e \<Rightarrow> Inl e
   | Inr (backupDirName, snapshotTimestamp) \<Rightarrow> (case split_names rest of
       Inl e \<Rightarrow> Inl e
     | Inr dels \<Rightarrow> Inr (\<lparr>sd_BackupDirName = backupDirName, sd_SnapshotName = snapshotTimestamp\<rparr> # dels)))"

text \<open>Deleting the most recent snapshot of a directory makes its next backup a full one.\<close>

fun reset_for_deletion :: "(string \<times> BackupDir) list \<Rightarrow> SnapshotForDeletion list
    \<Rightarrow> (('w, 'z) dmn_scheme, goerr + unit) prog" where
  "reset_for_deletion groupedObjects [] = retM (Inr ())"
| "reset_for_deletion groupedObjects (ssDelItem # rest) =
     bindM (liftGo (IsMostRecentSnapshotForBackup groupedObjects (sd_BackupDirName ssDelItem) (sd_SnapshotName ssDelItem)))
       (\<lambda>isMostRecent.
     if isMostRecent
     then tryM (gDbM (ResetLastBackedUpTimeForEntireBackup (sd_BackupDirName ssDelItem))) (\<lambda>e. retM (Inl e))
       (\<lambda>_. reset_for_deletion groupedObjects rest)
     else reset_for_deletion groupedObjects rest)"

definition delete_snapshots :: "'w denv \<Rightarrow> string list \<Rightarrow> (('w, 'z) dmn_scheme, delete_msg list) prog" where
  "delete_snapshots D snapshotRawNames =
     bindM (openStore D) (\<lambda>(S, bucket). bindM rawKeyM (\<lambda>encKey.
     (case split_names snapshotRawNames of
        Inl e \<Rightarrow> retM [(False, ''snapshot name invalid'', Pct 0)]
      | Inr ssDelItems \<Rightarrow>
        tryM (GetGroupedSnapshots S (dC D) (dJ D) encKey bucket True)
          (\<lambda>e. retM [(False, ''could not read objects from cloud'', Pct 0)]) (\<lambda>groupedObjects.
        tryM (reset_for_deletion groupedObjects ssDelItems)
          (\<lambda>e. retM [(False, ''could not reset last backup times. You should manually perform a full backup.'', Pct 0)]) (\<lambda>_.
        tryM (DeleteSnapshots S (dC D) (dJ D) encKey ssDelItems bucket True)
          (\<lambda>e. retM [(False, error_text e, Pct 0)]) (\<lambda>_. retM []))))))"

definition server_DeleteSnapshots :: "'w denv \<Rightarrow> string list \<Rightarrow> (('w, 'z) dmn_scheme, delete_msg list) prog" where
  "server_DeleteSnapshots D snapshotRawNames =
     bindM (persistUsage D True False) (\<lambda>_.
     bindM (getM (\<lambda>s. st_state (gStatus s) \<noteq> Idle)) (\<lambda>isBusy.
     if isBusy
     then retM [(False, ''Cannot delete snapshots right now because a backup or other operation is running'', Pct 0)]
     else bindM (setStatus CleaningUp ''Deleting snapshot(s)'' (Pct (-1))) (\<lambda>_.
       deferM (delete_snapshots D snapshotRawNames) (backToIdle D))))"

subsection \<open>The space of every snapshot\<close>

record SnapshotUsage =
  su_BackupName :: string
  su_SnapshotName :: string
  su_SnapshotRawName :: string
  IndexFileByteCount :: int
  su_Chunks :: "(string \<times> int) list"

record usage_msg =
  um_DidSucceed :: bool
  um_ErrMsg :: string
  um_SnapshotUsage :: "SnapshotUsage list"
  um_PercentDone :: percent

definition usage_error :: "string \<Rightarrow> usage_msg" where
  "usage_error msg = \<lparr>um_DidSucceed = False, um_ErrMsg = msg, um_SnapshotUsage = [], um_PercentDone = Pct 0\<rparr>"

definition usage_ok :: "int \<Rightarrow> int \<Rightarrow> SnapshotUsage \<Rightarrow> usage_msg" where
  "usage_ok doneCnt tot u = \<lparr>um_DidSucceed = True, um_ErrMsg = [], um_SnapshotUsage = [u],
     um_PercentDone = (if tot > 0 then PctOf doneCnt tot else Pct 0)\<rparr>"

definition getAllReferencedChunkNames :: "Snapshot \<Rightarrow> string list" where
  "getAllReferencedChunkNames ssObj =
     map_keys (fold (\<lambda>(_, crp). fold (\<lambda>chunkExt m. map_put (ChunkName chunkExt) (0 :: int) m) (ChunkExtents crp))
       (RelPaths ssObj) [])"

definition snapshot_usage :: "(string \<times> int) list \<Rightarrow> string \<Rightarrow> string \<Rightarrow> int \<Rightarrow> Snapshot \<Rightarrow> SnapshotUsage" where
  "snapshot_usage mCloudChunks backupName ssName encObjBcount ssObj =
     \<lparr>su_BackupName = backupName, su_SnapshotName = ssName, su_SnapshotRawName = backupName @ ''/'' @ ssName,
      IndexFileByteCount = encObjBcount,
      su_Chunks = map (\<lambda>n. (n, case map_of mCloudChunks n of None \<Rightarrow> 0 | Some k \<Rightarrow> k)) (getAllReferencedChunkNames ssObj)\<rparr>"

text \<open>The loops carry what was sent and the count of snapshots done; an error ends them with the last message.\<close>

fun usage_indices :: "'w denv \<Rightarrow> 'w sys \<Rightarrow> string \<Rightarrow> bytes \<Rightarrow> (string \<times> int) list \<Rightarrow> int \<Rightarrow> string \<Rightarrow> string
    \<Rightarrow> (string \<times> int) list \<Rightarrow> int \<Rightarrow> usage_msg list \<Rightarrow> (('w, 'z) dmn_scheme, usage_msg list + (int \<times> usage_msg list)) prog" where
  "usage_indices D S bucket key mCloudChunks tot backupName encBackupName [] doneCnt sent = retM (Inr (doneCnt, sent))"
| "usage_indices D S bucket key mCloudChunks tot backupName encBackupName ((encObjName, encObjBcount) # rest) doneCnt sent =
     (let encSsName = TrimPrefix encObjName (encBackupName @ ''/@'') in
      tryM (liftGo (DecryptFilename (dC D) key encSsName))
        (\<lambda>e. usage_indices D S bucket key mCloudChunks tot backupName encBackupName rest (doneCnt + 1) sent) (\<lambda>ssName.
      tryM (GetSnapshotIndexFile S (dC D) bucket key encObjName)
        (\<lambda>e. retM (Inl (sent @ [usage_error (''error: GetSnapshotSpaceUsage: could not retrieve snapshot index file ('' @ ssName @
          '') - skipping: '' @ error_text e @ nl)]))) (\<lambda>plaintextIndexFileBuf.
      case UnmarshalSnapshotObj (dJ D) plaintextIndexFileBuf of
        Inl e \<Rightarrow> retM (Inl (sent @ [usage_error (''error: GetSnapshotSpaceUsage: could not get snapshot obj for '' @ [CHR 0x27] @
          ssName @ [CHR 0x27] @ '': '' @ error_text e @ nl)]))
      | Inr ssObj \<Rightarrow>
          usage_indices D S bucket key mCloudChunks tot backupName encBackupName rest (doneCnt + 1)
            (sent @ [usage_ok (doneCnt + 1) tot (snapshot_usage mCloudChunks backupName ssName encObjBcount ssObj)]))))"

definition list_error :: "string \<Rightarrow> goerr \<Rightarrow> usage_msg" where
  "list_error encBackupName e = usage_error (''error: GetSnapshotSpaceUsage: could not get list of snapshot index files for '' @
     [CHR 0x27] @ encBackupName @ [CHR 0x27] @ '': '' @ error_text e @ nl)"

fun usage_count :: "'w sys \<Rightarrow> string \<Rightarrow> string list \<Rightarrow> int \<Rightarrow> (('w, 'z) dmn_scheme, usage_msg + int) prog" where
  "usage_count S bucket [] n = retM (Inr n)"
| "usage_count S bucket (encBackupName # rest) n =
     tryM (GetObjList S bucket (encBackupName @ ''/@'') False) (\<lambda>e. retM (Inl (list_error encBackupName e)))
       (\<lambda>m. usage_count S bucket rest (n + int (length m)))"

fun usage_backups :: "'w denv \<Rightarrow> 'w sys \<Rightarrow> string \<Rightarrow> bytes \<Rightarrow> (string \<times> int) list \<Rightarrow> int \<Rightarrow> string list \<Rightarrow> int
    \<Rightarrow> usage_msg list \<Rightarrow> (('w, 'z) dmn_scheme, usage_msg list) prog" where
  "usage_backups D S bucket key mCloudChunks tot [] doneCnt sent = retM sent"
| "usage_backups D S bucket key mCloudChunks tot (encBackupName # rest) doneCnt sent =
     tryM (liftGo (DecryptFilename (dC D) key encBackupName))
       (\<lambda>e. retM (sent @ [usage_error (''error: GetSnapshotSpaceUsage: could not decrypt backup dir name ('' @ encBackupName @
         ''): '' @ error_text e @ nl)])) (\<lambda>backupName.
     tryM (GetObjList S bucket (encBackupName @ ''/@'') False)
       (\<lambda>e. retM (sent @ [list_error encBackupName e])) (\<lambda>mSnapshotIndexObjs.
     bindM (usage_indices D S bucket key mCloudChunks tot backupName encBackupName mSnapshotIndexObjs doneCnt sent) (\<lambda>r.
     case r of Inl sent \<Rightarrow> retM sent
     | Inr (doneCnt, sent) \<Rightarrow> usage_backups D S bucket key mCloudChunks tot rest doneCnt sent)))"

definition server_GetSnapshotSpaceUsage :: "'w denv \<Rightarrow> (('w, 'z) dmn_scheme, usage_msg list) prog" where
  "server_GetSnapshotSpaceUsage D =
     bindM (openStore D) (\<lambda>(S, bucket). bindM keyM (\<lambda>encKey.
     tryM (GetObjListTopLevel S bucket [''metadata'', ''chunks''])
       (\<lambda>e. retM [usage_error (''error: GetSnapshotSpaceUsage: objst.GetObjListTopLevel failed:  '' @ error_text e @ nl)])
       (\<lambda>topLevelObjs.
     bindM (usage_count S bucket topLevelObjs 0) (\<lambda>r. case r of Inl m \<Rightarrow> retM [m] | Inr snapshotIndexCnt \<Rightarrow>
     tryM (GetObjList S bucket ''chunks/'' False)
       (\<lambda>e. retM [usage_error (''error: GetSnapshotSpaceUsage: could not iterate over chunks in cloud: '' @ error_text e)])
       (\<lambda>mCloudChunksBayKeys.
     usage_backups D S bucket encKey (map (\<lambda>(cc, n). (TrimPrefix cc ''chunks/'', n)) mCloudChunksBayKeys)
       snapshotIndexCnt topLevelObjs 0 [])))))"

subsection \<open>Streaming a log file\<close>

record log_msg =
  lg_DidSucceed :: bool
  lg_ErrMsg :: string
  LogLines :: "string list"
  NextOffset :: int
  lg_PercentDone :: percent

definition MaxLineLengthBytes :: nat where
  "MaxLineLengthBytes = 300"

definition MaxLinesToReturnInSingleCall :: nat where
  "MaxLinesToReturnInSingleCall = 5000"

abbreviation nul :: char where
  "nul \<equiv> CHR 0x00"

definition allZeros :: "string \<Rightarrow> bool" where
  "allZeros s \<longleftrightarrow> list_all (\<lambda>b. b = nul) s"

definition splitToLines :: "string \<Rightarrow> bool \<Rightarrow> string list \<times> string" where
  "splitToLines buf isEOF =
     (if length buf = 0 then ([], [])
      else let ls = SplitChar (CHR 0x0A) buf;
          (lines, remnantBuf) = (if \<not> isEOF then (butlast ls, last ls) else (ls, []));
          lines = (if length lines > 0 \<and> allZeros (last lines) then butlast lines else lines) in
        (lines, remnantBuf))"

text \<open>The buffer is as long as what was asked for: the bytes after those read are zero.\<close>

fun log_loop :: "nat \<Rightarrow> 'w denv \<Rightarrow> string \<Rightarrow> int \<Rightarrow> int \<Rightarrow> nat \<Rightarrow> string \<Rightarrow> int \<Rightarrow> log_msg list
    \<Rightarrow> (('w, 'z) dmn_scheme, log_msg list) prog" where
  "log_loop 0 D logPath startingOffset fileLen linesReturned remnantBuf currOffset sent = liftGo Spin"
| "log_loop (Suc k) D logPath startingOffset fileLen linesReturned remnantBuf currOffset sent =
     tryM (sysM (dReadAt D logPath currOffset MaxLineLengthBytes))
       (\<lambda>e. retM (sent @ [\<lparr>lg_DidSucceed = False, lg_ErrMsg = ''readat failed on '' @ logPath @ '': '' @ error_text e,
          LogLines = [], NextOffset = startingOffset, lg_PercentDone = PctOf startingOffset fileLen\<rparr>])) (\<lambda>(got, isEOF).
     let buf = got @ replicate (MaxLineLengthBytes - length got) nul;
       currOffset = currOffset + int (length got);
       fullBuf = remnantBuf @ buf;
       (lines, remnantBuf) = splitToLines fullBuf isEOF;
       msg = \<lparr>lg_DidSucceed = True, lg_ErrMsg = [], LogLines = lines,
         NextOffset = currOffset - int (length remnantBuf), lg_PercentDone = PctOf currOffset fileLen\<rparr> in
     if \<not> isEOF then
       if length lines > 0 then
         let linesReturned = linesReturned + length lines in
         if linesReturned > MaxLinesToReturnInSingleCall then retM (sent @ [msg])
         else log_loop k D logPath startingOffset fileLen linesReturned remnantBuf currOffset (sent @ [msg])
       else log_loop k D logPath startingOffset fileLen linesReturned remnantBuf currOffset sent
     else retM (sent @ [msg\<lparr>NextOffset := currOffset\<rparr>]))"

definition readFileIntoLines :: "'w denv \<Rightarrow> int \<Rightarrow> string \<Rightarrow> (('w, 'z) dmn_scheme, log_msg list) prog" where
  "readFileIntoLines D startingOffset logPath =
     tryM (sysM (Lstat (dS D) logPath))
       (\<lambda>e. retM [\<lparr>lg_DidSucceed = False, lg_ErrMsg = ''lstat failed on '' @ logPath @ '': '' @ error_text e,
          LogLines = [], NextOffset = startingOffset, lg_PercentDone = Pct 0\<rparr>]) (\<lambda>fInfo.
     let fileLen = fi_size fInfo in
     if fileLen = startingOffset
     then retM [\<lparr>lg_DidSucceed = True, lg_ErrMsg = [], LogLines = [], NextOffset = startingOffset, lg_PercentDone = Pct 100\<rparr>]
     else tryM (sysM (OpenFile (dS D) logPath))
       (\<lambda>e. retM [\<lparr>lg_DidSucceed = False, lg_ErrMsg = ''open failed on '' @ logPath @ '': '' @ error_text e,
          LogLines = [], NextOffset = startingOffset, lg_PercentDone = Pct 0\<rparr>]) (\<lambda>f.
       let startingOffset = (if fileLen < startingOffset then 0 else startingOffset) in
       log_loop (Attempts (dS D)) D logPath startingOffset fileLen 0 [] startingOffset []))"

definition server_LogStream :: "'w denv \<Rightarrow> string \<Rightarrow> int \<Rightarrow> (('w, 'z) dmn_scheme, log_msg list) prog" where
  "server_LogStream D logPath startingOffset = readFileIntoLines D startingOffset logPath"

end
