(* ===== verification/Daemon_View_Props.thy ===== *)
theory Daemon_View_Props
  imports Daemon_Views
begin

section \<open>What the client is shown\<close>

text \<open>
  The two streams of messages whose client relies on their completeness: the paths of a snapshot, sent in
  batches, and a log file, read in buffers of 300 bytes whose last line is carried over to the next.
\<close>

subsection \<open>Batches of paths\<close>

lemma send_paths_batches:
  assumes "0 < n" "length buf < n"
  shows "concat (map pm_RelPaths (send_paths n tot ps buf cnt)) = buf @ ps \<and>
    list_all (\<lambda>m. pm_DidSucceed m \<and> pm_RelPaths m \<noteq> [] \<and> length (pm_RelPaths m) \<le> n) (send_paths n tot ps buf cnt) \<and>
    length (send_paths n tot ps buf cnt) = (length buf + length ps + n - 1) div n"
  using assms(2)
proof (induction ps arbitrary: buf cnt)
  case Nil
  then have "(length buf + n - 1) div n = (if buf = [] then 0 else 1)"
    using assms(1) by (cases buf) (auto intro: div_nat_eqI)
  with Nil show ?case by (simp add: paths_ok_def)
next
  case (Cons p ps)
  show ?case
  proof (cases "length (buf @ [p]) \<ge> n")
    case True
    with Cons.prems have n: "n = Suc (length buf)" by simp
    have "(n + (length ps + n - 1)) div n = Suc ((length ps + n - 1) div n)"
      by (subst div_add_self1) (use assms(1) in simp_all)
    then have "(length buf + length (p # ps) + n - 1) div n = Suc ((length ps + n - 1) div n)"
      using n by (simp add: ac_simps)
    with Cons.IH [of "[]" "cnt + length (buf @ [p])"] assms(1) n show ?thesis
      by (simp add: Let_def paths_ok_def)
  next
    case False
    then show ?thesis using Cons.IH [of "buf @ [p]" cnt] by (simp add: Let_def)
  qed
qed

text \<open>
  C36. The paths of a snapshot arrive complete and in order. The messages \<^verbatim>\<open>ReadSnapshotPaths\<close> sends for
  a snapshot hold, one after the other, its paths sorted; every one is a success with at least one
  and at most 5000 paths, and there are as many as it takes, none for an empty snapshot.
\<close>

theorem snapshot_paths_batches:
  "concat (map pm_RelPaths (snapshot_paths ss)) = sort (map_keys (RelPaths ss)) \<and>
   list_all (\<lambda>m. pm_DidSucceed m \<and> pm_RelPaths m \<noteq> [] \<and> length (pm_RelPaths m) \<le> 5000) (snapshot_paths ss) \<and>
   length (snapshot_paths ss) = (length (RelPaths ss) + 4999) div 5000"
  using send_paths_batches [of 5000 "[]" "length (sort (map_keys (RelPaths ss)))" "sort (map_keys (RelPaths ss))" 0]
  by (simp add: snapshot_paths_def Let_def SendPartialResponseEveryNRelPaths_def)

subsection \<open>Lines of a log\<close>

text \<open>
  The file does not change while it is streamed. \<^verbatim>\<open>ReadAt\<close> fills the buffer unless the file ends. Blank
  lines are not told apart here: the code drops one at the end of every message.
\<close>

definition static_log :: "'w denv \<Rightarrow> string \<Rightarrow> string \<Rightarrow> bool" where
  "static_log D path c \<longleftrightarrow>
     (\<forall>w. \<exists>fi. fst (Lstat (dS D) path w) = Inr fi \<and> fi_size fi = int (length c)) \<and>
     (\<forall>w. \<exists>f. fst (OpenFile (dS D) path w) = Inr f) \<and>
     (\<forall>w n k. fst (dReadAt D path (int n) k w) = Inr (take k (drop n c), length c < n + k))"

definition nonblank :: "string list \<Rightarrow> string list" where
  "nonblank ls = filter (\<lambda>l. l \<noteq> []) (map (filter (\<lambda>c. c \<noteq> nul)) ls)"

definition log_lines :: "string \<Rightarrow> string list" where
  "log_lines c = nonblank (SplitChar (CHR 0x0A) c)"

definition shown :: "log_msg list \<Rightarrow> string list" where
  "shown msgs = nonblank (concat (map LogLines msgs))"

lemma nonblank_append [simp]: "nonblank (xs @ ys) = nonblank xs @ nonblank ys"
  by (simp add: nonblank_def)

lemma nonblank_pad: "nonblank (xs @ [l @ replicate m nul]) = nonblank (xs @ [l])"
  by (simp add: nonblank_def)

lemma nonblank_zeros: "allZeros l \<Longrightarrow> nonblank [l] = []"
  by (simp add: nonblank_def allZeros_def list_all_iff)

lemma nonblank_strip:
  "nonblank (if length ls > 0 \<and> allZeros (last ls) then butlast ls else ls) = nonblank ls"
proof (cases ls rule: rev_cases)
  case (snoc xs x)
  then show ?thesis using nonblank_zeros [of x] by simp
qed simp

lemma SplitChar_split: "SplitChar c (x @ y) = butlast (SplitChar c x) @ SplitChar c (last (SplitChar c x) @ y)"
proof (induction x)
  case (Cons a x)
  obtain z zs where z: "SplitChar c x = z # zs" by (cases "SplitChar c x") auto
  show ?case
  proof (cases "a = c")
    case False
    show ?thesis
    proof (cases zs)
      case Nil
      then show ?thesis using Cons z False by (simp split: list.splits)
    next
      case (Cons b bs)
      then show ?thesis using Cons.IH z False by (simp split: list.splits)
    qed
  qed (use Cons z in simp)
qed simp

lemma last_SplitChar_suffix: "\<exists>p. x = p @ last (SplitChar c x)"
proof (induction x)
  case (Cons a x)
  then obtain p where p: "x = p @ last (SplitChar c x)" by blast
  obtain z zs where z: "SplitChar c x = z # zs" by (cases "SplitChar c x") auto
  show ?case
  proof (cases "a \<noteq> c \<and> zs = []")
    case True
    with z have "last (SplitChar c (a # x)) = a # x" using p JoinStr_SplitChar [of c x] by simp
    then show ?thesis by (intro exI [of _ "[]"]) simp
  next
    case False
    with z have "last (SplitChar c (a # x)) = last (SplitChar c x)" by (auto split: list.splits)
    with p show ?thesis by (intro exI [of _ "a # p"]) simp
  qed
qed simp

text \<open>One round: the lines of the message and what remains have the lines of the buffer.\<close>

lemma splitToLines_more:
  assumes "splitToLines buf False = (ls, rem)"
  shows "nonblank ls @ log_lines (rem @ y) = log_lines (buf @ y) \<and> (\<exists>p. buf = p @ rem) \<and> CHR 0x0A \<notin> set rem"
proof (cases "buf = []")
  case False
  let ?ls = "SplitChar (CHR 0x0A) buf"
  from assms False have rem: "rem = last ?ls"
    and ls: "ls = (if length (butlast ?ls) > 0 \<and> allZeros (last (butlast ?ls)) then butlast (butlast ?ls) else butlast ?ls)"
    by (auto simp: splitToLines_def Let_def simp del: length_butlast length_greater_0_conv)
  have "nonblank ls = nonblank (butlast ?ls)" unfolding ls by (rule nonblank_strip)
  then show ?thesis
    using SplitChar_split [of "CHR 0x0A" buf y] last_SplitChar_suffix [of buf "CHR 0x0A"] SplitChar_parts [of rem "CHR 0x0A" buf]
    by (auto simp: rem log_lines_def)
qed (use assms in \<open>simp add: splitToLines_def log_lines_def nonblank_def\<close>)

lemma splitToLines_end:
  assumes "splitToLines (x @ replicate m nul) True = (ls, rem)"
  shows "nonblank ls = log_lines x \<and> rem = []"
proof (cases "x @ replicate m nul = []")
  case False
  let ?ls = "SplitChar (CHR 0x0A) (x @ replicate m nul)"
  from assms False have "rem = []"
    and ls: "ls = (if length ?ls > 0 \<and> allZeros (last ?ls) then butlast ?ls else ?ls)"
    by (auto simp: splitToLines_def Let_def)
  have last: "CHR 0x0A \<notin> set (last (SplitChar (CHR 0x0A) x))" by (rule SplitChar_parts) (rule last_in_set, simp)
  have "nonblank ls = nonblank ?ls" unfolding ls by (rule nonblank_strip)
  also have "\<dots> = nonblank (butlast (SplitChar (CHR 0x0A) x) @ [last (SplitChar (CHR 0x0A) x) @ replicate m nul])"
    using last by (simp add: SplitChar_split [of _ x] SplitChar_no_sep)
  also have "\<dots> = nonblank (butlast (SplitChar (CHR 0x0A) x) @ [last (SplitChar (CHR 0x0A) x)])"
    by (rule nonblank_pad)
  also have "\<dots> = log_lines x" by (subst append_butlast_last_id) (simp_all add: log_lines_def)
  finally show ?thesis using \<open>rem = []\<close> by simp
qed (use assms in \<open>simp add: splitToLines_def log_lines_def nonblank_def\<close>)

lemma shown_append [simp]: "shown (xs @ ys) = shown xs @ shown ys"
  by (simp add: shown_def)

lemma shown_Cons: "shown (m # ms) = nonblank (LogLines m) @ shown ms"
  by (simp add: shown_def)

lemma log_loop_step:
  assumes "dReadAt D path off MaxLineLengthBytes (world s) = (Inr (got, eof), w)"
    and "splitToLines (rem @ got @ replicate (300 - length got) nul) eof = (ls, rem')"
    and "msg = \<lparr>lg_DidSucceed = True, lg_ErrMsg = [], LogLines = ls, NextOffset = off + int (length got) - int (length rem'),
      lg_PercentDone = PctOf (off + int (length got)) len\<rparr>"
  shows "log_loop (Suc k) D path start len m rem off sent s =
    (if eof then (Ret (sent @ [msg\<lparr>NextOffset := off + int (length got)\<rparr>]), s\<lparr>world := w\<rparr>)
     else if length ls > 0
     then if m + length ls > 5000 then (Ret (sent @ [msg]), s\<lparr>world := w\<rparr>)
       else log_loop k D path start len (m + length ls) rem' (off + int (length got)) (sent @ [msg]) (s\<lparr>world := w\<rparr>)
     else log_loop k D path start len m rem' (off + int (length got)) sent (s\<lparr>world := w\<rparr>))"
proof -
  have "sysM (dReadAt D path off MaxLineLengthBytes) s = (Ret (Inr (got, eof)), s\<lparr>world := w\<rparr>)"
    using assms(1) by (simp add: sysM_def)
  note read = tryM_run(1) [where m = "sysM (dReadAt D path off MaxLineLengthBytes)", OF this]
  show ?thesis using assms(2,3) unfolding log_loop.simps read
    by (simp add: Let_def MaxLineLengthBytes_def MaxLinesToReturnInSingleCall_def)
qed

lemma log_loop_stream:
  assumes log: "static_log D path c" and "nul \<notin> set c"
    and "a + length rem = off" "off \<le> length c" "take (off - a) (drop a c) = rem"
    and "(length c - off) div 300 < k"
  shows "\<exists>msgs t. log_loop k D path start len m rem (int off) sent s = (Ret (sent @ msgs), t) \<and> msgs \<noteq> [] \<and>
    list_all lg_DidSucceed msgs \<and> 0 \<le> NextOffset (last msgs) \<and> NextOffset (last msgs) \<le> int (length c) \<and>
    (NextOffset (last msgs) = int (length c) \<or> 5000 < m + length (concat (map LogLines msgs))) \<and>
    shown msgs @ log_lines (drop (nat (NextOffset (last msgs))) c) = log_lines (drop a c)"
  using assms(3-)
proof (induction k arbitrary: a rem off m sent s)
  case (Suc k)
  let ?got = "take 300 (drop off c)"
  let ?off = "off + length ?got"
  obtain w where rd: "dReadAt D path (int off) MaxLineLengthBytes (world s) = (Inr (?got, length c < off + 300), w)"
    using log unfolding static_log_def MaxLineLengthBytes_def by (metis prod.collapse)
  have start: "drop a c = rem @ drop off c"
    using Suc.prems(1,3) append_take_drop_id [of "off - a" "drop a c"] by (simp add: add.commute)
  define buf where "buf = rem @ ?got @ replicate (300 - length ?got) nul"
  obtain ls rem' where sp: "splitToLines buf (length c < off + 300) = (ls, rem')" by fastforce
  let ?msg = "\<lparr>lg_DidSucceed = True, lg_ErrMsg = [], LogLines = ls, NextOffset = int ?off - int (length rem'),
    lg_PercentDone = PctOf (int ?off) len\<rparr>"
  show ?case
  proof (cases "length c < off + 300")
    case True
    then have got: "?got = drop off c" by simp
    have "buf = drop a c @ replicate (300 - length ?got) nul" using start got by (simp add: buf_def)
    with splitToLines_end sp True have e: "nonblank ls = log_lines (drop a c)" "rem' = []" by auto
    have "?off = length c" using got Suc.prems(2) by simp
    then show ?thesis using e True sp got
      by (subst log_loop_step [OF rd sp [unfolded buf_def] refl], intro exI [of _ "[?msg\<lparr>NextOffset := int ?off\<rparr>]"])
        (simp add: shown_def log_lines_def nonblank_def)
  next
    case False
    then have len: "length ?got = 300" by simp
    then have buf: "buf = rem @ ?got" by (simp add: buf_def)
    have whole: "drop a c = buf @ drop (off + 300) c"
      using start append_take_drop_id [of 300 "drop off c"] by (simp add: buf add.commute)
    from splitToLines_more [of buf ls rem' "drop (off + 300) c"] sp False
    have more: "nonblank ls @ log_lines (rem' @ drop (off + 300) c) = log_lines (drop a c)" "\<exists>p. buf = p @ rem'"
      by (auto simp: whole)
    from more(2) obtain p where p: "buf = p @ rem'" by blast
    let ?a = "a + length p"
    have pl: "?a + length rem' = off + 300" using arg_cong [OF p, of length] Suc.prems(1) len by (simp add: buf)
    have "drop ?a c = drop (length p) (drop a c)" by (simp add: add.commute)
    then have rest: "drop ?a c = rem' @ drop (off + 300) c" unfolding whole p by simp
    have next_prems: "?a + length rem' = off + 300" "off + 300 \<le> length c" "take (off + 300 - ?a) (drop ?a c) = rem'"
      "(length c - (off + 300)) div 300 < k"
      using pl False Suc.prems(4) rest by (auto simp: le_div_geq)
    have step: "log_loop (Suc k) D path start len m rem (int off) sent s =
      (if length ls > 0 then if m + length ls > 5000 then (Ret (sent @ [?msg]), s\<lparr>world := w\<rparr>)
         else log_loop k D path start len (m + length ls) rem' (int (off + 300)) (sent @ [?msg]) (s\<lparr>world := w\<rparr>)
       else log_loop k D path start len m rem' (int (off + 300)) sent (s\<lparr>world := w\<rparr>))"
      using log_loop_step [OF rd sp [unfolded buf_def] refl, of k start len m sent] False len by simp
    have nxt: "nat (int off + 300 - int (length rem')) = ?a" using pl by simp
    show ?thesis
    proof (cases "length ls > 0 \<and> m + length ls > 5000")
      case True
      then show ?thesis unfolding step using nxt more(1) rest pl next_prems(2)
        by (intro exI [of _ "[?msg]"] exI [of _ "s\<lparr>world := w\<rparr>"]) (simp add: shown_def)
    next
      case stay: False
      show ?thesis
      proof (cases "length ls > 0")
        case True
        with stay Suc.IH [OF next_prems, of "m + length ls" "sent @ [?msg]" "s\<lparr>world := w\<rparr>"]
        obtain msgs t where "log_loop k D path start len (m + length ls) rem' (int (off + 300)) (sent @ [?msg]) (s\<lparr>world := w\<rparr>) =
            (Ret ((sent @ [?msg]) @ msgs), t)" "msgs \<noteq> []" "list_all lg_DidSucceed msgs"
          "0 \<le> NextOffset (last msgs)" "NextOffset (last msgs) \<le> int (length c)"
          "NextOffset (last msgs) = int (length c) \<or> 5000 < m + length ls + length (concat (map LogLines msgs))"
          "shown msgs @ log_lines (drop (nat (NextOffset (last msgs))) c) = log_lines (drop ?a c)" by blast
        with True stay more(1) rest show ?thesis unfolding step
          by (intro exI [of _ "?msg # msgs"] exI [of _ t]) (auto simp: shown_Cons)
      next
        case False
        then have "log_lines (drop ?a c) = log_lines (drop a c)" using more(1) rest by (simp add: nonblank_def)
        with False Suc.IH [OF next_prems, of m sent "s\<lparr>world := w\<rparr>"] show ?thesis unfolding step by simp
      qed
    qed
  qed
qed simp

text \<open>
  C37. The log arrives. Streaming a log file that does not change and holds no NUL byte ends, only with
  success messages, and their lines, NUL padding and blank lines aside, are the lines of the file from
  the requested offset (from the beginning when the file has become shorter) up to the offset the last
  message tells the client to go on from; that is the end of the file, unless more than 5000 lines were
  sent.
\<close>

theorem log_stream:
  assumes "static_log D path c" "nul \<notin> set c" "length c div 300 < Attempts (dS D)" "0 \<le> k"
  shows "\<exists>msgs t next. readFileIntoLines D k path s = (Ret msgs, t) \<and> msgs \<noteq> [] \<and> list_all lg_DidSucceed msgs \<and>
    NextOffset (last msgs) = int next \<and> next \<le> length c \<and>
    (next = length c \<or> 5000 < length (concat (map LogLines msgs))) \<and>
    shown msgs @ log_lines (drop next c) = log_lines (drop (if k \<le> int (length c) then nat k else 0) c)"
proof -
  obtain fi w1 where st: "sysM (Lstat (dS D) path) s = (Ret (Inr fi), s\<lparr>world := w1\<rparr>)" "fi_size fi = int (length c)"
    using assms(1) unfolding static_log_def sysM_def by (metis (mono_tags, lifting) prod.case prod.collapse)
  obtain r w2 where o: "OpenFile (dS D) path w1 = (r, w2)" by fastforce
  then obtain f where "r = Inr f" using assms(1) unfolding static_log_def by (metis fst_conv)
  with o have op: "sysM (OpenFile (dS D) path) (s\<lparr>world := w1\<rparr>) = (Ret (Inr f), s\<lparr>world := w2\<rparr>)"
    by (simp add: sysM_def)
  note stat = tryM_run(1) [where m = "sysM (Lstat (dS D) path)", OF st(1)]
  note opened = tryM_run(1) [where m = "sysM (OpenFile (dS D) path)", OF op]
  let ?k = "if k \<le> int (length c) then nat k else 0"
  show ?thesis
  proof (cases "int (length c) = k")
    case True
    then show ?thesis
      by (intro exI [of _ "[\<lparr>lg_DidSucceed = True, lg_ErrMsg = [], LogLines = [], NextOffset = k, lg_PercentDone = Pct 100\<rparr>]"]
          exI [of _ "s\<lparr>world := w1\<rparr>"] exI [of _ "length c"])
        (simp add: readFileIntoLines_def stat st(2) Let_def shown_def nonblank_def)
  next
    case False
    obtain j where j: "j = ?k" by blast
    have jl: "j \<le> length c" using j by (simp add: nat_le_iff)
    have run: "readFileIntoLines D k path s = log_loop (Attempts (dS D)) D path (int j) (int (length c)) 0 [] (int j) [] (s\<lparr>world := w2\<rparr>)"
      using False assms(4) by (simp add: readFileIntoLines_def stat st(2) opened Let_def j)
    have "(length c - j) div 300 < Attempts (dS D)"
      using assms(3) div_le_mono [of "length c - j" "length c" 300] by simp
    then obtain msgs t where "readFileIntoLines D k path s = (Ret msgs, t)" "msgs \<noteq> []" "list_all lg_DidSucceed msgs"
      "0 \<le> NextOffset (last msgs)" "NextOffset (last msgs) \<le> int (length c)"
      "NextOffset (last msgs) = int (length c) \<or> 5000 < length (concat (map LogLines msgs))"
      "shown msgs @ log_lines (drop (nat (NextOffset (last msgs))) c) = log_lines (drop j c)"
      using log_loop_stream [OF assms(1,2), of j "[]" j "Attempts (dS D)" "int j" "int (length c)" 0 "[]" "s\<lparr>world := w2\<rparr>"] jl
      unfolding run by auto
    then show ?thesis unfolding j [symmetric]
      by (intro exI [of _ msgs] exI [of _ t] exI [of _ "nat (NextOffset (last msgs))"]) auto
  qed
qed

text \<open>
  A last line that has no end of line yet is sent with the unused part of the buffer, as NUL bytes.
\<close>

lemma log_nul_padding:
  assumes "CHR 0x0A \<notin> set l" "c \<in> set l" "c \<noteq> nul"
  shows "splitToLines (l @ replicate m nul) True = ([l @ replicate m nul], [])"
proof -
  have "CHR 0x0A \<notin> set (l @ replicate m nul)" using assms(1) by auto
  from SplitChar_no_sep [OF this] have "SplitChar (CHR 0x0A) (l @ replicate m nul) = [l @ replicate m nul]" .
  moreover have "\<not> allZeros (l @ replicate m nul)" using assms(2,3) by (auto simp: allZeros_def list_all_iff)
  ultimately show ?thesis using assms(2) by (auto simp: splitToLines_def)
qed

end
