(* ===== verification/Witness_Daemon.thy ===== *)
theory Witness_Daemon
  imports Witness_Gc Daemon_Steps Daemon_Cancel Daemon_View_Props
begin

section \<open>The daemon at concrete inputs\<close>

text \<open>
  The properties of the daemon applied in the in-memory environment: two calls of \<^verbatim>\<open>CheckConn\<close>, a canceled
  backup, an index that cannot be written because the database is locked, and a log file.
\<close>

definition mem_denv :: "mw denv" where
  "mem_denv = \<lparr>dS = mem_sys, dConn = (\<lambda>c. Inr mem_sys), dC = mem_clib, dJ = mem_jidx, dG = mem_gob, dM = mem_jmeta,
     dViper = (\<lambda>p w. (Inl ErrConfigFileNotFound, w)), dReadAt = (\<lambda>p n k w. (Inl ErrNotExist, w)),
     dFormatTime = show_int, dFormatNumber = show_int, dFormatFloat = (\<lambda>f n d. show_int n)\<rparr>"

subsection \<open>Calls\<close>

definition some_check :: CheckConnRequest where
  "some_check = \<lparr>cc_conn = \<lparr>oc_endpoint = ''e'', oc_accessKey = ''a'', oc_secretKey = ''s'', oc_trust = False\<rparr>, cc_BucketName = ''b''\<rparr>"

theorem check_conn_exclusive_witness:
  "\<exists>t. dsteps mem_denv (daemon_start mw0 ready_db ready_db, map CheckCall [some_check, some_check])
       (t, [Probing some_check, CheckRefused]) \<and>
     card (probes [Probing some_check, CheckRefused]) \<le> 1 \<and>
     st_state (gStatus t) = (if probes [Probing some_check, CheckRefused] = {} then Idle else CheckingConn)"
proof -
  let ?s = "daemon_start mw0 ready_db ready_db"
  let ?t = "?s\<lparr>gStatus := (gStatus ?s)\<lparr>st_state := CheckingConn, st_msg := []\<rparr>\<rparr>"
  have idle: "st_state (gStatus ?s) = Idle" by (simp add: daemon_start_def initialStatus_def)
  have "dstep mem_denv (?s, [CheckCall some_check, CheckCall some_check]) (?t, [Probing some_check, CheckCall some_check])"
    using check_claim [of 0 "[CheckCall some_check, CheckCall some_check]" some_check ?s False ?t mem_denv] idle
    by (simp add: CheckConn_claim_def)
  moreover have "dstep mem_denv (?t, [Probing some_check, CheckCall some_check]) (?t, [Probing some_check, CheckRefused])"
    using check_claim [of 1 "[Probing some_check, CheckCall some_check]" some_check ?t True ?t mem_denv]
    by (simp add: CheckConn_claim_def)
  ultimately have "dsteps mem_denv (?s, map CheckCall [some_check, some_check]) (?t, [Probing some_check, CheckRefused])"
    by (simp add: converse_rtranclp_into_rtranclp)
  with check_conn_exclusive [OF this idle] show ?thesis by blast
qed

theorem backup_race_witness:
  "\<exists>t. dsteps mem_denv (daemon_start mw0 ready_db ready_db, [BackupCall False, BackupCall False])
       (t, [BackupAnswered True [], BackupAnswered True []]) \<and> goroutines t = [BackupJob, BackupJob]"
  using backup_race [of "daemon_start mw0 ready_db ready_db" mem_denv] by (simp add: daemon_start_def initialStatus_def)

subsection \<open>Canceling\<close>

definition cancel_state :: "mw dmn" where
  "cancel_state = (daemon_start mw0 sample_journal ready_db)\<lparr>gDbOpen := True, gCancelRequested := True\<rparr>"

theorem cancel_undone_witness:
  "\<exists>u. deferM (play_loop (Suc 0) mem_benv (backupCallbacks mem_denv mem_sys ''b'' mem_key) None ''/d'' ''snap'' ''high'' 0)
      (persistMemDbToFile mem_benv True True) cancel_state = (Ret True, u) \<and>
    backup_journal (fdb u) = backup_journal sample_journal"
proof -
  let ?m = "deferM (play_loop (Suc 0) mem_benv (backupCallbacks mem_denv mem_sys ''b'' mem_key) None ''/d'' ''snap'' ''high'' 0)
      (persistMemDbToFile mem_benv True True)"
  let ?s = "cancel_state\<lparr>gStatus := (gStatus cancel_state)\<lparr>st_state := CleaningUp, st_msg := ''Canceling...'', st_percentage := Pct 0\<rparr>\<rparr>"
  let ?del = "DeleteSnapshots mem_sys mem_clib mem_jidx mem_key [\<lparr>sd_BackupDirName = Base ''/d'', sd_SnapshotName = ''snap''\<rparr>] ''b'' False"
  have s: "gCancelRequested cancel_state" "gDbOpen cancel_state" "db_ready (fdb cancel_state)" "sdb cancel_state = sample_journal"
    using ready_db_ok(1) by (simp_all add: cancel_state_def daemon_start_def)
  have "returns ?del ?s (\<lambda>r _. right (\<lambda>_. True) r)" by code_simp
  then obtain w where "?del ?s = (Ret (Inr ()), w)" by (elim returnsE rightE) auto
  then obtain t where c: "cancelBackup mem_denv mem_sys mem_key ''b'' ''/d'' ''snap'' cancel_state = (Ret (), t)"
    using cancelBackup_returns [of mem_sys mem_denv mem_key "''/d''" "''snap''" "''b''" cancel_state w] s(2,3)
    by (auto simp: mem_denv_def)
  have loop: "play_loop (Suc 0) mem_benv (backupCallbacks mem_denv mem_sys ''b'' mem_key) None ''/d'' ''snap'' ''high'' 0 cancel_state =
      (Ret True, t\<lparr>gCancelRequested := False\<rparr>)"
    using play_loop_cancel [of "''high''" mem_benv cancel_state cancel_state mem_denv mem_sys mem_key "''b''" "''/d''" "''snap''" "Ret ()" t] s(1) c
    by (simp del: play_loop.simps)
  have "db_ready (fdb t)" using cancelBackup_effect [OF c s(2,3)] by simp
  then obtain u where "persistMemDbToFile mem_benv True True (t\<lparr>gCancelRequested := False\<rparr>) = (Ret (), u)"
    using persist_forced [of "t\<lparr>gCancelRequested := False\<rparr>" mem_benv] by auto
  with loop have run: "?m cancel_state = (Ret True, u)" by (simp add: deferM_def bindM_Ret del: play_loop.simps)
  with cancel_undone [OF run s(1-3)] s(4) sample_journal_ok(1) show ?thesis by auto
qed

subsection \<open>An index that cannot be written\<close>

text \<open>The database is locked when the daemon's backup reads the entries of the index.\<close>

definition locked_state :: "mw dmn" where
  "locked_state = daemon_start mw0 (indexed_db\<lparr>db_faults := [Some (GoErr ''database is locked'')]\<rparr>) ready_db"

theorem index_failure_wipes_journal_witness:
  "\<exists>t. writeIndexFileAndWipeJournal mem_benv (backupCallbacks mem_denv mem_sys ''b'' mem_key) ''/d'' ''s'' locked_state = (Ret (), t) \<and>
     backup_journal (sdb locked_state) \<noteq> [] \<and> backup_journal (sdb t) = [] \<and>
     fst (HasDirtyBackupJournal (sdb t)) = Ret (Inr False)"
proof -
  let ?cb = "backupCallbacks mem_denv mem_sys ''b'' mem_key"
  obtain r1 r2 where e: "EncryptFilename mem_clib mem_key ''d'' = Inr (''BwcH'' @ r1)"
    "EncryptFilename mem_clib mem_key ''s'' = Inr (''BwcH'' @ r2)"
    using mem_filename [of "''d''"] mem_filename [of "''s''"] by auto
  have base: "Base ''/d'' = ''d''" by code_simp
  let ?s0 = "locked_state\<lparr>gStatus := (gStatus locked_state)\<lparr>st_percentage :=
      PctOf (finishedCountJournal locked_state) (totalCntJournal locked_state)\<rparr>\<rparr>"
  have p: "progressUpdate ?cb locked_state = (Ret (), ?s0)"
    by (simp add: progressUpdate_def backupCallbacks_def backupProgress_def statusM_def)
  let ?s1 = "?s0\<lparr>sdb := indexed_db\<rparr>"
  have "indexed_db\<lparr>db_faults := []\<rparr> = indexed_db" by (simp add: indexed_db_def sample_journal_def empty_db_def)
  then have "\<exists>err. WriteIndexFile mem_sys mem_clib mem_jidx ''b'' mem_key (Base ''/d'') ''s'' ?s0 = (Ret (Inl err), ?s1)"
    by (simp add: WriteIndexFile_def e base Let_def tryM_def bindM_def dbM_def zoomM_def GetAllBackupJournalRowIndexEntries_def
      stmtM_def sqlM_def locked_state_def daemon_start_def)
  then obtain err where w: "WriteIndexFile (eS mem_benv) (eC mem_benv) (eJ mem_benv) (eBucket mem_benv) (eKey mem_benv) (Base ''/d'') ''s'' ?s0
      = (Ret (Inl err), ?s1)" by auto
  have "db_ready (sdb ?s1)" by (simp add: indexed_db_def sample_journal_def empty_db_def db_ready_def del: db_readyD)
  moreover have "backup_journal (sdb locked_state) \<noteq> []" by (simp add: locked_state_def daemon_start_def indexed_db_def)
  ultimately show ?thesis using index_failure_wipes_journal [OF p w] by blast
qed

subsection \<open>Streaming a log\<close>

definition log_denv :: "string \<Rightarrow> mw denv" where
  "log_denv c = mem_denv\<lparr>dS := mem_sys\<lparr>Lstat := (\<lambda>p w. (Inr (plain_info 420 (int (length c))), w)),
       OpenFile := (\<lambda>p w. (Inr \<lparr>gf_size = Inr (int (length c)), gf_reads = (\<lambda>n. [])\<rparr>, w))\<rparr>,
     dReadAt := (\<lambda>p n k w. (Inr (take k (drop (nat n) c), length c < nat n + k), w))\<rparr>"

theorem log_stream_witness:
  "\<exists>msgs t next. readFileIntoLines (log_denv (''one'' @ nl @ ''two'' @ nl)) 0 ''/l'' (daemon_start mw0 ready_db ready_db) = (Ret msgs, t) \<and>
    shown msgs @ log_lines (drop next (''one'' @ nl @ ''two'' @ nl)) = [''one'', ''two'']"
proof -
  let ?c = "''one'' @ nl @ ''two'' @ nl"
  have "static_log (log_denv ?c) ''/l'' ?c" by (simp add: static_log_def log_denv_def plain_info_def)
  moreover have "length ?c div 300 < Attempts (dS (log_denv ?c))" by (simp add: log_denv_def mem_sys_def)
  moreover have "log_lines ?c = [''one'', ''two'']" by code_simp
  ultimately show ?thesis
    using log_stream [of "log_denv ?c" "''/l''" ?c 0 "daemon_start mw0 ready_db ready_db"] by auto
qed

end
