(* ===== verification/Cli.thy ===== *)
theory Cli
  imports Frontend Prune
begin

section \<open>The command line (cmd)\<close>

text \<open>
  The package \<^verbatim>\<open>cmd\<close>: the configuration of a run, the accounting, and the commands. Its variables, the
  flags and the keys, are the fields the record \<open>cli\<close> adds to the state. What a command prints with
  \<^verbatim>\<open>fmt.Print\<close> is the list \<open>stdout\<close>; log lines are left out, and so are the progress bars that are only
  drawn and the tenth of a second they are given for it, and the line that names the configuration file. The bar of a backup is kept, because it is a
  pointer that is nil until it is made. \<^verbatim>\<open>os.Exit(1)\<close> and \<^verbatim>\<open>log.Fatal\<close> are \<open>Fatal\<close>. Parsing the command
  line is done by the package cobra, reading the configuration file by viper.
\<close>

subsection \<open>State\<close>

record flags =
  cfgEndpoint :: string
  cfgAccessKeyId :: string
  cfgSecretAccessKey :: string
  cfgBucket :: string
  cfgTrustSelfSignedCerts :: bool
  cfgMasterPassword :: string
  cfgSalt :: string
  cfgVerbose :: bool
  cfgForce :: bool
  cfgCachesPath :: string
  cfgMaxChunkCacheMb :: int
  cfgResourceUtilization :: string
  cfgDirs :: "string list"
  cfgExcludePaths :: "string list option"     \<comment> \<open>None: nil\<close>
  cfgResumeBackup :: bool
  cfgPartialRestore :: string
  cloudlsCfgShowChunks :: bool
  cloudlsCfgSnapshot :: string
  cloudlsCfgGreppableSnapshots :: bool
  cloudrmCfgSnapshot :: "string list"

text \<open>What the flags are when the command line does not give them.\<close>

definition defaultFlags :: flags where
  "defaultFlags = \<lparr>cfgEndpoint = [], cfgAccessKeyId = [], cfgSecretAccessKey = [], cfgBucket = [],
     cfgTrustSelfSignedCerts = False, cfgMasterPassword = [], cfgSalt = [], cfgVerbose = False, cfgForce = False,
     cfgCachesPath = [], cfgMaxChunkCacheMb = 0, cfgResourceUtilization = [], cfgDirs = [], cfgExcludePaths = None,
     cfgResumeBackup = True, cfgPartialRestore = [], cloudlsCfgShowChunks = False, cloudlsCfgSnapshot = [],
     cloudlsCfgGreppableSnapshots = False, cloudrmCfgSnapshot = []\<rparr>"

record 'w cli = "'w pst" +
  viperCfg :: CfgSettings                    \<comment> \<open>the configuration file as viper read it\<close>
  flg :: flags
  encKey :: bytes
  hmacKey :: bytes
  progressBar :: "(int \<times> int) option"       \<comment> \<open>current and total\<close>
  stdout :: "string list"

record 'w cenv =
  cS :: "'w sys"
  cConn :: "objconn \<Rightarrow> goerr + 'w sys"
  cC :: clib
  cJ :: jidx
  cG :: gob
  cM :: jmeta
  cViper :: "('w, CfgSettings) op"              \<comment> \<open>\<^verbatim>\<open>viper.ReadInConfig\<close>; what the file leaves out is empty\<close>
  cScanln :: "('w, string) op"                  \<comment> \<open>a word from the terminal\<close>
  cHome :: "goerr + string"                     \<comment> \<open>\<^verbatim>\<open>os.UserHomeDir\<close>\<close>
  cWriteFile :: "string \<Rightarrow> bytes \<Rightarrow> 32 word \<Rightarrow> ('w, unit) op"    \<comment> \<open>\<^verbatim>\<open>os.WriteFile\<close>\<close>

definition printM :: "string \<Rightarrow> (('w, 'z) cli_scheme, unit) prog" where
  "printM line = modifyM (\<lambda>s. s\<lparr>stdout := stdout s @ [line]\<rparr>)"

definition flgM :: "(flags \<Rightarrow> 'a) \<Rightarrow> (('w, 'z) cli_scheme, 'a) prog" where
  "flgM f = getM (\<lambda>s. f (flg s))"

definition setFlg :: "(flags \<Rightarrow> flags) \<Rightarrow> (('w, 'z) cli_scheme, unit) prog" where
  "setFlg f = modifyM (\<lambda>s. s\<lparr>flg := f (flg s)\<rparr>)"

definition quoted :: "string \<Rightarrow> string" where
  "quoted s = [CHR 0x27] @ s @ [CHR 0x27]"

definition err_text :: "goerr option \<Rightarrow> string" where
  "err_text err = (case err of None \<Rightarrow> ''<nil>'' | Some e \<Rightarrow> error_text e)"

text \<open>Every command makes its own connection from the flags; it needs the bucket, too.\<close>

definition flags_conn :: "flags \<Rightarrow> objconn" where
  "flags_conn f = \<lparr>oc_endpoint = cfgEndpoint f, oc_accessKey = cfgAccessKeyId f,
     oc_secretKey = cfgSecretAccessKey f, oc_trust = cfgTrustSelfSignedCerts f\<rparr>"

definition dialStore :: "'w cenv \<Rightarrow> (('w, 'z) cli_scheme, 'w sys \<times> string \<times> bytes) prog" where
  "dialStore E = bindM (flgM flags_conn) (\<lambda>c. bindM (NewObjStore (cConn E) c) (\<lambda>S.
     bindM (getM (\<lambda>s. (cfgBucket (flg s), encKey s))) (\<lambda>(bucket, key). retM (S, bucket, key))))"

subsection \<open>Configuration (cmd.go)\<close>

definition writeTemplateConfigToPath :: "'w cenv \<Rightarrow> string \<Rightarrow> (('w, 'z) cli_scheme, unit) prog" where
  "writeTemplateConfigToPath E configFilePath =
     bindM (GenerateConfigTemplate (cS E) None) (\<lambda>template.
     tryM (sysM (cWriteFile E configFilePath (bytes_of_string template) 384))
       (\<lambda>e. printM (''Unable to write template file:  '' @ error_text e @ nl)) (\<lambda>_. retM ()))"

text \<open>An unknown home directory is only logged, and the file goes below the current directory.\<close>

definition makeTemplateConfigFile :: "'w cenv \<Rightarrow> (('w, 'z) cli_scheme, unit) prog" where
  "makeTemplateConfigFile E =
     bindM (printM (''No config file was found in $HOME/.tless/config.toml or the current '' @ nl @
       ''directory. '' @ nl @ nl @ ''A template config file will be written for you, but you must fill in its values'' @ nl @
       ''for the program to work.'' @ nl @ nl)) (\<lambda>_.
     let userHomeDir = (case cHome E of Inl _ \<Rightarrow> [] | Inr h \<Rightarrow> h);
       appCfgDir = Join [userHomeDir, ''.tless''];
       configFilePath = Join [appCfgDir, ''config.toml''] in
     bindM (sysM (Mkdir (cS E) appCfgDir 448)) (\<lambda>_.
     bindM (writeTemplateConfigToPath E configFilePath) (\<lambda>_.
     printM (''Fill in config template at: '' @ configFilePath @ nl))))"

definition promptFor :: "'w cenv \<Rightarrow> string \<Rightarrow> (('w, 'z) cli_scheme, string) prog" where
  "promptFor E question = bindM (printM (question @ nl)) (\<lambda>_. bindM (sysM (cScanln E)) (\<lambda>r.
     retM (case r of Inl _ \<Rightarrow> [] | Inr answer \<Rightarrow> answer)))"

definition promptForMasterPassword :: "'w cenv \<Rightarrow> (('w, 'z) cli_scheme, string) prog" where
  "promptForMasterPassword E = promptFor E ''Enter your master password: ''"

definition promptForSecretKeyId :: "'w cenv \<Rightarrow> (('w, 'z) cli_scheme, string) prog" where
  "promptForSecretKeyId E = promptFor E ''Enter your cloud Secret Key Id: ''"

text \<open>A setting is taken from its flag, then from the file, and two of them then from the terminal.\<close>

definition fallback :: "string \<Rightarrow> string \<Rightarrow> string" where
  "fallback flagValue fileValue = (if flagValue = [] then fileValue else flagValue)"

definition promptIfBlank :: "(('w, 'z) cli_scheme, string) prog \<Rightarrow> (flags \<Rightarrow> string) \<Rightarrow> (string \<Rightarrow> flags \<Rightarrow> flags)
    \<Rightarrow> (('w, 'z) cli_scheme, unit) prog" where
  "promptIfBlank prompt sel upd = bindM (flgM sel) (\<lambda>v. if v = [] then bindM prompt (\<lambda>a. setFlg (upd a)) else retM ())"

definition configFallback :: "'w cenv \<Rightarrow> CfgSettings \<Rightarrow> (('w, 'z) cli_scheme, unit) prog" where
  "configFallback E v =
     bindM (setFlg (\<lambda>f. f\<lparr>cfgEndpoint := fallback (cfgEndpoint f) (Endpoint v),
       cfgAccessKeyId := fallback (cfgAccessKeyId f) (AccessKeyId v),
       cfgSecretAccessKey := fallback (cfgSecretAccessKey f) (SecretAccessKey v)\<rparr>)) (\<lambda>_.
     bindM (promptIfBlank (promptForSecretKeyId E) cfgSecretAccessKey (\<lambda>a f. f\<lparr>cfgSecretAccessKey := a\<rparr>)) (\<lambda>_.
     bindM (setFlg (\<lambda>f. f\<lparr>cfgBucket := fallback (cfgBucket f) (Bucket v),
       cfgTrustSelfSignedCerts := (cfgTrustSelfSignedCerts f \<or> TrustSelfSignedCerts v),
       cfgMasterPassword := fallback (cfgMasterPassword f) (MasterPassword v)\<rparr>)) (\<lambda>_.
     bindM (promptIfBlank (promptForMasterPassword E) cfgMasterPassword (\<lambda>a f. f\<lparr>cfgMasterPassword := a\<rparr>)) (\<lambda>_.
     setFlg (\<lambda>f. f\<lparr>cfgDirs := (if cfgDirs f = [] then Dirs v else cfgDirs f),
       cfgCachesPath := fallback (cfgCachesPath f) (CachesPath v),
       cfgMaxChunkCacheMb := (if cfgMaxChunkCacheMb f \<le> 0 then MaxChunkCacheMb v else cfgMaxChunkCacheMb f),
       cfgResourceUtilization := fallback (fallback (cfgResourceUtilization f) (ResourceUtilization v)) ''high''\<rparr>)))))"

text \<open>
  The settings are checked, the store must answer, and the keys are fetched. When they cannot be read
  they are nil and the salt is empty.
\<close>

definition invalid :: "string \<Rightarrow> string \<Rightarrow> goerr" where
  "invalid what val = GoErr (what @ '' invalid (value='' @ quoted val @ '')'')"

definition blank_setting :: "flags \<Rightarrow> goerr option" where
  "blank_setting f =
     (if cfgEndpoint f = [] then Some (invalid ''endpoint'' (cfgEndpoint f))
      else if cfgAccessKeyId f = [] then Some (invalid ''access key id'' (cfgAccessKeyId f))
      else if cfgSecretAccessKey f = [] then Some (invalid ''secret key'' (cfgSecretAccessKey f))
      else if cfgBucket f = [] then Some (invalid ''bucket name'' (cfgBucket f))
      else if cfgMasterPassword f = [] then Some (invalid ''master password'' (cfgMasterPassword f))
      else None)"

definition fetch_keys :: "'w cenv \<Rightarrow> 'w sys \<Rightarrow> string \<Rightarrow> (('w, 'z) cli_scheme, goerr + unit) prog" where
  "fetch_keys E S bucket =
     bindM (flgM cfgMasterPassword) (\<lambda>masterPassword.
     bindM (GetOrCreateBucketMetadata S (cC E) (cM E) bucket masterPassword) (\<lambda>r.
     let (salt, bucketVersion, k, h) = (case r of Inl _ \<Rightarrow> ([], 0, [], []) | Inr x \<Rightarrow> x) in
     bindM (modifyM (\<lambda>s. s\<lparr>encKey := k, hmacKey := h, flg := (flg s)\<lparr>cfgSalt := salt\<rparr>\<rparr>)) (\<lambda>_.
     if salt = [] then retM (Inl (GoErr (''invalid salt (value='' @ quoted salt @ '')'')))
     else if \<not> IntSliceContains SupportedBucketVersions bucketVersion
     then retM (Inl (GoErr (''error: bucket version '' @ show_int bucketVersion @
       '' is not supported by this version of the program'')))
     else tryM (VerifyKeys S (cC E) (cM E) bucket masterPassword k h) (\<lambda>e. liftGo Fatal) (\<lambda>_. retM (Inr ())))))"

definition validateConfigVars :: "'w cenv \<Rightarrow> (('w, 'z) cli_scheme, goerr + unit) prog" where
  "validateConfigVars E =
     bindM (flgM blank_setting) (\<lambda>blank. case blank of Some e \<Rightarrow> retM (Inl e) | None \<Rightarrow>
     bindM (dialStore E) (\<lambda>(S, bucket, _).
     bindM (IsReachable S bucket) (\<lambda>(ok, _).
     if \<not> ok then liftGo Fatal else fetch_keys E S bucket)))"

definition initConfig :: "'w cenv \<Rightarrow> (('w, 'z) cli_scheme, unit) prog" where
  "initConfig E =
     tryM (sysM (cViper E))
       (\<lambda>e. if e = ErrConfigFileNotFound then bindM (makeTemplateConfigFile E) (\<lambda>_. liftGo Fatal) else liftGo Fatal) (\<lambda>v.
     bindM (modifyM (\<lambda>s. s\<lparr>viperCfg := v\<rparr>)) (\<lambda>_.
     bindM (configFallback E v) (\<lambda>_.
     tryM (validateConfigVars E) (\<lambda>e. bindM (flgM cfgForce) (\<lambda>force. if force then retM () else liftGo Fatal))
       (\<lambda>_. retM ()))))"

subsection \<open>The database (cmd.go)\<close>

definition openDb :: "'w cenv \<Rightarrow> (('w, 'z) cli_scheme, unit) prog" where
  "openDb E =
     tryM (MkdirUserConfig (cS E) [] []) (\<lambda>e. liftGo Fatal) (\<lambda>sqliteDir.
     tryM (zoomM fdb (\<lambda>d s. s\<lparr>fdb := d\<rparr>) (sqlM [] (\<lambda>d. ((), d)))) (\<lambda>e. liftGo Fatal) (\<lambda>_. retM ()))"

text \<open>A handle is a pointer: a method called on nil panics when it reaches for the connection.\<close>

datatype handle = NilDb | OpenDb

definition hdlM :: "handle \<Rightarrow> (db, 'a) prog \<Rightarrow> (('w, 'z) est_scheme, 'a) prog" where
  "hdlM h m = (case h of NilDb \<Rightarrow> liftGo Panic | OpenDb \<Rightarrow> zoomM fdb (\<lambda>d s. s\<lparr>fdb := d\<rparr>) m)"

definition persist_space :: "'w cenv \<Rightarrow> 'w sys \<Rightarrow> string \<Rightarrow> handle \<Rightarrow> (('w, 'z) cli_scheme, unit) prog" where
  "persist_space E S bucket h =
     tryM (ComputeTotalCloudSpaceUsage S bucket) (\<lambda>e. retM ()) (\<lambda>cloudSizeUsageBytes.
     bindM (nowM (cS E)) (\<lambda>now.
     bindM (hdlM h (AddSpaceUsageReport (LocalDate (cS E)) (MonthsBack (cS E)) now now cloudSizeUsageBytes)) (\<lambda>_.
     retM ())))"

text \<open>\<^verbatim>\<open>PersistBandwidthUsage\<close> on a nil handle: the counters are taken, and used up if anything was counted.\<close>

definition nil_bandwidth :: "'w sys \<Rightarrow> (('w, 'z) gst_scheme, unit) prog" where
  "nil_bandwidth S =
     bindM (getM (\<lambda>s. uploadBytes s + downloadBytes s)) (\<lambda>n.
     bindM (modifyM (\<lambda>s. s\<lparr>uploadBytes := 0, downloadBytes := 0\<rparr>)) (\<lambda>_.
     if n > 0 then bindM (nowM S) (\<lambda>_. liftGo Panic) else retM ()))"

text \<open>
  When the parameter \<^verbatim>\<open>db\<close> is nil the database is opened, but into a new variable of the inner block:
  the parameter, which the rest of the function uses, stays nil.
\<close>

definition persistUsage :: "'w cenv \<Rightarrow> handle \<Rightarrow> bool \<Rightarrow> bool \<Rightarrow> (('w, 'z) cli_scheme, unit) prog" where
  "persistUsage E h doSpaceUsage doBandwidthUsage =
     bindM (dialStore E) (\<lambda>(S, bucket, _).
     bindM (case h of NilDb \<Rightarrow> openDb E | OpenDb \<Rightarrow> retM ()) (\<lambda>_.
     bindM (if doSpaceUsage then persist_space E S bucket h else retM ()) (\<lambda>_.
     if doBandwidthUsage
     then (case h of NilDb \<Rightarrow> nil_bandwidth S | OpenDb \<Rightarrow> bindM (onFile (PersistBandwidthUsage S)) (\<lambda>_. retM ()))
     else retM ())))"

subsection \<open>Backup (backup.go)\<close>

fun missing_dir :: "'w cenv \<Rightarrow> string list \<Rightarrow> (('w, 'z) gst_scheme, string option) prog" where
  "missing_dir E [] = retM None"
| "missing_dir E (dir # rest) = bindM (sysM (Stat (cS E) dir)) (\<lambda>r.
     if r = Inl ErrNotExist then retM (Some dir) else missing_dir E rest)"

definition validateDirs :: "'w cenv \<Rightarrow> (('w, 'z) cli_scheme, goerr + unit) prog" where
  "validateDirs E =
     bindM (flgM cfgDirs) (\<lambda>dirs.
     if dirs = [] then retM (Inl (invalid ''backup dirs'' ''[]''))
     else bindM (missing_dir E dirs) (\<lambda>m. retM (case m of
       Some dir \<Rightarrow> Inl (GoErr (''backup dir '' @ quoted dir @ '' does not exist)'')) | None \<Rightarrow> Inr ())))"

definition cliCallbacks :: "('w, 'z) cli_scheme callbacks" where
  "cliCallbacks =
     \<lparr>checkAndHandleTraversalCancelation = None,
      checkAndHandleCancelation = None,
      setInitialProgress = Some (\<lambda>finished tot backupDirName. bindM (flgM cfgVerbose) (\<lambda>v.
        if v then retM () else modifyM (\<lambda>s. s\<lparr>progressBar := Some (0, tot)\<rparr>))),
      updateProgress = Some (\<lambda>finished tot. bindM (flgM cfgVerbose) (\<lambda>v.
        if v then retM ()
        else bindM (getM progressBar) (\<lambda>b. case b of
            None \<Rightarrow> liftGo Panic
          | Some (_, n) \<Rightarrow> modifyM (\<lambda>s. s\<lparr>progressBar := Some (finished, n)\<rparr>))))\<rparr>"

definition cli_benv :: "'w cenv \<Rightarrow> 'w sys \<Rightarrow> string \<Rightarrow> bytes \<Rightarrow> 'w benv" where
  "cli_benv E S bucket key = \<lparr>eS = S, eC = cC E, eJ = cJ E, eG = cG E, eKey = key, eBucket = bucket\<rparr>"

text \<open>An interrupted backup is rolled back: its snapshot, or else its chunks, go, then its rows.\<close>

definition rollback :: "'w cenv \<Rightarrow> 'w sys \<Rightarrow> string \<Rightarrow> bytes \<Rightarrow> (('w, 'z) cli_scheme, unit) prog" where
  "rollback E S bucket key =
     tryM (hdlM OpenDb GetJournaledBackupInfo) (\<lambda>e. liftGo Fatal) (\<lambda>(backupDirPath, snapshotUnixTime).
     let snapshotName = snapshotNameOf snapshotUnixTime in
     bindM (tryM (DeleteSnapshots S (cC E) (cJ E) key
             [\<lparr>sd_BackupDirName = Base backupDirPath, sd_SnapshotName = snapshotName\<rparr>] bucket False)
         (\<lambda>e. bindM (GCChunks S (cC E) (cJ E) bucket key False) (\<lambda>_. retM ())) (\<lambda>_. retM ())) (\<lambda>_.
     tryM (hdlM OpenDb CancelationResetLastBackupTime) (\<lambda>e. liftGo Fatal) (\<lambda>_.
     tryM (hdlM OpenDb CancelationCleanupJournal) (\<lambda>e. liftGo Fatal) (\<lambda>_. retM ()))))"

definition handleReplay :: "'w cenv \<Rightarrow> 'w sys \<Rightarrow> string \<Rightarrow> bytes \<Rightarrow> (('w, 'z) cli_scheme, bool) prog" where
  "handleReplay E S bucket key =
     tryM (hdlM OpenDb HasDirtyBackupJournal) (\<lambda>e. retM False) (\<lambda>hasDirtyBackupJournal.
     if \<not> hasDirtyBackupJournal then retM False
     else bindM (flgM cfgResumeBackup) (\<lambda>resume.
       bindM (if resume
         then bindM (printM (''Resuming previous interrupted backup... (--resume-backup=false to roll back)'' @ nl)) (\<lambda>_.
           bindM (flgM cfgResourceUtilization) (\<lambda>resourceUtilization.
           bindM (ReplayBackupJournal (cli_benv E S bucket key) cliCallbacks resourceUtilization) (\<lambda>_. retM ())))
         else bindM (printM (''Rolling back previous interrupted backup...'' @ nl)) (\<lambda>_. rollback E S bucket key)) (\<lambda>_.
       retM True)))"

text \<open>The loop over the directories: whether it ends in the label \<^verbatim>\<open>done\<close> by a \<^verbatim>\<open>goto\<close>.\<close>

fun backup_each :: "'w cenv \<Rightarrow> 'w sys \<Rightarrow> string \<Rightarrow> bytes \<Rightarrow> string list \<Rightarrow> string list
    \<Rightarrow> (('w, 'z) cli_scheme, bool) prog" where
  "backup_each E S bucket key excludes [] = retM False"
| "backup_each E S bucket key excludes (backupDirPath # rest) =
     bindM (nowM (cS E)) (\<lambda>now.
     bindM (modifyM (\<lambda>s. s\<lparr>progressBar := None, stats := Some (NewBackupStats now)\<rparr>)) (\<lambda>_.
     bindM (flgM cfgResourceUtilization) (\<lambda>resourceUtilization.
     bindM (DoJournaledBackup (cli_benv E S bucket key) cliCallbacks backupDirPath excludes resourceUtilization) (\<lambda>r.
     if fatalError r then retM True
     else if continueLoop r then backup_each E S bucket key excludes rest
     else if breakFromLoop r then retM False
     else backup_each E S bucket key excludes rest))))"

definition backupMain :: "'w cenv \<Rightarrow> (('w, 'z) cli_scheme, unit) prog" where
  "backupMain E =
     tryM (validateDirs E) (\<lambda>e. liftGo Fatal) (\<lambda>_.
     bindM (getM viperCfg) (\<lambda>v.
     bindM (setFlg (\<lambda>f. f\<lparr>cfgExcludePaths := (case cfgExcludePaths f of None \<Rightarrow> Some (ExcludePaths v) | x \<Rightarrow> x)\<rparr>)) (\<lambda>_.
     bindM (openDb E) (\<lambda>_.
     tryM (hdlM OpenDb PerformDbMigrations) (\<lambda>e. liftGo Fatal) (\<lambda>_.
     bindM (dialStore E) (\<lambda>(S, bucket, key).
     bindM (IsReachable S bucket) (\<lambda>(ok, _).
     if \<not> ok then liftGo Fatal
     else bindM (handleReplay E S bucket key) (\<lambda>didResumeOrRollback.
       bindM (if didResumeOrRollback then retM ()
         else bindM (flgM (\<lambda>f. (cfgDirs f, case cfgExcludePaths f of None \<Rightarrow> [] | Some x \<Rightarrow> x))) (\<lambda>(dirs, excludes).
           bindM (backup_each E S bucket key excludes dirs) (\<lambda>jumped.
           bindM (flgM cfgVerbose) (\<lambda>verbose. if verbose \<and> \<not> jumped then printM (''done'' @ nl) else retM ())))) (\<lambda>_.
       persistUsage E OpenDb True True)))))))))"

subsection \<open>Restore (restore.go)\<close>

fun restore_each :: "'w renv \<Rightarrow> string \<Rightarrow> string \<Rightarrow> string \<Rightarrow> (string \<times> CloudRelPath) list \<Rightarrow> rcache
    \<Rightarrow> (('w, 'z) pst_scheme, rcache) prog" where
  "restore_each R restorePath backupName snapshotName [] cc = retM cc"
| "restore_each R restorePath backupName snapshotName ((relPath, crp) # rest) cc =
     bindM (withCache cc (RestoreDirEntry R restorePath crp backupName snapshotName relPath)) (\<lambda>(_, cc).
     restore_each R restorePath backupName snapshotName rest cc)"

definition fetch_snapshot :: "'w cenv \<Rightarrow> 'w sys \<Rightarrow> string \<Rightarrow> bytes \<Rightarrow> string \<Rightarrow> string
    \<Rightarrow> (('w, 'z) gst_scheme, Snapshot) prog" where
  "fetch_snapshot E S bucket key backupName snapshotName =
     (case EncryptFilename (cC E) key backupName of Inl e \<Rightarrow> liftGo Fatal | Inr encBackupName \<Rightarrow>
     (case EncryptFilename (cC E) key snapshotName of Inl e \<Rightarrow> liftGo Fatal | Inr encSnapshotName \<Rightarrow>
      tryM (GetSnapshotIndexFile S (cC E) bucket key (encBackupName @ ''/@'' @ encSnapshotName)) (\<lambda>e. liftGo Fatal)
        (\<lambda>ssIndexJson. case UnmarshalSnapshotObj (cJ E) ssIndexJson of
           Inl e \<Rightarrow> liftGo Fatal | Inr snapshotObj \<Rightarrow> retM snapshotObj)))"

definition restore_files :: "'w cenv \<Rightarrow> string \<Rightarrow> string \<Rightarrow> (('w, 'z) cli_scheme, unit) prog" where
  "restore_files E backupAndSnapshotName pathToRestoreInto =
     bindM (dialStore E) (\<lambda>(S, bucket, key).
     case SplitSnapshotName backupAndSnapshotName of Inl e \<Rightarrow> liftGo Fatal | Inr (backupName, snapshotName) \<Rightarrow>
     bindM (fetch_snapshot E S bucket key backupName snapshotName) (\<lambda>snapshotObj.
     bindM (flgM (\<lambda>f. (cfgPartialRestore f, cfgCachesPath f, cfgMaxChunkCacheMb f))) (\<lambda>(part, cachesPath, maxMb).
     let mRelPathsObjsMap = FilterRelPaths snapshotObj [] [part];
       R = \<lparr>rS = S, rC = cC E, rG = cG E, rKey = key, rBucket = bucket, r_uid = -1, r_gid = -1\<rparr> in
     bindM (withCache empty_cache (NewChunkCache R cachesPath maxMb)) (\<lambda>(_, cc).
     bindM (restore_each R pathToRestoreInto backupName snapshotName (sort_key fst mRelPathsObjsMap) cc) (\<lambda>cc.
     chmod_queue (cS E) (rc_queue cc))))))"

definition restoreMain :: "'w cenv \<Rightarrow> string \<Rightarrow> string \<Rightarrow> (('w, 'z) cli_scheme, unit) prog" where
  "restoreMain E backupAndSnapshotName pathToRestoreInto =
     bindM (restore_files E backupAndSnapshotName pathToRestoreInto) (\<lambda>_. persistUsage E NilDb False True)"

subsection \<open>Prune (prune.go)\<close>

definition month_names :: "string list" where
  "month_names = [''Jan'', ''Feb'', ''Mar'', ''Apr'', ''May'', ''Jun'', ''Jul'', ''Aug'', ''Sep'', ''Oct'', ''Nov'', ''Dec'']"

text \<open>\<^verbatim>\<open>Jan 2, 2006 at 3:04pm UTC\<close>, for a time from 1970 on.\<close>

definition prune_time :: "int \<Rightarrow> string" where
  "prune_time unixtime =
     (let t = nat unixtime; (y, m, d) = civil (t div 86400); h = t mod 86400 div 3600 in
      month_names ! (m - 1) @ '' '' @ show_nat d @ '', '' @ pad4 y @ '' at '' @
      show_nat (if h mod 12 = 0 then 12 else h mod 12) @ '':'' @ pad2 (t mod 3600 div 60) @
      (if h < 12 then ''am'' else ''pm'') @ '' UTC'')"

definition dry_line :: "SnapshotInfo list \<Rightarrow> SnapshotInfo \<Rightarrow> string" where
  "dry_line keeps ss = ''  '' @ (if ss \<in> set keeps then ''KEEP'' else ''DELE'') @ '': '' @ quoted (si_Name ss) @
     '' from '' @ prune_time (TimestampUnix ss) @ nl"

fun prune_each :: "'w cenv \<Rightarrow> 'w sys \<Rightarrow> string \<Rightarrow> bytes \<Rightarrow> string \<Rightarrow> bool \<Rightarrow> SnapshotInfo list \<Rightarrow> SnapshotInfo list
    \<Rightarrow> (('w, 'z) cli_scheme, unit) prog" where
  "prune_each E S bucket key backupName isDryRun keeps [] = retM ()"
| "prune_each E S bucket key backupName isDryRun keeps (ss # rest) =
     bindM (if isDryRun then printM (dry_line keeps ss)
       else if ss \<in> set keeps then printM (''  Keeping snapshot '' @ quoted (RawSnapshotName ss) @ nl)
       else bindM (printM (''  Deleting snapshot '' @ quoted (RawSnapshotName ss) @ nl)) (\<lambda>_.
         tryM (DeleteSnapshots S (cC E) (cJ E) key
             [\<lparr>sd_BackupDirName = backupName, sd_SnapshotName = si_Name ss\<rparr>] bucket False)
           (\<lambda>e. printM (''error: could not delete '' @ quoted (RawSnapshotName ss) @ '': '' @ error_text e @ nl))
           (\<lambda>_. retM ()))) (\<lambda>_.
     prune_each E S bucket key backupName isDryRun keeps rest)"

definition pruneMain :: "'w cenv \<Rightarrow> string \<Rightarrow> bool \<Rightarrow> (('w, 'z) cli_scheme, unit) prog" where
  "pruneMain E backupName isDryRun =
     bindM (persistUsage E NilDb True False) (\<lambda>_.
     bindM (dialStore E) (\<lambda>(S, bucket, key).
     tryM (GetAllSnapshotInfos S (cC E) key bucket) (\<lambda>e. printM (''error: prune:  '' @ error_text e @ nl)) (\<lambda>mSnapshots.
     bindM (if map_of mSnapshots backupName = None
       then printM (''error: backup name invalid '' @ quoted backupName @ nl) else retM ()) (\<lambda>_.
     bindM (printM (''Backup '' @ quoted backupName @ nl)) (\<lambda>_.
     let infos = (case map_of mSnapshots backupName of None \<Rightarrow> [] | Some infos \<Rightarrow> infos) in
     bindM (nowM (cS E)) (\<lambda>now.
     bindM (prune_each E S bucket key backupName isDryRun (GetPruneKeepsList now infos) infos) (\<lambda>_.
     persistUsage E NilDb True True)))))))"

subsection \<open>Listing (cloudls.go)\<close>

definition extent_line :: "string \<Rightarrow> ChunkExtent \<Rightarrow> string" where
  "extent_line pre e = pre @ ChunkName e @ '' (offset: '' @ show_int (ce_Offset e) @ '', len: '' @ show_int (ce_Len e) @ '')'' @ nl"

definition relpath_lines :: "bool \<Rightarrow> string \<times> CloudRelPath \<Rightarrow> string list" where
  "relpath_lines showChunks = (\<lambda>(relPath, crp). (''    '' @ relPath @ nl) #
     (if showChunks then map (extent_line ''      Chunk: '') (ChunkExtents crp) else []))"

definition snapshot_lines :: "flags \<Rightarrow> string \<Rightarrow> string \<times> Snapshot \<Rightarrow> string list" where
  "snapshot_lines f groupName = (\<lambda>(snapshotName, ss).
     if cloudlsCfgGreppableSnapshots f then [groupName @ ''/'' @ snapshotName @ nl]
     else (''  '' @ snapshotName @ nl) #
       (if cfgVerbose f \<or> cloudlsCfgShowChunks f
        then concat (map (relpath_lines (cloudlsCfgShowChunks f)) (sort_key fst (RelPaths ss))) else []))"

definition group_lines :: "flags \<Rightarrow> string \<times> BackupDir \<Rightarrow> string list" where
  "group_lines f = (\<lambda>(groupName, g).
     (if cloudlsCfgGreppableSnapshots f then [] else [''Backup '' @ quoted groupName @ '':'' @ nl]) @
     concat (map (snapshot_lines f groupName) (sort_key fst (Snapshots g))))"

definition cloudlsMain :: "'w cenv \<Rightarrow> (('w, 'z) cli_scheme, unit) prog" where
  "cloudlsMain E =
     bindM (dialStore E) (\<lambda>(S, bucket, key).
     tryM (GetGroupedSnapshots S (cC E) (cJ E) key bucket True) (\<lambda>e. liftGo Fatal) (\<lambda>groupedObjects.
     bindM (if groupedObjects = [] then printM (''No objects found in cloud'' @ nl) else retM ()) (\<lambda>_.
     bindM (flgM (\<lambda>f. concat (map (group_lines f) (sort_key fst groupedObjects)))) (\<lambda>lines.
     bindM (modifyM (\<lambda>s. s\<lparr>stdout := stdout s @ lines\<rparr>)) (\<lambda>_.
     persistUsage E NilDb True True)))))"

text \<open>An entry without extents ends the program. The order of the entries is that of a Go map.\<close>

fun show_entries :: "(string \<times> CloudRelPath) list \<Rightarrow> (('w, 'z) cli_scheme, unit) prog" where
  "show_entries [] = retM ()"
| "show_entries ((relPath, crp) # rest) =
     bindM (printM (nl @ ''FILE> '' @ relPath @ nl)) (\<lambda>_.
     bindM (case ChunkExtents crp of
         [] \<Rightarrow> liftGo Fatal
       | [e] \<Rightarrow> printM (extent_line ''  +- '' e)
       | es \<Rightarrow> modifyM (\<lambda>s. s\<lparr>stdout := stdout s @ map (extent_line ''  |- '') es\<rparr>)) (\<lambda>_. show_entries rest))"

definition cloudlsMainShowSnapshot :: "'w cenv \<Rightarrow> (('w, 'z) cli_scheme, unit) prog" where
  "cloudlsMainShowSnapshot E =
     bindM (dialStore E) (\<lambda>(S, bucket, key).
     bindM (flgM cloudlsCfgSnapshot) (\<lambda>raw.
     case SplitSnapshotName raw of Inl e \<Rightarrow> liftGo Fatal | Inr (backupName, snapshotName) \<Rightarrow>
     tryM (GetGroupedSnapshots S (cC E) (cJ E) key bucket False) (\<lambda>e. liftGo Fatal) (\<lambda>groupedObjects.
     bindM (show_entries (case map_of (Snapshots (backup_dir groupedObjects backupName)) snapshotName of
       None \<Rightarrow> [] | Some ss \<Rightarrow> RelPaths ss)) (\<lambda>_.
     persistUsage E NilDb True True))))"

subsection \<open>Deleting (cloudrm.go)\<close>

fun split_all :: "string list \<Rightarrow> SnapshotForDeletion list option" where
  "split_all [] = Some []"
| "split_all (raw # rest) = (case SplitSnapshotName raw of
       Inl e \<Rightarrow> None
     | Inr (b, n) \<Rightarrow> map_option (\<lambda>ds. \<lparr>sd_BackupDirName = b, sd_SnapshotName = n\<rparr> # ds) (split_all rest))"

definition cloudrmMain :: "'w cenv \<Rightarrow> (('w, 'z) cli_scheme, unit) prog" where
  "cloudrmMain E =
     bindM (persistUsage E NilDb True False) (\<lambda>_.
     bindM (dialStore E) (\<lambda>(S, bucket, key).
     bindM (flgM cloudrmCfgSnapshot) (\<lambda>raws.
     case split_all raws of None \<Rightarrow> liftGo Fatal | Some ssDeletes \<Rightarrow>
     bindM (modifyM (\<lambda>s. s\<lparr>stdout := stdout s @
       map (\<lambda>d. ''Deleting '' @ sd_BackupDirName d @ ''/'' @ sd_SnapshotName d @ nl) ssDeletes\<rparr>)) (\<lambda>_.
     tryM (DeleteSnapshots S (cC E) (cJ E) key ssDeletes bucket True) (\<lambda>e. liftGo Fatal) (\<lambda>_.
     persistUsage E NilDb True True)))))"

subsection \<open>Extras (extras.go)\<close>

definition checkConnMain :: "'w cenv \<Rightarrow> (('w, 'z) cli_scheme, unit) prog" where
  "checkConnMain E =
     bindM (dialStore E) (\<lambda>(S, bucket, _).
     bindM (IsReachable S bucket) (\<lambda>(ok, err).
     printM (if ok then ''connectivity check successful'' @ nl
       else ''connectivity check failed: are your settings correct in config.toml? error:  '' @ err_text err @ nl)))"

text \<open>A listing that fails is logged, and there is nothing to delete.\<close>

fun wipe_each :: "'w sys \<Rightarrow> string \<Rightarrow> string list \<Rightarrow> (('w, 'z) gst_scheme, unit) prog" where
  "wipe_each S bucket [] = retM ()"
| "wipe_each S bucket (objName # rest) = bindM (DeleteObj S bucket objName) (\<lambda>_. wipe_each S bucket rest)"

definition wipeCloudMain :: "'w cenv \<Rightarrow> (('w, 'z) cli_scheme, unit) prog" where
  "wipeCloudMain E =
     bindM (persistUsage E NilDb True False) (\<lambda>_.
     bindM (dialStore E) (\<lambda>(S, bucket, _).
     bindM (GetObjList S bucket [] True) (\<lambda>r.
     let allObjects = (case r of Inl _ \<Rightarrow> [] | Inr m \<Rightarrow> m) in
     bindM (wipe_each S bucket (map_keys allObjects)) (\<lambda>_.
     persistUsage E NilDb True True))))"

definition genTemplateMain :: "'w cenv \<Rightarrow> (('w, 'z) cli_scheme, unit) prog" where
  "genTemplateMain E = bindM (GenerateConfigTemplate (cS E) None) (\<lambda>template. printM (template @ nl))"

definition decObjNameMain :: "'w cenv \<Rightarrow> string \<Rightarrow> (('w, 'z) cli_scheme, unit) prog" where
  "decObjNameMain E encObjectName =
     (if Contains encObjectName ''/'' then printM ''malformed input: valid object names do not contain slash''
      else bindM (getM encKey) (\<lambda>key.
        tryM (liftGo (DecryptFilename (cC E) key (TrimPrefix encObjectName ''@'')))
          (\<lambda>e. printM (''error:  '' @ error_text e @ nl)) (\<lambda>decrypted. printM (''=> '' @ decrypted @ nl))))"

subsection \<open>The commands\<close>

text \<open>The commands as cobra hands them over, with their arguments; their flags are in the state.\<close>

datatype command =
    BackupCmd | RestoreCmd string string | PruneCmd string bool | CloudlsCmd | CloudrmCmd
  | CheckConnCmd | WipeCloudCmd | PrintTemplateCmd | DecObjNameCmd string

fun run_command :: "'w cenv \<Rightarrow> command \<Rightarrow> (('w, 'z) cli_scheme, unit) prog" where
  "run_command E BackupCmd = backupMain E"
| "run_command E (RestoreCmd snapshot path) = restoreMain E snapshot path"
| "run_command E (PruneCmd backupName isDryRun) = pruneMain E backupName isDryRun"
| "run_command E CloudlsCmd = bindM (flgM (\<lambda>f. cloudlsCfgGreppableSnapshots f \<or> cloudlsCfgSnapshot f = [])) (\<lambda>b.
     if b then cloudlsMain E else cloudlsMainShowSnapshot E)"
| "run_command E CloudrmCmd = bindM (flgM cloudrmCfgSnapshot) (\<lambda>raws.
     if raws \<noteq> [] then cloudrmMain E else liftGo Fatal)"
| "run_command E CheckConnCmd = checkConnMain E"
| "run_command E WipeCloudCmd = wipeCloudMain E"
| "run_command E PrintTemplateCmd = genTemplateMain E"
| "run_command E (DecObjNameCmd name) = decObjNameMain E name"

text \<open>The configuration is read before any command runs.\<close>

definition Execute :: "'w cenv \<Rightarrow> command \<Rightarrow> (('w, 'z) cli_scheme, unit) prog" where
  "Execute E c = bindM (initConfig E) (\<lambda>_. run_command E c)"

text \<open>\<^verbatim>\<open>main\<close> looks at the arguments itself before it leaves them to the package \<^verbatim>\<open>cmd\<close>.\<close>

datatype entry = ShowVersion | RunDaemon | RunCommand

definition go_main :: "string list \<Rightarrow> entry" where
  "go_main args =
     (if length args = 2 \<and> (args ! 1 = ''--version'' \<or> args ! 1 = ''version'') then ShowVersion
      else if length args = 2 \<and> (args ! 1 = ''daemon'' \<or> args ! 1 = ''-d'') then RunDaemon
      else RunCommand)"

end
