(* ===== verification/Cli_Props.thy ===== *)
theory Cli_Props
  imports Cli Blind
begin

section \<open>Properties of the command line\<close>

text \<open>
  Three commands panic when they account for the space in use, because the handle of the database they
  have just opened is local to an inner block; the other properties are about rolling back an
  interrupted backup, listing, dry runs, and the checks on the configuration that every command starts with.
\<close>

subsection \<open>Accounting with a nil handle\<close>

lemma dialStore_run:
  "cConn E (flags_conn (flg s)) = Inr S \<Longrightarrow> dialStore E s = (Ret (S, cfgBucket (flg s), encKey s), s)"
  by (simp add: dialStore_def flgM_def NewObjStore_def)

context object_store begin

lemma frame_sum_indices: "preserves (\<lambda>s. objs (world s) = z) (sum_indices S b es n)"
  by (induction es arbitrary: n) (auto intro!: preserves_tryM frame_GetObjList preserves_retM)

lemma frame_space_usage: "preserves (\<lambda>s. objs (world s) = z) (ComputeTotalCloudSpaceUsage S b)"
  unfolding ComputeTotalCloudSpaceUsage_def
  by (intro preserves_tryM frame_GetObjList frame_TopLevel frame_sum_indices preserves_retM)

end

text \<open>The space usage is computed, and then handed to a method of the nil handle.\<close>

lemma nil_usage_panics:
  assumes "cConn E (flags_conn (flg s)) = Inr S" "openDb E s = (Ret (), s1)"
    and "ComputeTotalCloudSpaceUsage S (cfgBucket (flg s)) s1 = (Ret (Inr n), s2)"
  shows "persistUsage E NilDb True b s = (Panic, s2\<lparr>world := snd (TimeNow (cS E) (world s2))\<rparr>)"
proof -
  have "persist_space E S (cfgBucket (flg s)) NilDb s1 = (Panic, s2\<lparr>world := snd (TimeNow (cS E) (world s2))\<rparr>)"
    unfolding persist_space_def tryM_run(1) [where m = "ComputeTotalCloudSpaceUsage S (cfgBucket (flg s))", OF assms(3)]
    by (simp add: bindM_def nowM_def hdlM_def split: prod.splits)
  then show ?thesis using dialStore_run [OF assms(1)] assms(2)
    by (simp add: persistUsage_def bindM_Ret bindM_stop)
qed

text \<open>
  C16. No maintenance command of the command line gets to its work. \<^verbatim>\<open>prune\<close>, \<^verbatim>\<open>cloudrm\<close> and \<^verbatim>\<open>wipe-cloud\<close> first
  record the space in use with \<^verbatim>\<open>persistUsage(nil, ...)\<close>, which opens the database into a variable that
  shadows its parameter and then calls a method of the nil parameter: whenever the database opens and
  the space can be computed, the three commands panic, and no object of the store has changed.
\<close>

theorem maintenance_panics:
  assumes "cConn E (flags_conn (flg s)) = Inr S" "openDb E s = (Ret (), s1)"
    and "ComputeTotalCloudSpaceUsage S (cfgBucket (flg s)) s1 = (Ret (Inr n), s2)"
    and "object_store S objs" "object_store (cS E) objs"
  shows "\<exists>t. pruneMain E backupName isDryRun s = (Panic, t) \<and> cloudrmMain E s = (Panic, t) \<and>
    wipeCloudMain E s = (Panic, t) \<and> objs (world t) = objs (world s1)"
proof -
  have "objs (world s2) = objs (world s1)"
    using preservesD' [OF object_store.frame_space_usage [OF assms(4)], OF assms(3) refl] .
  with object_store.time_frame [OF assms(5)] nil_usage_panics [OF assms(1-3)] show ?thesis
    unfolding pruneMain_def cloudrmMain_def wipeCloudMain_def by (auto simp: bindM_stop)
qed

text \<open>
  A restore does its work first: it panics at the end, when it has downloaded anything.
\<close>

lemma restore_panics_at_end:
  assumes "restore_files E name path s = (Ret (), s1)" "cConn E (flags_conn (flg s1)) = Inr S"
    and "openDb E s1 = (Ret (), s2)" "0 < uploadBytes s2 + downloadBytes s2"
  shows "fst (restoreMain E name path s) = Panic"
  using dialStore_run [OF assms(2)] assms
  by (simp add: restoreMain_def persistUsage_def nil_bandwidth_def bindM_Ret bindM_def nowM_def split: prod.splits)

subsection \<open>Rolling back\<close>

lemma hdlM_open: "m (fdb s) = (r, d) \<Longrightarrow> hdlM OpenDb m s = (r, s\<lparr>fdb := d\<rparr>)"
  by (simp add: hdlM_def zoomM_def)

lemma rollback_runs:
  fixes s :: "('w, 'z) cli_scheme"
  assumes "rollback E S bucket key s = (Ret u, t)" "db_ready (fdb s)"
  shows "fdb t = rolled_back (fdb s)"
proof -
  let ?P = "\<lambda>x :: ('w, 'z) cli_scheme. fdb x = fdb s"
  have P: "blind ?P" by (simp add: blind_def)
  let ?del = "\<lambda>n d. tryM (DeleteSnapshots S (cC E) (cJ E) key [\<lparr>sd_BackupDirName = Base d, sd_SnapshotName = n\<rparr>] bucket False)
      (\<lambda>e. bindM (GCChunks S (cC E) (cJ E) bucket key False) (\<lambda>_. retM ())) (\<lambda>_. retM ())"
  have info: "preserves ?P (hdlM OpenDb GetJournaledBackupInfo)"
    using assms(2) by (auto simp: preserves_def hdlM_def zoomM_def GetJournaledBackupInfo_def rowM_ready split: option.splits)
  have del: "preserves ?P (?del n d)" for n d
    by (intro preserves_tryM preserves_bindM blind_delete blind_gc preserves_retM P)
  obtain d1 where d: "CancelationResetLastBackupTime (fdb s) = (Ret (Inr ()), d1)"
    "CancelationCleanupJournal d1 = (Ret (Inr ()), rolled_back (fdb s))" using cancel_database [OF assms(2)] by blast
  from assms(1) show ?thesis unfolding rollback_def
  proof (cases rule: tryM_RetE)
    case (ok x s1)
    obtain dir time where x: "x = (dir, time)" by fastforce
    from preservesD' [OF info ok(1)] have s1: "?P s1" by simp
    from ok(2) obtain v s2 where s2: "?del (snapshotNameOf time) dir s1 = (Ret v, s2)"
      "tryM (hdlM OpenDb CancelationResetLastBackupTime) (\<lambda>e. liftGo Fatal) (\<lambda>_.
         tryM (hdlM OpenDb CancelationCleanupJournal) (\<lambda>e. liftGo Fatal) (\<lambda>_. retM ())) s2 = (Ret u, t)"
      unfolding x prod.case Let_def by (rule bindM_RetE)
    from preservesD' [OF del s2(1) s1] have fdb: "fdb s2 = fdb s" .
    have "hdlM OpenDb CancelationResetLastBackupTime s2 = (Ret (Inr ()), s2\<lparr>fdb := d1\<rparr>)"
      using hdlM_open [of CancelationResetLastBackupTime s2] d(1) fdb by simp
    moreover have "hdlM OpenDb CancelationCleanupJournal (s2\<lparr>fdb := d1\<rparr>) = (Ret (Inr ()), s2\<lparr>fdb := rolled_back (fdb s)\<rparr>)"
      using hdlM_open [of CancelationCleanupJournal "s2\<lparr>fdb := d1\<rparr>"] d(2) by simp
    ultimately have "t = s2\<lparr>fdb := rolled_back (fdb s)\<rparr>" using s2(2) by (simp add: tryM_run)
    then show ?thesis by simp
  qed simp
qed

lemma rollback_returns:
  fixes s :: "('w, 'z) cli_scheme"
  assumes "GetJournaledBackupInfo (fdb s) = (Ret (Inr (dir, time)), fdb s)" "db_ready (fdb s)"
    and "DeleteSnapshots S (cC E) (cJ E) key [\<lparr>sd_BackupDirName = Base dir, sd_SnapshotName = snapshotNameOf time\<rparr>] bucket False s =
      (Ret (Inr ()), s1)"
  shows "\<exists>t. rollback E S bucket key s = (Ret (), t)"
proof -
  have "hdlM OpenDb GetJournaledBackupInfo s = (Ret (Inr (dir, time)), s)" using assms(1) by (simp add: hdlM_open)
  note info = tryM_run(1) [where m = "hdlM OpenDb GetJournaledBackupInfo", OF this]
  have "blind (\<lambda>x :: ('w, 'z) cli_scheme. fdb x = fdb s)" by (simp add: blind_def)
  from preservesD' [OF blind_delete [OF this] assms(3) refl] have f: "fdb s1 = fdb s" .
  obtain d1 where d: "CancelationResetLastBackupTime (fdb s) = (Ret (Inr ()), d1)"
    "CancelationCleanupJournal d1 = (Ret (Inr ()), rolled_back (fdb s))" using cancel_database [OF assms(2)] by blast
  have "hdlM OpenDb CancelationResetLastBackupTime s1 = (Ret (Inr ()), s1\<lparr>fdb := d1\<rparr>)"
    using hdlM_open [of CancelationResetLastBackupTime s1] d(1) f by simp
  moreover have "hdlM OpenDb CancelationCleanupJournal (s1\<lparr>fdb := d1\<rparr>) = (Ret (Inr ()), s1\<lparr>fdb := rolled_back (fdb s)\<rparr>)"
    using hdlM_open [of CancelationCleanupJournal "s1\<lparr>fdb := d1\<rparr>"] d(2) by simp
  ultimately show ?thesis unfolding rollback_def info prod.case Let_def
    using assms(3) by (simp add: tryM_run bindM_Ret)
qed

lemma handleReplay_rollback:
  assumes "\<not> cfgResumeBackup (flg s)" "db_ready (fdb s)" "backup_journal (fdb s) \<noteq> []"
  shows "handleReplay E S bucket key s = bindM (rollback E S bucket key) (\<lambda>_. retM True)
    (s\<lparr>stdout := stdout s @ [''Rolling back previous interrupted backup...'' @ nl]\<rparr>)"
proof -
  have "hdlM OpenDb HasDirtyBackupJournal s = (Ret (Inr True), s)"
    using assms(2,3) by (simp add: hdlM_open HasDirtyBackupJournal_def tryM_def bindM_Ret rowM_ready)
  then show ?thesis using assms(1) by (simp add: handleReplay_def tryM_run(1) flgM_def printM_def bindM_assoc)
qed

text \<open>
  C17. A rollback leaves nothing to resume. When \<^verbatim>\<open>handleReplay\<close> rolls an interrupted backup back and
  returns, the journal of the database file is empty and clean, the row of the backup is gone from the
  completed backups, and every file the backup had begun is due again, its last backup set to 0.
\<close>

theorem rollback_clears:
  assumes "handleReplay E S bucket key s = (Ret True, t)" "\<not> cfgResumeBackup (flg s)" "db_ready (fdb s)"
  shows "backup_journal (fdb t) = [] \<and> fst (HasDirtyBackupJournal (fdb t)) = Ret (Inr False) \<and>
    (\<forall>b \<in> set (backup_info (fdb t)). \<forall>j \<in> set (backup_journal (fdb s)). bi_id b \<noteq> bj_backup_info_id j) \<and>
    (\<forall>r \<in> set (dirents (fdb t)). \<forall>j \<in> set (backup_journal (fdb s)).
       bj_status j \<noteq> Unstarted \<and> bj_dirent_id j = de_id r \<longrightarrow> de_last_backup r = 0)"
proof -
  have "backup_journal (fdb s) \<noteq> []"
    using assms by (auto simp: handleReplay_def hdlM_open HasDirtyBackupJournal_def tryM_def bindM_Ret rowM_ready)
  with assms obtain u where
    "rollback E S bucket key (s\<lparr>stdout := stdout s @ [''Rolling back previous interrupted backup...'' @ nl]\<rparr>) = (Ret u, t)"
    by (auto simp: handleReplay_rollback elim: bindM_RetE)
  from rollback_runs [OF this] assms(3) have "fdb t = rolled_back (fdb s)" by simp
  then show ?thesis using rolled_back_rows [of _ "fdb s"] assms(3)
    by (auto simp: HasDirtyBackupJournal_def tryM_def bindM_Ret rowM_ready)
qed

subsection \<open>Configuration\<close>

lemma flgM_run [simp]: "flgM f s = (Ret (f (flg s)), s)"
  by (simp add: flgM_def)

lemma dialStore_RetD:
  "dialStore E s = (Ret (S, bucket, key), t) \<Longrightarrow> cConn E (flags_conn (flg s)) = Inr S \<and> t = s"
  by (cases "cConn E (flags_conn (flg s))") (auto simp: dialStore_def NewObjStore_def bindM_def)

lemma blank_setting_salt [simp]: "blank_setting (f\<lparr>cfgSalt := x\<rparr>) = blank_setting f"
  by (simp add: blank_setting_def)

lemma fetch_keys_ok:
  fixes s :: "('w, 'z) cli_scheme"
  assumes run: "fetch_keys E S b s = (Ret (Inr u), t)" and env: "backup_env S objs" "clib_ok (cC E)" "jmeta_ok (cM E)"
  shows "\<exists>salt. flg t = (flg s)\<lparr>cfgSalt := salt\<rparr> \<and> salt \<noteq> [] \<and> length (encKey t) = 32 \<and> length (hmacKey t) = 32"
proof -
  let ?pw = "cfgMasterPassword (flg s)"
  obtain r s1 where s1: "GetOrCreateBucketMetadata S (cC E) (cM E) b ?pw s = (Ret r, s1)"
    using run by (auto simp: fetch_keys_def bindM_Ret elim: bindM_RetE)
  have "blind (\<lambda>x :: ('w, 'z) cli_scheme. flg x = flg s)" by (simp add: blind_def)
  from preservesD' [OF blind_metadata [OF this] s1 refl] have f1: "flg s1 = flg s" .
  obtain salt ver k h where r: "r = Inr (salt, ver, k, h)" and salt: "salt \<noteq> []"
    using run s1 by (cases r) (auto simp: fetch_keys_def bindM_Ret split: if_splits)
  let ?s = "s1\<lparr>encKey := k, hmacKey := h, flg := (flg s)\<lparr>cfgSalt := salt\<rparr>\<rparr>"
  let ?Q = "\<lambda>x :: ('w, 'z) cli_scheme. (flg x, encKey x, hmacKey x) = ((flg s)\<lparr>cfgSalt := salt\<rparr>, k, h)"
  have Q: "blind ?Q" by (simp add: blind_def)
  have "(if \<not> IntSliceContains SupportedBucketVersions ver then retM (Inl (GoErr (''error: bucket version '' @ show_int ver @
       '' is not supported by this version of the program'')))
     else tryM (VerifyKeys S (cC E) (cM E) b ?pw k h) (\<lambda>e. liftGo Fatal) (\<lambda>_. retM (Inr ()))) ?s = (Ret (Inr u), t)"
    using run s1 r salt f1 by (simp add: fetch_keys_def bindM_Ret)
  then obtain v where "VerifyKeys S (cC E) (cM E) b ?pw k h ?s = (Ret (Inr v), t)"
    by (cases "IntSliceContains SupportedBucketVersions ver") (auto elim: tryM_RetE)
  from preservesD' [OF blind_verify [OF Q] this] have "?Q t" by simp
  moreover have "length k = 32 \<and> length h = 32" using GetOrCreate_keys [OF env s1 [unfolded r]] by blast
  ultimately show ?thesis using salt by blast
qed

lemma validateConfigVars_ok:
  fixes s :: "('w, 'z) cli_scheme"
  assumes run: "validateConfigVars E s = (Ret (Inr u), t)"
    and env: "\<forall>c S. cConn E c = Inr S \<longrightarrow> backup_env S objs" "clib_ok (cC E)" "jmeta_ok (cM E)"
  shows "blank_setting (flg t) = None \<and> cfgSalt (flg t) \<noteq> [] \<and> length (encKey t) = 32 \<and> length (hmacKey t) = 32"
proof -
  have blank: "blank_setting (flg s) = None"
    using run by (auto simp: validateConfigVars_def bindM_Ret split: option.splits)
  with run have "bindM (dialStore E) (\<lambda>(S, bucket, _). bindM (IsReachable S bucket) (\<lambda>(ok, _).
     if \<not> ok then liftGo Fatal else fetch_keys E S bucket)) s = (Ret (Inr u), t)"
    by (simp add: validateConfigVars_def bindM_Ret)
  then obtain S b key where S: "cConn E (flags_conn (flg s)) = Inr S"
    and "bindM (IsReachable S b) (\<lambda>(ok, _). if \<not> ok then liftGo Fatal else fetch_keys E S b) s = (Ret (Inr u), t)"
    by (auto elim!: bindM_RetE [of "dialStore E"] dest!: dialStore_RetD)
  then obtain ok e s1 where s1: "IsReachable S b s = (Ret (ok, e), s1)" "fetch_keys E S b s1 = (Ret (Inr u), t)"
    by (auto elim!: bindM_RetE [of "IsReachable S b"] split: if_splits)
  have "blind (\<lambda>x :: ('w, 'z) cli_scheme. flg x = flg s)" by (simp add: blind_def)
  from preservesD' [OF blind_reachable [OF this] s1(1) refl] have "flg s1 = flg s" .
  with fetch_keys_ok [OF s1(2) _ env(2,3)] env(1) S blank show ?thesis by fastforce
qed

text \<open>A setting given by a flag wins over the file and the terminal.\<close>

definition flags_kept :: "flags \<Rightarrow> flags \<Rightarrow> bool" where
  "flags_kept f g \<longleftrightarrow> cfgForce g = cfgForce f \<and>
     (\<forall>sel \<in> {cfgEndpoint, cfgAccessKeyId, cfgSecretAccessKey, cfgBucket, cfgMasterPassword}. sel f \<noteq> [] \<longrightarrow> sel g = sel f)"

lemma kept_setFlg:
  "(\<And>g. flags_kept f g \<Longrightarrow> flags_kept f (u g)) \<Longrightarrow> preserves (\<lambda>s. flags_kept f (flg s)) (setFlg u)"
  unfolding setFlg_def by (rule preserves_modifyM) simp

lemma promptFor_run: "\<exists>a t. promptFor E q s = (Ret a, t) \<and> flg t = flg s"
  by (auto simp: promptFor_def printM_def bindM_def sysM_def split: prod.splits)

lemma kept_prompt:
  assumes "\<And>a g. flags_kept f g \<Longrightarrow> sel g = [] \<Longrightarrow> flags_kept f (upd a g)"
  shows "preserves (\<lambda>s :: ('w, 'z) cli_scheme. flags_kept f (flg s)) (promptIfBlank (promptFor E q) sel upd)"
proof (rule preservesI)
  fix s :: "('w, 'z) cli_scheme" assume k: "flags_kept f (flg s)"
  obtain a t where "promptFor E q s = (Ret a, t)" "flg t = flg s" using promptFor_run by blast
  with k assms [OF k] show "flags_kept f (flg (snd (promptIfBlank (promptFor E q) sel upd s)))"
    by (simp add: promptIfBlank_def setFlg_def bindM_Ret)
qed

lemma configFallback_keeps: "preserves (\<lambda>s. flags_kept f (flg s)) (configFallback E v)"
  unfolding configFallback_def promptForSecretKeyId_def promptForMasterPassword_def
  by (intro preserves_bindM kept_setFlg kept_prompt) (auto simp: flags_kept_def fallback_def)

lemma flags_kept_salt [simp]: "flags_kept f (g\<lparr>cfgSalt := x\<rparr>) = flags_kept f g"
  by (simp add: flags_kept_def)

lemma kept_validate:
  "preserves (\<lambda>s :: ('w, 'z) cli_scheme. flags_kept f (flg s)) (validateConfigVars E)"
proof -
  have P: "blind (\<lambda>s :: ('w, 'z) cli_scheme. flags_kept f (flg s))" by (simp add: blind_def)
  have flag: "preserves P (flgM g)" for P :: "('w, 'z) cli_scheme \<Rightarrow> bool" and g :: "flags \<Rightarrow> 'b"
    by (simp add: preserves_def)
  have keys: "preserves (\<lambda>s :: ('w, 'z) cli_scheme. flags_kept f (flg s)) (fetch_keys E S b)" for S b
    unfolding fetch_keys_def
    by (intro preserves_bindM flag blind_metadata [OF P])
      (auto simp: Let_def split: sum.splits prod.splits intro!: preserves_bindM preserves_modifyM preserves_tryM blind_verify [OF P])
  have dial: "preserves (\<lambda>s :: ('w, 'z) cli_scheme. flags_kept f (flg s)) (dialStore E)"
    by (auto simp: preserves_def dialStore_def NewObjStore_def bindM_def split: sum.splits)
  show ?thesis unfolding validateConfigVars_def
    by (intro preserves_bindM flag)
      (auto split: option.splits prod.splits intro!: preserves_bindM dial blind_reachable [OF P] keys)
qed

text \<open>
  C18. Without \<^verbatim>\<open>--force\<close> a command runs only on a complete configuration: when \<^verbatim>\<open>initConfig\<close> returns, no
  required setting is blank, those given by flags are as given, the bucket has a salt, and both keys
  are 256 bits long.
\<close>

theorem config_complete:
  fixes s :: "('w, 'z) cli_scheme"
  assumes run: "initConfig E s = (Ret (), t)" "\<not> cfgForce (flg s)"
    and env: "\<forall>c S. cConn E c = Inr S \<longrightarrow> backup_env S objs" "clib_ok (cC E)" "jmeta_ok (cM E)"
  shows "blank_setting (flg t) = None \<and> flags_kept (flg s) (flg t) \<and> cfgSalt (flg t) \<noteq> [] \<and>
    length (encKey t) = 32 \<and> length (hmacKey t) = 32"
proof -
  from run(1) obtain v s1 where v: "sysM (cViper E) s = (Ret (Inr v), s1)"
    and k: "bindM (configFallback E v) (\<lambda>_. tryM (validateConfigVars E)
      (\<lambda>e. bindM (flgM cfgForce) (\<lambda>force. if force then retM () else liftGo Fatal)) (\<lambda>_. retM ())) (s1\<lparr>viperCfg := v\<rparr>) = (Ret (), t)"
    by (auto simp: initConfig_def elim!: tryM_RetE [of "sysM (cViper E)"] bindM_RetE [of "makeTemplateConfigFile E"] split: if_splits)
  have "flg s1 = flg s" using v by (auto simp: sysM_def split: prod.splits)
  moreover from k obtain s2 where s2: "configFallback E v (s1\<lparr>viperCfg := v\<rparr>) = (Ret (), s2)"
    and k2: "tryM (validateConfigVars E) (\<lambda>e. bindM (flgM cfgForce) (\<lambda>force. if force then retM () else liftGo Fatal))
      (\<lambda>_. retM ()) s2 = (Ret (), t)" by (auto elim: bindM_RetE)
  ultimately have kept: "flags_kept (flg s) (flg s2)"
    using preservesD' [OF configFallback_keeps s2, of "flg s"] by (simp add: flags_kept_def)
  from k2 show ?thesis
  proof (cases rule: tryM_RetE)
    case (ok a s3)
    then have t: "validateConfigVars E s2 = (Ret (Inr a), t)" by simp
    from validateConfigVars_ok [OF t env] preservesD' [OF kept_validate t kept] show ?thesis by simp
  next
    case (err e s3)
    from preservesD' [OF kept_validate err(1) kept] run(2) have "\<not> cfgForce (flg s3)" by (simp add: flags_kept_def)
    with err(2) show ?thesis by (simp add: bindM_Ret)
  qed
qed

subsection \<open>Pruning\<close>

text \<open>With \<^verbatim>\<open>--dry-run\<close> nothing but the output changes: one line for every snapshot.\<close>

lemma dry_run_prints:
  "prune_each E S bucket key backupName True keeps infos s =
     (Ret (), s\<lparr>stdout := stdout s @ map (dry_line keeps) infos\<rparr>)"
  by (induction infos arbitrary: s) (simp_all add: printM_def bindM_Ret)

end
