(* ===== verification/Witness_Cli.thy ===== *)
theory Witness_Cli
  imports Witnesses Cli_Props
begin

section \<open>The command line at concrete inputs\<close>

text \<open>
  The properties of \<open>Cli_Props\<close> applied in the in-memory environment: a configuration read from a file,
  an interrupted backup with one task, and a bucket that a command tries to wipe.
\<close>

definition mem_cenv :: "mw cenv" where
  "mem_cenv = \<lparr>cS = mem_sys, cConn = (\<lambda>c. Inr mem_sys), cC = mem_clib, cJ = mem_jidx, cG = mem_gob, cM = mem_jmeta,
     cViper = (\<lambda>w. (Inr \<lparr>Endpoint = ''127.0.0.1:9000'', AccessKeyId = ''user'', SecretAccessKey = ''secret'',
       Bucket = ''b'', TrustSelfSignedCerts = True, MasterPassword = ''pw'', Salt = [], Dirs = [''/d''], ExcludePaths = [],
       VerboseDaemon = False, CachesPath = [], MaxChunkCacheMb = 0, ResourceUtilization = []\<rparr>, w)),
     cScanln = (\<lambda>w. (Inl (GoErr ''EOF''), w)), cHome = Inr ''/home/user'', cWriteFile = (\<lambda>p d m w. (Inr (), w))\<rparr>"

lemma mem_cenv_simps [simp]:
  "cS mem_cenv = mem_sys" "cConn mem_cenv = (\<lambda>c. Inr mem_sys)" "cC mem_cenv = mem_clib" "cJ mem_cenv = mem_jidx" "cM mem_cenv = mem_jmeta"
  by (simp_all add: mem_cenv_def)

definition some_flags :: flags where
  "some_flags = defaultFlags\<lparr>cfgBucket := ''b'', cfgResumeBackup := False\<rparr>"

lemmas some_flags_simps = some_flags_def defaultFlags_def

definition cli_of :: "mw \<Rightarrow> db \<Rightarrow> bytes \<Rightarrow> mw cli" where
  "cli_of w d key = \<lparr>world = w, uploadBytes = 0, downloadBytes = 0, sdb = empty_db, fdb = d, lastPersisted = 0, items = [],
     plaintextChunkBuf = [], posInPlaintextChunk = 0, totalCntJournal = 0, finishedCountJournal = 0, stats = None,
     knownPaths = [], backupIdsQueue = [], pendingDirEntryInserts = [], reportedEvents = [],
     gCacheDirectory = ''/tmp/tless-cache/Chunks'', gMaxCacheSizeOnDisk = 1024,
     viperCfg = \<lparr>Endpoint = [], AccessKeyId = [], SecretAccessKey = [], Bucket = [], TrustSelfSignedCerts = False,
       MasterPassword = [], Salt = [], Dirs = [], ExcludePaths = [], VerboseDaemon = False, CachesPath = [],
       MaxChunkCacheMb = 0, ResourceUtilization = []\<rparr>,
     flg = some_flags, encKey = key, hmacKey = key, progressBar = None, stdout = []\<rparr>"

subsection \<open>Maintenance\<close>

definition one_chunk :: mw where
  "one_chunk = mw0\<lparr>mw_objs := [((''b'', ''chunks/c''), [1, 2, 3])]\<rparr>"

lemma mem_openDb:
  assumes "db_faults (fdb s) = []"
  shows "\<exists>w. openDb mem_cenv s = (Ret (), s\<lparr>world := w\<rparr>) \<and> mw_objs w = mw_objs (world s)"
proof -
  have uid: "Atoi ''1000'' = Inr 1000" by code_simp
  show ?thesis using assms
    by (simp add: openDb_def MkdirUserConfig_def mkdir_user_config_def GetUidGid_def tryM_def bindM_def sysM_def mem_sys_def uid
      zoomM_def sqlM_def put_file_def upd_file_def Let_def) (rule exI, rule conjI, rule refl, simp)
qed

lemma mem_space_usage:
  assumes "mw_objs (world s) = mw_objs one_chunk"
  shows "ComputeTotalCloudSpaceUsage mem_sys ''b'' s = (Ret (Inr 3), s)"
proof -
  have list: "GetObjList mem_sys ''b'' p r s = (Ret (Inr (fold (\<lambda>(k, n) m. map_put k n m) (projr (fst (mem_list ''b'' p r one_chunk))) [])), s)" for p r
    using assms by (simp add: GetObjList_def tryM_def bindM_def sysM_def mem_sys_def mem_list_def mem_objs_def)
  have top: "GetObjListTopLevel mem_sys ''b'' ex s = (Ret (Inr (map StripTrailingSlashes
       (filter (\<lambda>k. \<not> skip_prefix ex k) (map fst (projr (fst (mem_list ''b'' [] False one_chunk))))))), s)" for ex
    using assms by (simp add: GetObjListTopLevel_def tryM_def bindM_def sysM_def mem_sys_def mem_list_def mem_objs_def)
  have "projr (fst (mem_list ''b'' ''metadata'' False one_chunk)) = []"
    "projr (fst (mem_list ''b'' ''chunks/'' False one_chunk)) = [(''chunks/c'', 3)]"
    "map StripTrailingSlashes (filter (\<lambda>k. \<not> skip_prefix [''metadata'', ''chunks''] k)
       (map fst (projr (fst (mem_list ''b'' [] False one_chunk))))) = []"
    by code_simp+
  then show ?thesis
    by (simp add: ComputeTotalCloudSpaceUsage_def list top tryM_def bindM_Ret)
qed

theorem maintenance_panics_witness:
  "\<exists>t. pruneMain mem_cenv ''Docs'' False (cli_of one_chunk ready_db mem_key) = (Panic, t) \<and>
     mem_objs (world t) ''b'' ''chunks/c'' = Some [1, 2, 3]"
proof -
  let ?s = "cli_of one_chunk ready_db mem_key"
  have s: "db_faults (fdb ?s) = []" "mw_objs (world ?s) = mw_objs one_chunk" "cfgBucket (flg ?s) = ''b''"
    by (simp_all add: cli_of_def ready_db_ok some_flags_simps)
  obtain w where w: "openDb mem_cenv ?s = (Ret (), ?s\<lparr>world := w\<rparr>)" "mw_objs w = mw_objs one_chunk"
    using mem_openDb [OF s(1)] s(2) by auto
  have "ComputeTotalCloudSpaceUsage mem_sys (cfgBucket (flg ?s)) (?s\<lparr>world := w\<rparr>) = (Ret (Inr 3), ?s\<lparr>world := w\<rparr>)"
    using mem_space_usage [of "?s\<lparr>world := w\<rparr>"] w(2) s(3) by simp
  from maintenance_panics [OF _ w(1) this, of mem_objs "''Docs''" False] obtain t where
    "pruneMain mem_cenv ''Docs'' False ?s = (Panic, t)" "mem_objs (world t) = mem_objs w"
    using mem.object_store_axioms by auto
  moreover have "mem_objs w ''b'' ''chunks/c'' = Some [1, 2, 3]" using w(2) by (simp add: mem_objs_def one_chunk_def)
  ultimately show ?thesis by auto
qed

subsection \<open>Rolling back\<close>

definition interrupted :: db where
  "interrupted = sample_journal\<lparr>backup_info := [\<lparr>bi_id = 1, bi_snapshot_time = 1700000000, bi_dirpath = ''/d''\<rparr>]\<rparr>"

lemma mem_encrypt_name: "name \<noteq> [] \<Longrightarrow> \<exists>c. EncryptFilename mem_clib mem_key name = Inr c"
  by (simp add: EncryptFilename_def Let_def mem_clib_def mem_key_def)

lemma mem_delete_empty:
  assumes "mw_objs (world s) = []" "dir \<noteq> []" "name \<noteq> []"
  shows "DeleteSnapshots mem_sys mem_clib mem_jidx mem_key [\<lparr>sd_BackupDirName = dir, sd_SnapshotName = name\<rparr>] ''b'' False s =
    (Ret (Inr ()), s)"
proof -
  obtain c d where "EncryptFilename mem_clib mem_key name = Inr c" "EncryptFilename mem_clib mem_key dir = Inr d"
    using mem_encrypt_name assms by blast
  then show ?thesis using assms(1)
    by (simp add: DeleteSnapshots_def GCChunks_def GetGroupedSnapshots_def GetObjListTopLevel_def GetObjList_def DeleteObj_def
      tryM_def bindM_def sysM_def mem_sys_def mem_list_def mem_remove_def)
qed

theorem rollback_clears_witness:
  "\<exists>t. handleReplay mem_cenv mem_sys ''b'' mem_key (cli_of mw0 interrupted mem_key) = (Ret True, t) \<and>
     backup_journal (fdb t) = [] \<and> fst (HasDirtyBackupJournal (fdb t)) = Ret (Inr False)"
proof -
  let ?s = "cli_of mw0 interrupted mem_key"
  let ?m = "''Rolling back previous interrupted backup...'' @ nl"
  have ok: "\<not> cfgResumeBackup (flg ?s)" "db_ready (fdb ?s)" "backup_journal (fdb ?s) \<noteq> []"
    using sample_journal_ok(1)
    by (simp_all add: cli_of_def some_flags_simps interrupted_def db_ready_def sample_journal_def del: db_readyD)
  have "GetJournaledBackupInfo (fdb ?s) = (Ret (Inr (''/d'', 1700000000)), fdb ?s)"
    using ok(2) by (simp add: GetJournaledBackupInfo_def rowM_ready cli_of_def interrupted_def sample_journal_def)
  moreover have "snapshotNameOf 1700000000 = ''2023-11-14_22.13.20''" "Base ''/d'' = ''d''" by code_simp+
  moreover have "mw_objs (world (?s\<lparr>stdout := [?m]\<rparr>)) = []" by (simp add: cli_of_def mw0_def)
  ultimately obtain t where "rollback mem_cenv mem_sys ''b'' mem_key (?s\<lparr>stdout := [?m]\<rparr>) = (Ret (), t)"
    using rollback_returns [of "?s\<lparr>stdout := [?m]\<rparr>" "''/d''" 1700000000 mem_sys mem_cenv mem_key "''b''"] ok(2)
      mem_delete_empty [of "?s\<lparr>stdout := [?m]\<rparr>" "''d''" "''2023-11-14_22.13.20''"] by auto
  then have t: "handleReplay mem_cenv mem_sys ''b'' mem_key ?s = (Ret True, t)"
    using handleReplay_rollback [OF ok, of mem_cenv mem_sys "''b''" mem_key] by (simp add: cli_of_def bindM_Ret)
  from rollback_clears [OF t ok(1,2)] t show ?thesis by blast
qed

subsection \<open>Configuration\<close>

definition some_md :: BucketMetadata where
  "some_md = (let salt = replicate 32 CHR ''a'';
     k = b64encode (replicate 12 0 @ mem_tag (IDKey mem_clib (bytes_of_string ''pw'') (bytes_of_string salt)) @ 0x1f # mem_key) in
     \<lparr>bm_Salt = salt, bm_Version = 1, EncryptedEncKeyB64 = k, EncryptedHmacKeyB64 = k\<rparr>)"

lemma some_md: "decode_metadata mem_clib ''pw'' some_md = Ret (Inr (some_md, mem_key, mem_key))"
  "md_unmarshal mem_jmeta (md_marshal mem_jmeta some_md) = Inr some_md"
  by code_simp+

definition made_bucket :: mw where
  "made_bucket = mw0\<lparr>mw_objs := [((''b'', MetadataObjName), md_marshal mem_jmeta some_md)]\<rparr>"

lemma made_read:
  assumes "world s = made_bucket"
  shows "readBucketMetadataFile mem_sys mem_clib mem_jmeta ''b'' ''pw'' s =
    (Ret (Inr (some_md, mem_key, mem_key)), s\<lparr>downloadBytes := downloadBytes s + int (length (md_marshal mem_jmeta some_md))\<rparr>)"
  using mem_download [of s "''b''" MetadataObjName "md_marshal mem_jmeta some_md"] assms some_md
  by (simp add: readBucketMetadataFile_def tryM_run(1) mem_objs_def made_bucket_def)

lemma made_lists:
  assumes "world s = made_bucket"
  shows "IsReachable mem_sys ''b'' s = (Ret (True, None), s)"
    "GetObjListTopLevel mem_sys ''b'' [''metadata'', ''chunks''] s = (Ret (Inr []), s)"
    "\<exists>n. GetObjList mem_sys ''b'' MetadataObjName False s = (Ret (Inr [(MetadataObjName, n)]), s)"
  using assms
  by (simp_all add: IsReachable_def GetObjListTopLevel_def GetObjList_def tryM_def bindM_def sysM_def mem_sys_def mem_list_def
    made_bucket_def MetadataObjName_def list_key_def HasPrefix_def skip_prefix_def)

lemma made_create:
  assumes "world s = made_bucket"
  shows "\<exists>n. GetOrCreateBucketMetadata mem_sys mem_clib mem_jmeta ''b'' ''pw'' s =
    (Ret (Inr (bm_Salt some_md, 1, mem_key, mem_key)), s\<lparr>downloadBytes := n\<rparr>)"
proof -
  obtain n where "GetObjList mem_sys ''b'' MetadataObjName False s = (Ret (Inr [(MetadataObjName, n)]), s)"
    using made_lists(3) [OF assms] by blast
  moreover have "bm_Version some_md = 1" by (simp add: some_md_def Let_def)
  ultimately show ?thesis
    by (auto simp: GetOrCreateBucketMetadata_def tryM_run(1) made_read [OF assms] mem_key_def)
qed

lemma made_verify:
  assumes "world s = made_bucket"
  shows "\<exists>n. VerifyKeys mem_sys mem_clib mem_jmeta ''b'' ''pw'' mem_key mem_key s = (Ret (Inr ()), s\<lparr>downloadBytes := n\<rparr>)"
proof -
  let ?t = "s\<lparr>downloadBytes := downloadBytes s + int (length (md_marshal mem_jmeta some_md))\<rparr>"
  have "GetObjListTopLevel mem_sys ''b'' [''metadata'', ''chunks''] ?t = (Ret (Inr []), ?t)"
    using made_lists(2) [of ?t] assms by simp
  then show ?thesis by (auto simp: VerifyKeys_def tryM_run(1) made_read [OF assms])
qed

lemma made_config:
  assumes "flg s = some_flags" "fst (cViper mem_cenv w) = Inr v"
  shows "returns (configFallback mem_cenv v) s (\<lambda>_ t. world t = world s \<and> blank_setting (flg t) = None \<and>
     cfgBucket (flg t) = ''b'' \<and> cfgMasterPassword (flg t) = ''pw'')"
  using assms
  by (auto simp: mem_cenv_def some_flags_simps configFallback_def promptIfBlank_def setFlg_def fallback_def blank_setting_def
    bindM_Ret returns_def)

theorem config_complete_witness:
  "\<exists>t. initConfig mem_cenv (cli_of made_bucket empty_db []) = (Ret (), t) \<and>
     blank_setting (flg t) = None \<and> cfgSalt (flg t) \<noteq> [] \<and> length (encKey t) = 32"
proof -
  let ?s = "cli_of made_bucket empty_db []"
  obtain v where v: "sysM (cViper mem_cenv) ?s = (Ret (Inr v), ?s)" "fst (cViper mem_cenv made_bucket) = Inr v"
    by (simp add: sysM_def mem_cenv_def)
  have "flg (?s\<lparr>viperCfg := v\<rparr>) = some_flags" "world (?s\<lparr>viperCfg := v\<rparr>) = made_bucket" by (simp_all add: cli_of_def)
  with made_config [of "?s\<lparr>viperCfg := v\<rparr>", OF _ v(2)] obtain s1 where s1: "configFallback mem_cenv v (?s\<lparr>viperCfg := v\<rparr>) = (Ret (), s1)" "world s1 = made_bucket"
    "blank_setting (flg s1) = None" "cfgBucket (flg s1) = ''b''" "cfgMasterPassword (flg s1) = ''pw''"
    by (auto elim: returnsE)
  obtain n where n: "GetOrCreateBucketMetadata mem_sys mem_clib mem_jmeta ''b'' ''pw'' s1 =
    (Ret (Inr (bm_Salt some_md, 1, mem_key, mem_key)), s1\<lparr>downloadBytes := n\<rparr>)" using made_create [OF s1(2)] by blast
  let ?s2 = "s1\<lparr>downloadBytes := n, encKey := mem_key, hmacKey := mem_key, flg := (flg s1)\<lparr>cfgSalt := bm_Salt some_md\<rparr>\<rparr>"
  obtain m where m: "VerifyKeys mem_sys mem_clib mem_jmeta ''b'' ''pw'' mem_key mem_key ?s2 = (Ret (Inr ()), ?s2\<lparr>downloadBytes := m\<rparr>)"
    using made_verify [of ?s2] s1(2) by auto
  have "fetch_keys mem_cenv mem_sys ''b'' s1 = (Ret (Inr ()), ?s2\<lparr>downloadBytes := m\<rparr>)"
    using n m s1(5) by (simp add: fetch_keys_def bindM_Ret tryM_run(1) SupportedBucketVersions_def some_md_def Let_def)
  moreover have "dialStore mem_cenv s1 = (Ret (mem_sys, ''b'', encKey s1), s1)"
    using dialStore_run [of mem_cenv s1 mem_sys] s1(4) by simp
  ultimately have "validateConfigVars mem_cenv s1 = (Ret (Inr ()), ?s2\<lparr>downloadBytes := m\<rparr>)"
    using s1(3) made_lists(1) [OF s1(2)] by (simp add: validateConfigVars_def bindM_Ret)
  then have run: "initConfig mem_cenv ?s = (Ret (), ?s2\<lparr>downloadBytes := m\<rparr>)"
    using v(1) s1(1) by (simp add: initConfig_def tryM_run(1) bindM_Ret)
  have "\<not> cfgForce (flg ?s)" by (simp add: cli_of_def some_flags_simps)
  from config_complete [OF run this, of mem_objs] run mem.backup_env_axioms mem_clib_ok mem_jmeta_ok show ?thesis by auto
qed

end
