(* ===== verification/Journal_Refinement.thy ===== *)
theory Journal_Refinement
  imports Journal
begin

section \<open>The journal refines a pool of tasks\<close>

text \<open>
  What the backup relies on of the journal, without rows, order, sequence numbers and SQL: a pool of
  tasks, each waiting, running or done with an entry for the index. A claim takes any waiting task; it
  answers that there is no work when none waits. The operations of the journal simulate those of the
  pool, so every run of the journal is a run of the pool, and what holds of the pool holds of it.
\<close>

subsection \<open>Simulation of operations\<close>

locale simulation =
  fixes run :: "'o \<Rightarrow> ('s, 'r) prog" and ok :: "'s \<Rightarrow> bool" and abs :: "'s \<Rightarrow> 'a"
    and spec :: "'a \<Rightarrow> 'o \<Rightarrow> 'r \<Rightarrow> 'a \<Rightarrow> bool"
  assumes simulates: "ok s \<Longrightarrow> \<exists>r s'. run opn s = (Ret r, s') \<and> ok s' \<and> spec (abs s) opn r (abs s')"

fun run_all :: "('o \<Rightarrow> ('s, 'r) prog) \<Rightarrow> 'o list \<Rightarrow> ('s, 'r list) prog" where
  "run_all run [] = retM []"
| "run_all run (opn # ops) = bindM (run opn) (\<lambda>r. bindM (run_all run ops) (\<lambda>rs. retM (r # rs)))"

inductive spec_runs :: "('a \<Rightarrow> 'o \<Rightarrow> 'r \<Rightarrow> 'a \<Rightarrow> bool) \<Rightarrow> 'a \<Rightarrow> 'o list \<Rightarrow> 'r list \<Rightarrow> 'a \<Rightarrow> bool"
  for spec where
  spec_Nil: "spec_runs spec a [] [] a"
| spec_Cons: "spec a opn r b \<Longrightarrow> spec_runs spec b ops rs c \<Longrightarrow> spec_runs spec a (opn # ops) (r # rs) c"

inductive_cases spec_runs_ConsE: "spec_runs spec a (opn # ops) rs c"

context simulation begin

lemma simulates_runs:
  "ok s \<Longrightarrow> \<exists>rs t. run_all run ops s = (Ret rs, t) \<and> ok t \<and> spec_runs spec (abs s) ops rs (abs t)"
proof (induction ops arbitrary: s)
  case Nil
  then show ?case by (auto intro: spec_Nil)
next
  case (Cons opn ops)
  obtain r s1 where s1: "run opn s = (Ret r, s1)" "ok s1" "spec (abs s) opn r (abs s1)"
    using simulates [OF Cons.prems] by blast
  with Cons.IH [OF s1(2)] show ?case by (auto simp: bindM_Ret intro: spec_Cons)
qed

end

subsection \<open>The pool\<close>

datatype phase = Waiting | Running | Done "bytes option"

type_synonym pool = "int \<rightharpoonup> BackupJournalTask \<times> phase"

datatype journal_op = Claim | CompleteTask BackupJournalTask "bytes option" | Recover

datatype journal_out = Task BackupJournalTask | NoWork | Okay | Failed goerr

inductive pool_spec :: "pool \<Rightarrow> journal_op \<Rightarrow> journal_out \<Rightarrow> pool \<Rightarrow> bool" where
  pool_claim: "p i = Some (t, Waiting) \<Longrightarrow> pool_spec p Claim (Task t) (p(i \<mapsto> (t, Running)))"
| pool_none: "(\<And>i t. p i \<noteq> Some (t, Waiting)) \<Longrightarrow> pool_spec p Claim NoWork p"
| pool_complete: "pool_spec p (CompleteTask t e) Okay
    (p(bjt_id t := map_option (\<lambda>(u, _). (u, Done e)) (p (bjt_id t))))"
| pool_recover: "pool_spec p Recover Okay
    (\<lambda>i. map_option (\<lambda>(t, q). (t, if q = Running then Waiting else q)) (p i))"

inductive_cases pool_claimE: "pool_spec p Claim r q"
inductive_cases pool_completeE: "pool_spec p (CompleteTask t e) r q"

subsection \<open>The journal as a pool\<close>

definition phase_of :: "journal_row \<Rightarrow> phase" where
  "phase_of r = (case bj_status r of Unstarted \<Rightarrow> Waiting | InProgress \<Rightarrow> Running | Finished \<Rightarrow> Done (bj_index_entry r))"

definition pool_of :: "db \<Rightarrow> pool" where
  "pool_of d = map_of (map (\<lambda>r. (bj_id r, (task_of r, phase_of r))) (backup_journal d))"

definition journal_do :: "journal_op \<Rightarrow> (db, journal_out) prog" where
  "journal_do opn = (case opn of
       Claim \<Rightarrow> tryM ClaimNextBackupJournalTask (\<lambda>e. retM (if e = ErrNoWork then NoWork else Failed e)) (\<lambda>t. retM (Task t))
     | CompleteTask t e \<Rightarrow> tryM (CompleteBackupJournalTask t e) (\<lambda>e. retM (Failed e)) (\<lambda>_. retM Okay)
     | Recover \<Rightarrow> tryM ResetAllInProgressBackupJournalTasks (\<lambda>e. retM (Failed e)) (\<lambda>_. retM Okay))"

lemma phase_of_simps [simp]:
  "phase_of r = Waiting \<longleftrightarrow> bj_status r = Unstarted" "phase_of r = Running \<longleftrightarrow> bj_status r = InProgress"
  by (simp_all add: phase_of_def split: JournalStatus.splits)

lemma task_of_same [simp]: "task_of (r\<lparr>bj_status := st\<rparr>) = task_of r"
  "task_of (r\<lparr>bj_status := st, bj_index_entry := e\<rparr>) = task_of r"
  by (simp_all add: task_of_def)

lemma pool_of_row:
  "distinct (map bj_id (backup_journal d)) \<Longrightarrow> r \<in> set (backup_journal d) \<Longrightarrow>
     pool_of d (bj_id r) = Some (task_of r, phase_of r)"
  unfolding pool_of_def by (rule map_of_is_SomeI) (auto simp: comp_def)

lemma pool_of_SomeD: "pool_of d i = Some (t, q) \<Longrightarrow> \<exists>r \<in> set (backup_journal d). bj_id r = i \<and> t = task_of r \<and> q = phase_of r"
  unfolding pool_of_def by (auto dest!: map_of_SomeD)

text \<open>An update of rows that keeps their identifiers is an update of the pool.\<close>

lemma pool_of_set_rows:
  assumes "\<And>r. bj_id (f r) = bj_id r" "\<And>r. r \<in> set (backup_journal d) \<Longrightarrow>
      (task_of (if p r then f r else r), phase_of (if p r then f r else r)) = g (bj_id r) (task_of r, phase_of r)"
  shows "pool_of (set_rows p f d) i = map_option (g i) (pool_of d i)"
proof -
  have "map_of (map (\<lambda>r. (bj_id r, (task_of r, phase_of r))) (map (\<lambda>r. if p r then f r else r) xs)) i =
      map_option (g i) (map_of (map (\<lambda>r. (bj_id r, (task_of r, phase_of r))) xs) i)"
    if "set xs \<subseteq> set (backup_journal d)" for xs
    using that by (induction xs) (simp_all add: assms split: if_splits)
  then show ?thesis by (simp add: pool_of_def)
qed

lemma journal_ok_ids: "journal_ok d \<Longrightarrow> distinct (map bj_id (backup_journal d))"
  by (auto simp: journal_ok_def db_ok_def dest: ids_ok_distinct)

lemma journal_ok_set_rows: "(\<And>r. bj_id (f r) = bj_id r) \<Longrightarrow> journal_ok d \<Longrightarrow> journal_ok (set_rows p f d)"
  by (simp add: journal_ok_def db_ok_set_rows del: db_readyD)

lemma claim_refines:
  assumes "journal_ok d"
  shows "\<exists>r d'. journal_do Claim d = (Ret r, d') \<and> journal_ok d' \<and> pool_spec (pool_of d) Claim r (pool_of d')"
proof (cases "filter (is_status Unstarted) (backup_journal d)")
  case Nil
  then have none: "\<And>r. r \<in> set (backup_journal d) \<Longrightarrow> bj_status r \<noteq> Unstarted"
    by (auto simp: filter_empty_conv is_status_def)
  then have "pool_of d i \<noteq> Some (t, Waiting)" for i t
    by (auto dest!: pool_of_SomeD simp: eq_commute [of Waiting])
  with ClaimNext_empty [of d, OF _ none] assms show ?thesis
    by (auto simp: journal_do_def tryM_def bindM_Ret journal_ok_def intro!: pool_none)
next
  case (Cons r rs)
  from filter_eq_ConsE [OF Cons] obtain pre post where j: "backup_journal d = pre @ r # post"
    "\<And>x. x \<in> set pre \<Longrightarrow> \<not> is_status Unstarted x" "is_status Unstarted r" by metis
  let ?d = "set_rows (\<lambda>x. bj_id x = bj_id r) (\<lambda>x. x\<lparr>bj_status := InProgress\<rparr>) d"
  have ids: "distinct (map bj_id (backup_journal d))" using journal_ok_ids [OF assms] .
  have "map (\<lambda>x. if bj_id x = bj_id r then x\<lparr>bj_status := InProgress\<rparr> else x) (backup_journal d)
      = pre @ r\<lparr>bj_status := InProgress\<rparr> # post"
    using ids j(1) by (auto simp: image_iff intro!: map_idI)
  then have "?d = d\<lparr>backup_journal := pre @ r\<lparr>bj_status := InProgress\<rparr> # post\<rparr>"
    by (simp add: set_rows_def)
  then have c: "ClaimNextBackupJournalTask d = (Ret (Inr (task_of r)), ?d)"
    using ClaimNext_first [of d pre r post] assms j by (simp add: journal_ok_def is_status_def task_of_def)
  have r: "pool_of d (bj_id r) = Some (task_of r, Waiting)"
    using pool_of_row [OF ids, of r] j(1,3) by (simp add: is_status_def)
  have "pool_of ?d = (pool_of d)(bj_id r \<mapsto> (task_of r, Running))"
  proof
    fix i
    have "pool_of ?d i = map_option (\<lambda>(t, q). (t, if i = bj_id r then Running else q)) (pool_of d i)"
      by (rule pool_of_set_rows) (auto simp: phase_of_def)
    with r show "pool_of ?d i = ((pool_of d)(bj_id r \<mapsto> (task_of r, Running))) i"
      by (cases "pool_of d i") auto
  qed
  with pool_claim [of "pool_of d", OF r] c journal_ok_set_rows [OF _ assms] show ?thesis
    by (auto simp: journal_do_def tryM_def bindM_Ret)
qed

lemma complete_refines:
  assumes "journal_ok d"
  shows "\<exists>r d'. journal_do (CompleteTask t e) d = (Ret r, d') \<and> journal_ok d' \<and>
    pool_spec (pool_of d) (CompleteTask t e) r (pool_of d')"
proof -
  let ?d = "set_rows (\<lambda>r. bj_id r = bjt_id t) (\<lambda>r. r\<lparr>bj_status := Finished, bj_index_entry := e\<rparr>) d"
  have "pool_of ?d = (pool_of d)(bjt_id t := map_option (\<lambda>(u, _). (u, Done e)) (pool_of d (bjt_id t)))"
  proof
    fix i
    have "pool_of ?d i = map_option (\<lambda>(u, q). (u, if i = bjt_id t then Done e else q)) (pool_of d i)"
      by (rule pool_of_set_rows) (auto simp: phase_of_def)
    then show "pool_of ?d i = ((pool_of d)(bjt_id t := map_option (\<lambda>(u, _). (u, Done e)) (pool_of d (bjt_id t)))) i"
      by (cases "pool_of d i") auto
  qed
  with Complete_run [of d t e] pool_complete [of "pool_of d" t e] journal_ok_set_rows [OF _ assms] assms show ?thesis
    by (auto simp: journal_do_def tryM_def bindM_Ret journal_ok_def simp del: db_readyD)
qed

lemma recover_refines:
  assumes "journal_ok d"
  shows "\<exists>r d'. journal_do Recover d = (Ret r, d') \<and> journal_ok d' \<and> pool_spec (pool_of d) Recover r (pool_of d')"
proof -
  let ?d = "set_rows (is_status InProgress) (\<lambda>r. r\<lparr>bj_status := Unstarted\<rparr>) d"
  have "pool_of ?d = (\<lambda>i. map_option (\<lambda>(t, q). (t, if q = Running then Waiting else q)) (pool_of d i))"
    by (rule ext, rule pool_of_set_rows) (auto simp: is_status_def phase_of_def split: JournalStatus.splits)
  with Reset_run [of d] pool_recover [of "pool_of d"] journal_ok_set_rows [OF _ assms] assms show ?thesis
    by (auto simp: journal_do_def tryM_def bindM_Ret journal_ok_def simp del: db_readyD)
qed

interpretation journal_pool: simulation journal_do journal_ok pool_of pool_spec
proof
  fix d opn assume "journal_ok d"
  then show "\<exists>r d'. journal_do opn d = (Ret r, d') \<and> journal_ok d' \<and> pool_spec (pool_of d) opn r (pool_of d')"
    using claim_refines complete_refines recover_refines by (cases opn) blast+
qed

subsection \<open>What holds of every pool\<close>

definition waiting :: "pool \<Rightarrow> int set" where
  "waiting p = {i. \<exists>t. p i = Some (t, Waiting)}"

definition pool_wf :: "pool \<Rightarrow> bool" where
  "pool_wf p \<longleftrightarrow> (\<forall>i t q. p i = Some (t, q) \<longrightarrow> bjt_id t = i)"

fun claimed :: "journal_out list \<Rightarrow> BackupJournalTask list" where
  "claimed [] = []"
| "claimed (Task t # rs) = t # claimed rs"
| "claimed (_ # rs) = claimed rs"

lemma pool_step:
  assumes "pool_spec p opn r q" "opn \<noteq> Recover" "pool_wf p"
  shows "pool_wf q \<and> waiting q \<subseteq> waiting p \<and> (\<forall>t. r = Task t \<longrightarrow> bjt_id t \<in> waiting p - waiting q)"
  using assms by (cases rule: pool_spec.cases) (auto simp: pool_wf_def waiting_def split: if_splits)

lemma claimed_once:
  "spec_runs pool_spec p ops rs q \<Longrightarrow> Recover \<notin> set ops \<Longrightarrow> pool_wf p \<Longrightarrow>
     distinct (map bjt_id (claimed rs)) \<and> bjt_id ` set (claimed rs) \<subseteq> waiting p"
proof (induction rule: spec_runs.induct)
  case (spec_Cons p opn r p1 ops rs q)
  from pool_step [OF spec_Cons.hyps(1)] spec_Cons.prems
  have s: "pool_wf p1" "waiting p1 \<subseteq> waiting p" "\<And>t. r = Task t \<Longrightarrow> bjt_id t \<in> waiting p - waiting p1" by auto
  from spec_Cons.IH spec_Cons.prems s(1)
  have "distinct (map bjt_id (claimed rs))" "bjt_id ` set (claimed rs) \<subseteq> waiting p1" by auto
  with s(2,3) show ?case by (cases r) auto
qed simp

lemma pool_of_wf: "pool_wf (pool_of d)"
  by (auto simp: pool_wf_def task_of_def dest!: pool_of_SomeD)

text \<open>
  C13. The journal refines the pool of tasks. On a working database every sequence of claims, completions
  and recoveries returns, and what it answers and leaves is a run of the pool: a claim answers some
  waiting task and makes it running, or that there is no work when none waits; a completion makes the
  task of that identifier done with its entry; a recovery makes the running tasks wait again. Hence,
  between two recoveries, no task is handed out twice.
\<close>

theorem journal_refines_pool:
  assumes "db_ready d" "db_ok d"
  shows "\<exists>outs d'. run_all journal_do ops d = (Ret outs, d') \<and>
    spec_runs pool_spec (pool_of d) ops outs (pool_of d') \<and>
    (Recover \<notin> set ops \<longrightarrow> distinct (map bjt_id (claimed outs)))"
proof -
  have "journal_ok d" using assms by (simp add: journal_ok_def)
  from journal_pool.simulates_runs [OF this, of ops] claimed_once pool_of_wf show ?thesis by blast
qed

theorem journal_refines_pool_witness:
  "\<exists>outs d'. run_all journal_do [Claim, Claim, Recover, Claim] sample_journal = (Ret outs, d') \<and>
    spec_runs pool_spec (pool_of sample_journal) [Claim, Claim, Recover, Claim] outs (pool_of d')"
  using journal_refines_pool [OF sample_journal_ok, of "[Claim, Claim, Recover, Claim]"] by blast

end
