(* ===== verification/Spec2Isabelle.thy ===== *)
theory Spec2Isabelle
  imports Witness_Files Witness_Gc Witness_Daemon Witness_Cli Journal_Refinement
begin

text \<open>
  Verification of tless, an end-to-end encrypted backup program written in Go.

  \<^bold>\<open>The program.\<close> tless copies directories to a bucket of an S3 compatible object store. Small files are
  packed together into chunks of up to 128 MiB, files of at least that size are cut into chunks of their own;
  every chunk is compressed, encrypted and uploaded as an object \<^verbatim>\<open>chunks/NAME\<close>. When a backup is done, an
  index object, named by the encrypted names of the backup and of the snapshot, lists for every path the
  extents of chunks that hold it. The work of a backup is a journal of tasks in a local SQLite database, so
  that an interrupted backup is resumed or rolled back. Deleting a snapshot deletes its index; chunks that
  no index refers to any more are collected. The keys are in the object \<^verbatim>\<open>metadata\<close>, encrypted under a key
  that is derived from the password. Two programs drive this: the command line (\<^verbatim>\<open>cmd\<close>) and a daemon
  (\<^verbatim>\<open>daemon\<close>) that answers remote calls.

  \<^bold>\<open>How the code is modelled.\<close> A Go function that has effects is a program \<open>('s, 'a) prog\<close>: a function of the
  state that answers with a result and a new state (\<open>Go_Prelude\<close>). The result is \<open>Ret\<close> of a value, a
  \<open>Panic\<close>, or \<open>Spin\<close> when a loop has not ended; a pair of a value and an \<^verbatim>\<open>error\<close> is a sum, \<open>Inl\<close> the error.
  Every early return, error branch and panic of the source is a branch of the definition. The records of
  the state extend each other in the order in which the packages use each other: the world and the bandwidth
  counters (\<open>gst\<close>, in \<open>Environment\<close>), the database (\<open>dst\<close>, in \<open>ObjStore\<close>), the packer and the database file
  (\<open>est\<close>, in \<open>ChunkPacker\<close>), the traversal (\<open>tst\<close>, in \<open>FsTraverse\<close>), what both programs add (\<open>pst\<close>, in
  \<open>Frontend\<close>), and the globals of the daemon (\<open>dmn\<close>) and of the command line (\<open>cli\<close>); the state of a restore with
  its chunk cache is \<open>rst\<close>, in \<open>ChunkCache\<close>.

  What is not in the repository is a parameter: the minio client, the operating system, clock and
  random numbers are fields of the record \<open>sys\<close> over an abstract world; ciphers, gzip, Argon2 and hashes are
  the record \<open>clib\<close>; \<^verbatim>\<open>encoding/json\<close> and \<^verbatim>\<open>encoding/gob\<close> are \<open>jidx\<close>, \<open>jmeta\<close> and \<open>gob\<close>. What the
  program relies on of them is stated as locales and named laws: \<open>object_store\<close> (an object that was put is
  got back), \<open>backup_env\<close> (the answers of the random source), \<open>restore_env\<close> and \<open>working_env\<close> (files),
  \<open>xattr_store\<close> (extended attributes),
  \<open>keyed_store\<close> (the bucket is written by this program under one key), \<open>clib_ok\<close>, \<open>jidx_ok\<close>, \<open>gob_ok\<close>.
  \<open>Mem_Codec\<close> and \<open>Mem_World\<close> interpret all of them by one concrete environment, in which the witnesses run
  the program; they model no part of the repository. The locales \<open>codec\<close>, \<open>work_queue\<close> and \<open>simulation\<close>
  state interfaces inside the program and are interpreted on its own definitions.

  \<^bold>\<open>Theories and sources.\<close>
  \<^item> \<open>Go_Prelude\<close>, \<open>Environment\<close>, \<open>Total_Correctness\<close>: the language, the parameters, and the rules for
    partial correctness (\<open>preserves\<close>, collections \<open>go_run\<close> and \<open>go_preserves\<close>), for results (\<open>achieves\<close>) and
    for termination (\<open>ends\<close>).
  \<^item> \<open>Filepath\<close>, \<open>Glob\<close>: \<^verbatim>\<open>path/filepath\<close> of the standard library, as far as it is called.
  \<^item> \<open>Util\<close>, \<open>Calendar\<close>: \<^verbatim>\<open>pkg/util\<close>; the calendar reads and prints the names of snapshots.
  \<^item> \<open>Cryptography\<close>: \<^verbatim>\<open>pkg/cryptography\<close>. Encryption of buffers, which may append to a buffer that is reused,
    names, and the derivation of keys.
  \<^item> \<open>Database\<close>, \<open>Journal\<close>, \<open>Usage\<close>, \<open>Journal_Refinement\<close>: \<^verbatim>\<open>pkg/database\<close>. The state is the tables as
    lists of rows; every statement may fail (\<open>db_faults\<close> says which). The last theory shows that the journal
    refines a pool of tasks.
  \<^item> \<open>ObjStore\<close>, \<open>BucketMetadata\<close>: \<^verbatim>\<open>pkg/objstore\<close>.
  \<^item> \<open>Snapshots\<close>, \<open>Snapshots_GC\<close>, \<open>Prune\<close>: \<^verbatim>\<open>pkg/snapshots\<close>: listing, indices, deletion and the collection
    of chunks, and which snapshots to keep.
  \<^item> \<open>Serde\<close>, \<open>ChunkPacker\<close>, \<open>Backup\<close>, \<open>JournaledBackup\<close>: \<^verbatim>\<open>serde.go\<close>, \<^verbatim>\<open>xattrs.go\<close>, \<^verbatim>\<open>chunk_packer.go\<close>,
    \<^verbatim>\<open>backup_stats.go\<close>, \<^verbatim>\<open>backup.go\<close> and \<^verbatim>\<open>journaled_backup.go\<close> of \<^verbatim>\<open>pkg/backup\<close>. \<open>FsTraverse\<close> is \<^verbatim>\<open>pkg/fstraverse\<close>.
  \<^item> \<open>ChunkCache\<close>, \<open>Restore\<close>: \<^verbatim>\<open>chunk_cache.go\<close> and \<^verbatim>\<open>restore.go\<close>.
  \<^item> \<open>Chunk_Store\<close>, \<open>Cache_Props\<close>, \<open>Large_Files\<close>, \<open>Roundtrip\<close>, \<open>Restore_Total\<close>: backup and restore composed.
    \<open>Play_Props\<close>, \<open>Journal_Index\<close>: the journal played to its end, and the index it leaves.
  \<^item> \<open>Frontend\<close>, \<open>Blind\<close>: what daemon and command line share, and frames for the programs they call.
  \<^item> \<open>Daemon\<close>, \<open>Daemon_Config\<close>, \<open>Daemon_Work\<close>, \<open>Daemon_Calls\<close>, \<open>Daemon_Views\<close>: the package \<^verbatim>\<open>daemon\<close>, one
    program per remote call and per job it starts. \<open>Daemon_Steps\<close> takes calls apart at the critical
    sections of their locks and interleaves them; \<open>Daemon_Cancel\<close> and \<open>Daemon_View_Props\<close> hold properties.
  \<^item> \<open>Cli\<close>, \<open>Cli_Props\<close>: the package \<^verbatim>\<open>cmd\<close> and the dispatch of \<^verbatim>\<open>main.go\<close>.
  \<^item> \<open>Witnesses\<close>, \<open>Witness_Gc\<close>, \<open>Witness_Files\<close>, \<open>Witness_Daemon\<close>, \<open>Witness_Cli\<close>: the properties applied at
    concrete inputs.

  \<^bold>\<open>What is shown.\<close>
  \<^item> Backup and restore: a file that went through the packer, or was cut into chunks, is restored with exactly
    its contents; with a working environment and room in the cache the restore succeeds; the chunks of a
    large file carry consecutive nonces; headers, extended attributes, buffers and names read back.
  \<^item> The journal: claims hand out every task exactly once; what an interruption left is handed out again;
    playing ends; the index that is written is the one that is listed later; every run of the journal is a run
    of an abstract pool; a failure to write the index wipes the journal.
  \<^item> The bucket: collection deletes only chunks that no readable index refers to, and afterwards none of
    those is left; changing the password keeps the keys; pruning keeps what its policy says.
  \<^item> Traversal: the tasks found are the difference between the tree and the table of known entries.
  \<^item> Daemon and command line: how concurrent calls exclude each other and where they do not; what a
    cancelation leaves behind; the streams sent to the client; rolling back; when a command runs at all.
  \<^item> Flaws: several theorems state behaviour that the code hardly means to have, among them
    \<open>index_failure_wipes_journal\<close>, \<open>oversize_chunk_hangs\<close>, \<open>cancel_undone\<close>, \<open>backup_race\<close> and
    \<open>maintenance_panics\<close>.

  \<^bold>\<open>Bounds and fuel.\<close> Loops whose end depends on the environment count their rounds up to \<open>Attempts\<close>, a field of
  \<open>sys\<close>, and answer \<open>Spin\<close> beyond it. They are the retries of an upload, the loop that makes room in the
  cache, the rounds of playing the journal, the daemon's wait for its turn to replay, and the reading of a log. The
  theorems say how many rounds are enough: \<open>upload_returns\<close> needs one more than the failed attempts of an
  outage; \<open>PlayBackupJournal_ends\<close> one more than the unstarted tasks; \<open>log_stream\<close> one for every 300 bytes of
  the log and one more; \<open>restore_succeeds\<close> one round, since with room nothing is evicted. For
  \<open>oversize_chunk_hangs\<close> no number is enough. All other loops are recursive functions with a proof of
  termination. Integers are kept at their width where it matters (modes, lengths of headers, nonces); the
  counters of bytes and the sizes of files are unbounded integers, as they stay far below \<open>2 ^ 63\<close>.

  \<^bold>\<open>Concurrency.\<close> The engine runs in one goroutine; the only other one it starts persists the memory database
  while a chunk is uploaded, and is run before the upload. The calls of the daemon are run one by one, with
  the jobs they start recorded in the field \<open>goroutines\<close>, except in \<open>Daemon_Steps\<close>, which interleaves
  \<^verbatim>\<open>CheckConn\<close> and \<^verbatim>\<open>Backup\<close> at their critical sections.

  \<^bold>\<open>Not modelled.\<close> The generated code of the remote calls (\<^verbatim>\<open>rpc\<close>) and the demonstration client
  \<^verbatim>\<open>cmd/daemon-client.go\<close>; \<^verbatim>\<open>DaemonMain\<close>, which opens the socket, installs the signal handlers and
  starts the server; the log (\<^verbatim>\<open>vlog.go\<close> and the lines written through it); the parsing of arguments and of the
  configuration file by the packages cobra and viper, whose results are parameters; progress bars that are only
  drawn, and messages that only report the progress of a deletion; the printer of localised numbers;
  a \<^verbatim>\<open>Send\<close> that fails while a stream is sent. All of these are input and output, or calls of
  libraries, without a state that the modelled code depends on.
\<close>

end
